(* ===== verification/Tora_Prelude.thy ===== *)
theory Tora_Prelude
  imports Main "HOL-Library.Word" "HOL-Library.Char_ord" "HOL-Library.List_Lexorder"
begin

text \<open>
  Vocabulary shared by every component of the model: machine integers, pointers, the
  result type of a C++ operation that may throw, abort or run into undefined behaviour,
  the three vector idioms of the interpreter (\<open>back\<close>, \<open>pop_back\<close>, \<open>resize\<close>) and the
  \<open>std::map\<close> idioms (\<open>find\<close>, \<open>insert\<close>, \<open>operator[]\<close>, \<open>erase\<close>) over association lists
  sorted by key.
\<close>

unbundle bit_operations_syntax

subsection \<open>Machine integers and pointers\<close>

text \<open>\<open>int\<close> is 32 bits wide; \<open>ID\<close> is \<open>unsigned int\<close> (tora/tora.h).\<close>

type_synonym i32 = "32 word"
type_synonym ID = "32 word"

text \<open>
  A \<open>SharedPtr\<close> is null or points at a cell. Cells are never freed in the model: an
  address names the same object for ever, which is what reference counting guarantees to
  a holder of the pointer.
\<close>

type_synonym ptr = "nat option"

subsection \<open>Results\<close>

text \<open>
  \<open>Raise x\<close> is a C++ \<open>throw\<close> of the value \<open>x\<close>, \<open>Abort\<close> is \<open>abort()\<close>, a failed
  assertion or \<open>TODO()\<close>, \<open>Undefined\<close> is undefined behaviour (null dereference, reading
  past the end of a vector, a conversion out of range), \<open>Std_exception\<close> is an exception
  of the C++ library (\<open>std::out_of_range\<close>), which the interpreter never catches, \<open>Exit\<close>
  is \<open>exit(1)\<close>.
\<close>

datatype 'x fault = Raise 'x | Abort | Undefined | Std_exception | Exit

type_synonym ('x, 'a) result = "'x fault + 'a"

definition bnd :: "('x, 'a) result \<Rightarrow> ('a \<Rightarrow> ('x, 'b) result) \<Rightarrow> ('x, 'b) result" where
  "bnd m f = (case m of Inl e \<Rightarrow> Inl e | Inr a \<Rightarrow> f a)"

lemma bnd_simps [simp]:
  "bnd (Inl e) f = Inl e"
  "bnd (Inr a) f = f a"
  by (simp_all add: bnd_def)

lemma bnd_Inr_iff: "bnd m f = Inr b \<longleftrightarrow> (\<exists>a. m = Inr a \<and> f a = Inr b)"
  by (cases m) simp_all

lemma bnd_assoc: "bnd (bnd m f) g = bnd m (\<lambda>a. bnd (f a) g)"
  by (cases m) simp_all

lemma bnd_cong [fundef_cong]:
  "m = m' \<Longrightarrow> (\<And>a. m' = Inr a \<Longrightarrow> f a = f' a) \<Longrightarrow> bnd m f = bnd m' f'"
  by (cases m') simp_all

subsection \<open>Vectors\<close>

text \<open>\<open>v.resize(n)\<close> for a vector of shared pointers: truncates, or pads with null.\<close>

definition vresize :: "nat \<Rightarrow> 'a option list \<Rightarrow> 'a option list" where
  "vresize n xs = take n xs @ replicate (n - length xs) None"

lemma length_vresize [simp]: "length (vresize n xs) = n"
  by (simp add: vresize_def)

lemma vresize_same [simp]: "vresize (length xs) xs = xs"
  by (simp add: vresize_def)

lemma vresize_append [simp]: "vresize (length xs) (xs @ ys) = xs"
  by (simp add: vresize_def)

lemma vresize_take: "n \<le> length xs \<Longrightarrow> vresize n xs = take n xs"
  by (simp add: vresize_def)

subsection \<open>Ordered maps\<close>

text \<open>
  \<open>std::map\<close> as an association list sorted by key: iteration visits keys in increasing
  order, \<open>insert\<close> keeps the entry of a key that is present, assignment through
  \<open>operator[]\<close> replaces it.
\<close>

fun map_set :: "'k::linorder \<Rightarrow> 'v \<Rightarrow> ('k \<times> 'v) list \<Rightarrow> ('k \<times> 'v) list" where
  "map_set k v [] = [(k, v)]"
| "map_set k v ((k', v') # m) =
     (if k < k' then (k, v) # (k', v') # m
      else if k = k' then (k, v) # m
      else (k', v') # map_set k v m)"

definition map_insert :: "'k::linorder \<Rightarrow> 'v \<Rightarrow> ('k \<times> 'v) list \<Rightarrow> ('k \<times> 'v) list" where
  "map_insert k v m = (if map_of m k = None then map_set k v m else m)"

definition map_erase :: "'k::linorder \<Rightarrow> ('k \<times> 'v) list \<Rightarrow> ('k \<times> 'v) list" where
  "map_erase k m = filter (\<lambda>(k', _). k' \<noteq> k) m"

abbreviation map_wf :: "('k::linorder \<times> 'v) list \<Rightarrow> bool" where
  "map_wf m \<equiv> sorted_wrt (<) (map fst m)"

lemma map_of_map_set [simp]: "map_of (map_set k v m) = (map_of m)(k \<mapsto> v)"
  by (induction k v m rule: map_set.induct) (auto simp: fun_eq_iff)

lemma fst_map_set: "fst ` set (map_set k v m) = insert k (fst ` set m)"
  by (induction k v m rule: map_set.induct) auto

lemma map_wf_set [simp]: "map_wf m \<Longrightarrow> map_wf (map_set k v m)"
proof (induction k v m rule: map_set.induct)
  case (2 k v k' v' m)
  have "\<forall>x \<in> fst ` set (map_set k v m). k' < x" if "\<not> k < k'" "k \<noteq> k'"
    using 2 that by (auto simp: fst_map_set)
  with 2 show ?case by fastforce
qed simp

lemma map_of_map_insert:
  "map_of (map_insert k v m) = (case map_of m k of None \<Rightarrow> (map_of m)(k \<mapsto> v) | Some _ \<Rightarrow> map_of m)"
  by (auto simp: map_insert_def split: option.split)

lemma map_wf_insert [simp]: "map_wf m \<Longrightarrow> map_wf (map_insert k v m)"
  by (simp add: map_insert_def)

lemma map_of_map_erase: "map_of (map_erase k m) = (map_of m)(k := None)"
  by (induction m) (auto simp: map_erase_def fun_eq_iff)

lemma map_wf_erase [simp]: "map_wf m \<Longrightarrow> map_wf (map_erase k m)"
  by (induction m) (auto simp: map_erase_def)

lemma map_wf_distinct: "map_wf m \<Longrightarrow> distinct (map fst m)"
  by (simp add: strict_sorted_iff)

subsection \<open>Ordered maps as an interface\<close>

text \<open>
  What the clients of a \<open>std::map\<close> rely on: lookups after \<open>operator[]=\<close>, \<open>insert\<close> and
  \<open>erase\<close>, and the invariant every operation keeps.
\<close>

locale ordered_map =
  fixes emp :: 'm
    and look :: "'m \<Rightarrow> 'k \<Rightarrow> 'v option"
    and upd :: "'k \<Rightarrow> 'v \<Rightarrow> 'm \<Rightarrow> 'm"
    and ins :: "'k \<Rightarrow> 'v \<Rightarrow> 'm \<Rightarrow> 'm"
    and era :: "'k \<Rightarrow> 'm \<Rightarrow> 'm"
    and inv :: "'m \<Rightarrow> bool"
  assumes look_emp: "look emp k = None"
    and look_upd: "inv m \<Longrightarrow> look (upd k v m) j = (if j = k then Some v else look m j)"
    and look_ins: "inv m \<Longrightarrow>
      look (ins k v m) j = (if j = k \<and> look m k = None then Some v else look m j)"
    and look_era: "inv m \<Longrightarrow> look (era k m) j = (if j = k then None else look m j)"
    and inv_emp: "inv emp"
    and inv_upd: "inv m \<Longrightarrow> inv (upd k v m)"
    and inv_ins: "inv m \<Longrightarrow> inv (ins k v m)"
    and inv_era: "inv m \<Longrightarrow> inv (era k m)"
begin

lemma ins_keeps: "inv m \<Longrightarrow> look m k = Some w \<Longrightarrow> look (ins k v m) k = Some w"
  by (simp add: look_ins)

lemma upd_after_ins: "inv m \<Longrightarrow> look (upd k v (ins k w m)) j = look (upd k v m) j"
  by (simp add: look_upd look_ins inv_ins)

lemma era_after_upd: "inv m \<Longrightarrow> look (era k (upd k v m)) j = look (era k m) j"
  by (simp add: look_upd look_era inv_upd)

end

interpretation stdmap: ordered_map "[]" map_of map_set map_insert map_erase
  "map_wf :: ('k::linorder \<times> 'v) list \<Rightarrow> bool"
  by unfold_locales (simp_all add: map_of_map_insert map_of_map_erase split: option.split)

end
