(* ===== verification/Tora_Double.thy ===== *)
theory Tora_Double
  imports Complex_Main Tora_Prelude "HOL-Library.Log_Nat" "HOL-Library.Signed_Division"
begin

text \<open>
  The C++ \<open>double\<close> of \<open>tora/value/double.h\<close>: IEEE 754 binary64 over the rationals, with
  round-to-nearest-even, signed zeros, infinities and NaN, and the two library conversions
  the interpreter uses on it (truncation to \<open>int\<close>, the default \<open>ostream\<close> format).
  \<open>operator.cc\<close> divides and takes remainders of 32-bit integers through \<open>double\<close>; the
  last section shows that this is exact.
\<close>

subsection \<open>The format\<close>

text \<open>A finite double has a sign (true for negative) and a magnitude, so zeros are signed.\<close>

datatype dbl = DNaN | DInf bool | DFin bool rat

fun dval :: "dbl \<Rightarrow> rat" where
  "dval (DFin s m) = (if s then - m else m)"
| "dval _ = 0"

definition floor_log2 :: "rat \<Rightarrow> int" where
  "floor_log2 x = (let (p, q) = quotient_of x; e = bitlen p - bitlen q
     in if 2 powi e \<le> x then e else e - 1)"

definition round_half_even :: "rat \<Rightarrow> int" where
  "round_half_even x = (let f = \<lfloor>x\<rfloor>; d = x - of_int f
     in if d < 1/2 then f else if 1/2 < d then f + 1 else if even f then f else f + 1)"

text \<open>Rounding of a nonnegative magnitude to 53 bits, with gradual underflow.\<close>

definition rnd :: "rat \<Rightarrow> rat" where
  "rnd x = (if x = 0 then 0
     else let u = 2 powi (max (floor_log2 x) (-1022) - 52)
          in of_int (round_half_even (x / u)) * u)"

definition mk_dbl :: "bool \<Rightarrow> rat \<Rightarrow> dbl" where
  "mk_dbl s m = (let r = rnd m in if 2 ^ 1024 \<le> r then DInf s else DFin s r)"

text \<open>The double nearest to an exact result; \<open>z\<close> is the sign of an exact zero.\<close>

definition of_exact :: "bool \<Rightarrow> rat \<Rightarrow> dbl" where
  "of_exact z r = (if r = 0 then DFin z 0 else mk_dbl (r < 0) \<bar>r\<bar>)"

definition dbl_of_int :: "i32 \<Rightarrow> dbl" where
  "dbl_of_int i = of_exact False (of_int (sint i))"

subsection \<open>Arithmetic and comparison\<close>

fun dneg :: "dbl \<Rightarrow> dbl" where
  "dneg DNaN = DNaN"
| "dneg (DInf s) = DInf (\<not> s)"
| "dneg (DFin s m) = DFin (\<not> s) m"

fun dadd :: "dbl \<Rightarrow> dbl \<Rightarrow> dbl" where
  "dadd DNaN _ = DNaN"
| "dadd _ DNaN = DNaN"
| "dadd (DInf s) (DInf t) = (if s = t then DInf s else DNaN)"
| "dadd (DInf s) (DFin _ _) = DInf s"
| "dadd (DFin _ _) (DInf t) = DInf t"
| "dadd (DFin s m) (DFin t n) =
     of_exact (s \<and> t \<and> m = 0) (dval (DFin s m) + dval (DFin t n))"

definition dsub :: "dbl \<Rightarrow> dbl \<Rightarrow> dbl" where
  "dsub a b = dadd a (dneg b)"

fun dmul :: "dbl \<Rightarrow> dbl \<Rightarrow> dbl" where
  "dmul DNaN _ = DNaN"
| "dmul _ DNaN = DNaN"
| "dmul (DInf s) (DInf t) = DInf (s \<noteq> t)"
| "dmul (DInf s) (DFin t n) = (if n = 0 then DNaN else DInf (s \<noteq> t))"
| "dmul (DFin s m) (DInf t) = (if m = 0 then DNaN else DInf (s \<noteq> t))"
| "dmul (DFin s m) (DFin t n) =
     of_exact (s \<noteq> t) (dval (DFin s m) * dval (DFin t n))"

fun ddiv :: "dbl \<Rightarrow> dbl \<Rightarrow> dbl" where
  "ddiv DNaN _ = DNaN"
| "ddiv _ DNaN = DNaN"
| "ddiv (DInf s) (DInf t) = DNaN"
| "ddiv (DInf s) (DFin t n) = DInf (s \<noteq> t)"
| "ddiv (DFin s m) (DInf t) = DFin (s \<noteq> t) 0"
| "ddiv (DFin s m) (DFin t n) =
     (if n = 0 then (if m = 0 then DNaN else DInf (s \<noteq> t))
      else of_exact (s \<noteq> t) (dval (DFin s m) / dval (DFin t n)))"

text \<open>\<open>floor\<close> of \<open>math.h\<close>.\<close>

fun dfloor :: "dbl \<Rightarrow> dbl" where
  "dfloor (DFin s m) = of_exact s (of_int \<lfloor>dval (DFin s m)\<rfloor>)"
| "dfloor d = d"

fun deq :: "dbl \<Rightarrow> dbl \<Rightarrow> bool" where
  "deq (DInf s) (DInf t) = (s = t)"
| "deq (DFin s m) (DFin t n) = (dval (DFin s m) = dval (DFin t n))"
| "deq _ _ = False"

fun dlt :: "dbl \<Rightarrow> dbl \<Rightarrow> bool" where
  "dlt DNaN _ = False"
| "dlt _ DNaN = False"
| "dlt (DInf s) (DInf t) = (s \<and> \<not> t)"
| "dlt (DInf s) (DFin _ _) = s"
| "dlt (DFin _ _) (DInf t) = (\<not> t)"
| "dlt (DFin s m) (DFin t n) = (dval (DFin s m) < dval (DFin t n))"

definition dle :: "dbl \<Rightarrow> dbl \<Rightarrow> bool" where
  "dle a b = (dlt a b \<or> deq a b)"

text \<open>
  \<open>static_cast<int>(d)\<close>: truncation towards zero; \<open>None\<close> where C++ leaves the result
  undefined (NaN, infinities, values that do not fit).
\<close>

definition trunc_rat :: "rat \<Rightarrow> int" where
  "trunc_rat r = (if r < 0 then - \<lfloor>- r\<rfloor> else \<lfloor>r\<rfloor>)"

fun dbl_to_int :: "dbl \<Rightarrow> i32 option" where
  "dbl_to_int (DFin s m) =
     (let t = trunc_rat (dval (DFin s m))
      in if - (2 ^ 31) \<le> t \<and> t < 2 ^ 31 then Some (word_of_int t) else None)"
| "dbl_to_int _ = None"

subsection \<open>Exactness on 32-bit integers\<close>


lemma two_powi_less: "(2::rat) powi m < 2 powi n \<Longrightarrow> m < n"
  by (meson not_less one_le_numeral power_int_increasing)

lemma two_powi_small:
  assumes "1 / (2::rat) ^ 31 \<le> x"
  shows "2 powi (-1022) \<le> x"
proof -
  have "(2::rat) powi (-31) = 1 / 2 ^ 31"
    unfolding power_int_def by (simp add: field_simps)
  moreover have "(2::rat) powi (-1022) \<le> 2 powi (-31)"
    by (rule power_int_increasing) simp_all
  ultimately show ?thesis using assms by (metis order_trans)
qed

lemma rat_bitlen_bounds:
  assumes "0 < (x::int)"
  shows "2 powi (bitlen x - 1) \<le> (of_int x :: rat)" "(of_int x :: rat) < 2 powi (bitlen x)"
proof -
  have b: "2 ^ nat (bitlen x - 1) \<le> x" "x < 2 ^ nat (bitlen x)"
    using bitlen_bounds [OF assms] by auto
  have n: "0 \<le> bitlen x - 1"
    using bitlen_nonneg [of x] bitlen_eq_zero_iff [of x] assms by linarith
  have "(of_int (2 ^ nat (bitlen x - 1)) :: rat) \<le> of_int x"
    using b(1) by (simp only: of_int_le_iff)
  then show "2 powi (bitlen x - 1) \<le> (of_int x :: rat)"
    using n by (simp add: power_int_def)
  have "(of_int x :: rat) < of_int (2 ^ nat (bitlen x))"
    using b(2) by (simp only: of_int_less_iff)
  then show "(of_int x :: rat) < 2 powi (bitlen x)"
    using n by (simp add: power_int_def)
qed

lemma floor_log2_bounds:
  assumes "0 < x"
  shows "2 powi (floor_log2 x) \<le> x" "x < 2 * 2 powi (floor_log2 x)"
proof -
  obtain p q where pq: "quotient_of x = (p, q)" by force
  have q: "0 < q" and x: "x = of_int p / of_int q"
    using pq quotient_of_denom_pos quotient_of_div by blast+
  then have p: "0 < p"
    using assms by (simp add: zero_less_divide_iff)
  define e where "e = bitlen p - bitlen q"
  have pb: "2 powi (bitlen p - 1) \<le> (of_int p :: rat)" "(of_int p :: rat) < 2 powi (bitlen p)"
    and qb: "2 powi (bitlen q - 1) \<le> (of_int q :: rat)" "(of_int q :: rat) < 2 powi (bitlen q)"
    using rat_bitlen_bounds [OF p] rat_bitlen_bounds [OF q] by simp_all
  have "x < 2 powi (bitlen p) / 2 powi (bitlen q - 1)"
    unfolding x using pb qb p q by (intro frac_less) auto
  also have "\<dots> = 2 powi (e + 1)"
    by (simp add: e_def power_int_diff power_int_add)
  finally have up: "x < 2 powi (e + 1)" .
  have "2 powi (bitlen p - 1) / 2 powi (bitlen q) \<le> x"
    unfolding x using pb qb p q by (intro frac_le) auto
  then have lo: "2 powi (e - 1) \<le> x"
    by (simp add: e_def power_int_diff)
  have "floor_log2 x = (if 2 powi e \<le> x then e else e - 1)"
    by (simp add: floor_log2_def pq e_def Let_def)
  with up lo show "2 powi (floor_log2 x) \<le> x" "x < 2 * 2 powi (floor_log2 x)"
    by (auto simp: power_int_add power_int_diff split: if_splits)
qed

lemma round_half_even_ge: "of_int n \<le> x \<Longrightarrow> n \<le> round_half_even x"
proof -
  assume "of_int n \<le> x"
  then have "n \<le> \<lfloor>x\<rfloor>" by (simp add: le_floor_iff)
  then show ?thesis by (simp add: round_half_even_def Let_def)
qed

lemma round_half_even_le: "of_int (round_half_even x) \<le> x + 1/2"
proof -
  have "of_int \<lfloor>x\<rfloor> \<le> x" by simp
  then have "of_int \<lfloor>x\<rfloor> \<le> x + 1/2" by linarith
  then show ?thesis
    by (auto simp: round_half_even_def Let_def)
qed

lemma round_half_even_int [simp]: "round_half_even (of_int n) = n"
  by (simp add: round_half_even_def)

lemma floor_log2_ge:
  assumes "0 < x" "2 powi k \<le> x"
  shows "k \<le> floor_log2 x"
proof -
  have "(2::rat) powi k < 2 powi (floor_log2 x + 1)"
    using floor_log2_bounds [OF assms(1)] assms(2) by (simp add: power_int_add)
  then have "k < floor_log2 x + 1"
    by (rule two_powi_less)
  then show ?thesis by simp
qed

lemma floor_log2_le:
  assumes "0 < x" "x < 2 powi (k + 1)"
  shows "floor_log2 x \<le> k"
proof -
  have "(2::rat) powi (floor_log2 x) < 2 powi (k + 1)"
    using floor_log2_bounds [OF assms(1)] assms(2) by simp
  then have "floor_log2 x < k + 1"
    by (rule two_powi_less)
  then show ?thesis by simp
qed

text \<open>Rounding never crosses an integer from above, and errs by a relative \<open>2 ^ -53\<close> at most.\<close>

lemma rnd_ge_int:
  assumes "0 < x" "x < 2 ^ 52" "of_int n \<le> x"
  shows "of_int n \<le> rnd x"
proof -
  define e where "e = max (floor_log2 x) (-1022)"
  have "floor_log2 x \<le> 51"
    by (rule floor_log2_le) (use assms in simp_all)
  then have e: "e \<le> 52" by (simp add: e_def)
  define u :: rat where "u = 2 powi (e - 52)"
  have u: "0 < u" by (simp add: u_def)
  have nu: "of_int (n * 2 ^ nat (52 - e)) = of_int n / u"
    using e by (simp add: u_def power_int_diff power_int_def divide_simps flip: power_add)
  have "of_int n / u \<le> x / u"
    using assms u by (simp add: divide_right_mono)
  then have "n * 2 ^ nat (52 - e) \<le> round_half_even (x / u)"
    unfolding nu [symmetric] by (rule round_half_even_ge)
  then have "(of_int (n * 2 ^ nat (52 - e)) :: rat) \<le> of_int (round_half_even (x / u))"
    by (simp only: of_int_le_iff)
  then have "of_int n / u \<le> of_int (round_half_even (x / u))"
    by (simp only: nu)
  then show ?thesis
    using assms(1) u by (simp add: rnd_def Let_def e_def u_def divide_simps)
qed

lemma rnd_le:
  assumes "2 powi (-1022) \<le> x"
  shows "rnd x \<le> x + x / 2 ^ 53"
proof -
  have x: "0 < x"
    using assms by (meson less_le_trans zero_less_numeral zero_less_power_int)
  define e where "e = floor_log2 x"
  have e: "max e (-1022) = e"
    using floor_log2_ge [OF x assms] by (simp add: e_def)
  define u :: rat where "u = 2 powi (e - 52)"
  have u: "0 < u" by (simp add: u_def)
  have ue: "u / 2 \<le> x / 2 ^ 53"
    using floor_log2_bounds(1) [OF x] by (simp add: u_def e_def power_int_diff divide_simps)
  have "rnd x = of_int (round_half_even (x / u)) * u"
    using x e by (simp add: rnd_def u_def e_def Let_def)
  also have "\<dots> \<le> (x / u + 1/2) * u"
    using u round_half_even_le by (simp add: mult_right_mono)
  also have "\<dots> = x + u / 2"
    using u by (simp add: field_simps)
  finally show ?thesis using ue by linarith
qed

lemma rnd_int:
  assumes "0 \<le> n" "n < 2 ^ 52"
  shows "rnd (of_int n) = of_int n"
proof (cases "n = 0")
  case True
  then show ?thesis by (simp add: rnd_def)
next
  case False
  define e where "e = max (floor_log2 (of_int n)) (-1022)"
  have n: "0 < (of_int n :: rat)" "(of_int n :: rat) < 2 powi (51 + 1)"
    using assms False by (simp_all flip: of_int_less_numeral_power_cancel_iff)
  have "floor_log2 (of_int n) \<le> 51"
    by (rule floor_log2_le [OF n])
  then have e: "e \<le> 52" by (simp add: e_def)
  define u :: rat where "u = 2 powi (e - 52)"
  have u: "0 < u" by (simp add: u_def)
  have nu: "of_int n / u = of_int (n * 2 ^ nat (52 - e))"
    using e by (simp add: u_def power_int_diff power_int_def divide_simps flip: power_add)
  have "rnd (of_int n) = of_int (round_half_even (of_int n / u)) * u"
    using False by (simp add: rnd_def u_def e_def Let_def)
  also have "\<dots> = of_int n / u * u"
    unfolding nu by (simp only: round_half_even_int)
  finally show ?thesis using u by simp
qed

lemma round_half_even_lower: "x - 1/2 \<le> of_int (round_half_even x)"
proof -
  have "x < of_int \<lfloor>x\<rfloor> + 1" by linarith
  then have "x - 1/2 \<le> of_int \<lfloor>x\<rfloor> + 1" by linarith
  then show ?thesis
    by (auto simp: round_half_even_def Let_def)
qed

lemma rnd_lower:
  assumes "2 powi (-1022) \<le> x"
  shows "x - x / 2 ^ 53 \<le> rnd x"
proof -
  have x: "0 < x"
    using assms by (meson less_le_trans zero_less_numeral zero_less_power_int)
  define e where "e = floor_log2 x"
  have e: "max e (-1022) = e"
    using floor_log2_ge [OF x assms] by (simp add: e_def)
  define u :: rat where "u = 2 powi (e - 52)"
  have u: "0 < u" by (simp add: u_def)
  have ue: "u / 2 \<le> x / 2 ^ 53"
    using floor_log2_bounds(1) [OF x] by (simp add: u_def e_def power_int_diff divide_simps)
  have "x - u / 2 = (x / u - 1/2) * u"
    using u by (simp add: field_simps)
  also have "\<dots> \<le> of_int (round_half_even (x / u)) * u"
    using u round_half_even_lower by (simp add: mult_right_mono)
  also have "\<dots> = rnd x"
    using x e by (simp add: rnd_def u_def e_def Let_def)
  finally show ?thesis using ue by linarith
qed

text \<open>The quotient of two integers of at most 31 bits rounds inside its integer interval.\<close>

lemma rnd_quotient:
  assumes "0 < a" "a \<le> 2 ^ 31" "0 < b" "b \<le> 2 ^ 31"
  shows "\<lfloor>rnd (of_int a / of_int b)\<rfloor> = a div b"
    and "\<lceil>rnd (of_int a / of_int b)\<rceil> = - (- a div b)"
proof -
  define x :: rat where "x = of_int a / of_int b"
  define n where "n = a div b"
  have b0: "0 < (of_int b :: rat)" and x0: "0 < x"
    using assms by (simp_all add: x_def)
  have a31: "(of_int a :: rat) \<le> 2 ^ 31" and b31: "(of_int b :: rat) \<le> 2 ^ 31"
    using assms by (simp_all flip: of_int_le_numeral_power_cancel_iff)
  have nx: "of_int n \<le> x"
    unfolding n_def x_def floor_divide_of_int_eq [of a b, where 'a = rat, symmetric] by simp
  have x31: "x \<le> 2 ^ 31"
  proof -
    have "x \<le> of_int a / 1"
      unfolding x_def using assms by (intro frac_le) auto
    then show ?thesis using a31 by simp
  qed
  have x32: "2 powi (-1022) \<le> x"
  proof (rule two_powi_small)
    show "1 / 2 ^ 31 \<le> x"
      unfolding x_def using assms b31 by (intro frac_le) auto
  qed
  have lo: "of_int n \<le> rnd x"
    using x0 x31 nx by (intro rnd_ge_int) auto
  have "a = b * n + a mod b" and "a mod b < b"
    using assms(3) by (simp_all add: n_def)
  then have "a + 1 \<le> b * n + b" by linarith
  then have "a + 1 \<le> b * (n + 1)" by (simp add: distrib_left)
  then have "(of_int (a + 1) :: rat) \<le> of_int (b * (n + 1))"
    by (simp only: of_int_le_iff)
  then have "x + 1 / of_int b \<le> of_int n + 1"
    using b0 by (simp add: x_def divide_simps mult.commute)
  moreover have "x / 2 ^ 53 < 1 / of_int b"
    using a31 b0 by (simp add: x_def divide_simps)
  ultimately have "rnd x < of_int n + 1"
    using rnd_le [OF x32] by linarith
  with lo have fl: "\<lfloor>rnd x\<rfloor> = n"
    by (simp add: floor_unique)
  then show "\<lfloor>rnd (of_int a / of_int b)\<rfloor> = a div b"
    by (simp add: x_def n_def)
  show "\<lceil>rnd (of_int a / of_int b)\<rceil> = - (- a div b)"
  proof (cases "b dvd a")
    case True
    then obtain k where k: "a = b * k" by blast
    have "0 \<le> k" "k < 2 ^ 52"
      using assms k by (auto simp: zero_less_mult_iff) (smt (verit) mult_le_cancel_right1)
    then have "rnd (of_int k) = of_int k" by (rule rnd_int)
    moreover have "- a div b = - k"
      using assms(3) by (simp add: k flip: mult_minus_right)
    ultimately show ?thesis using assms(3) by (simp add: k)
  next
    case False
    then have "a mod b \<noteq> 0" by (simp add: dvd_eq_mod_eq_0)
    then have "0 < a mod b" using assms(3) by (simp add: order_less_le)
    then have "b * n + 1 \<le> a" using \<open>a = b * n + a mod b\<close> by linarith
    then have "(of_int (b * n + 1) :: rat) \<le> of_int a"
      by (simp only: of_int_le_iff)
    then have "of_int n + 1 / of_int b \<le> x"
      using b0 by (simp add: x_def divide_simps mult.commute)
    moreover have "x / 2 ^ 53 < 1 / of_int b"
      using a31 b0 by (simp add: x_def divide_simps)
    ultimately have "of_int n < rnd x"
      using rnd_lower [OF x32] by linarith
    then have "\<lceil>rnd x\<rceil> = n + 1"
      using \<open>rnd x < of_int n + 1\<close> by (simp add: ceiling_unique)
    moreover have "- a div b = - n - 1"
      unfolding n_def using \<open>a mod b \<noteq> 0\<close> assms(3) by (subst zdiv_zminus1_eq_if) auto
    ultimately show ?thesis by (simp add: x_def)
  qed
qed

lemma sint_i32_bounds: "- (2 ^ 31) \<le> sint (i::i32)" "sint i < 2 ^ 31"
  using sint_range_size [of i] by (simp_all add: word_size)

lemma small_not_huge:
  assumes "\<bar>n\<bar> \<le> 2 ^ 62"
  shows "(of_int \<bar>n\<bar> :: rat) < 2 ^ 1024"
proof -
  have "(of_int \<bar>n\<bar> :: rat) \<le> of_int (2 ^ 62)"
    using assms by (simp only: of_int_le_iff)
  also have "\<dots> = 2 ^ 62" by simp
  also have "(2 ^ 62 :: rat) < 2 ^ 1024"
    by (rule power_strict_increasing) simp_all
  finally show ?thesis .
qed

text \<open>Integers of at most 52 bits are exact.\<close>

lemma of_exact_int:
  assumes "\<bar>n\<bar> < 2 ^ 52"
  shows "of_exact z (of_int n) = DFin (if n = 0 then z else n < 0) (of_int \<bar>n\<bar>)"
proof -
  have "rnd (of_int \<bar>n\<bar>) = of_int \<bar>n\<bar>"
    using assms by (intro rnd_int) simp_all
  moreover have "(of_int \<bar>n\<bar> :: rat) < 2 ^ 1024"
    by (rule small_not_huge) (use assms in simp)
  ultimately show ?thesis
    unfolding of_exact_def mk_dbl_def Let_def
    by (simp del: of_int_abs add: not_le flip: of_int_abs)
qed

lemma dval_of_exact_int: "\<bar>n\<bar> < 2 ^ 52 \<Longrightarrow> dval (of_exact z (of_int n)) = of_int n"
  by (simp add: of_exact_int del: of_int_abs)

lemma dbl_of_int_eq: "dbl_of_int i = DFin (sint i < 0) (of_int \<bar>sint i\<bar>)"
  using sint_i32_bounds [of i] unfolding dbl_of_int_def by (subst of_exact_int) auto

lemma dval_dbl_of_int: "dval (dbl_of_int i) = of_int (sint i)"
  unfolding dbl_of_int_def
  by (rule dval_of_exact_int) (use sint_i32_bounds [of i] in auto)

text \<open>
  Division of 32-bit integers through doubles (\<open>op_div\<close>): the quotient, rounded to a double
  and truncated back, is the exact truncated quotient.
\<close>

lemma sint_nonzero: "sint (b::i32) \<noteq> 0 \<longleftrightarrow> b \<noteq> 0"
  by (metis signed_eq_0_iff)

lemma ddiv_of_int:
  assumes "b \<noteq> 0"
  shows "ddiv (dbl_of_int a) (dbl_of_int b) =
    of_exact ((sint a < 0) \<noteq> (sint b < 0)) (of_int (sint a) / of_int (sint b))"
proof -
  have "sint b \<noteq> 0" using assms by (simp only: sint_nonzero not_False_eq_True)
  then show ?thesis
    using dval_dbl_of_int [of a] dval_dbl_of_int [of b] by (simp add: dbl_of_int_eq del: dval.simps of_int_sint)
qed

lemma trunc_rat_signed: "0 \<le> m \<Longrightarrow> trunc_rat (if s then - m else m) = (if s then - \<lfloor>m\<rfloor> else \<lfloor>m\<rfloor>)"
  by (auto simp: trunc_rat_def)

text \<open>The double quotient of two 32-bit integers, by sign and rounded magnitude.\<close>

lemma ddiv_of_int_magnitude:
  assumes "b \<noteq> 0" "a \<noteq> 0"
  defines "m \<equiv> rnd (of_int \<bar>sint a\<bar> / of_int \<bar>sint b\<bar>)"
  shows "ddiv (dbl_of_int a) (dbl_of_int b) = DFin ((sint a < 0) \<noteq> (sint b < 0)) m"
    and "0 \<le> m"
    and "\<lfloor>m\<rfloor> = \<bar>sint a\<bar> div \<bar>sint b\<bar>"
    and "\<lceil>m\<rceil> = - (- \<bar>sint a\<bar> div \<bar>sint b\<bar>)"
proof -
  have nz: "sint a \<noteq> 0" "sint b \<noteq> 0"
    using assms by (simp_all only: sint_nonzero not_False_eq_True)
  have bd: "\<bar>sint a\<bar> \<le> 2 ^ 31" "\<bar>sint b\<bar> \<le> 2 ^ 31"
    using sint_i32_bounds [of a] sint_i32_bounds [of b] by auto
  have pos: "0 < \<bar>sint a\<bar>" "0 < \<bar>sint b\<bar>" using nz by simp_all
  show fl: "\<lfloor>m\<rfloor> = \<bar>sint a\<bar> div \<bar>sint b\<bar>"
    and "\<lceil>m\<rceil> = - (- \<bar>sint a\<bar> div \<bar>sint b\<bar>)"
    unfolding m_def by (rule rnd_quotient [OF pos(1) bd(1) pos(2) bd(2)])+
  have "0 \<le> \<bar>sint a\<bar> div \<bar>sint b\<bar>"
    using pos by (simp add: pos_imp_zdiv_nonneg_iff)
  with fl show m0: "0 \<le> m" by (metis zero_le_floor)
  have "\<bar>sint a\<bar> div \<bar>sint b\<bar> \<le> \<bar>sint a\<bar>"
    using pos zdiv_mono2 [of "\<bar>sint a\<bar>" 1 "\<bar>sint b\<bar>"] by simp
  then have "m < of_int (\<bar>sint a\<bar> + 1)"
    using fl by linarith
  also have "\<dots> < 2 ^ 1024"
    using small_not_huge [of "\<bar>sint a\<bar> + 1"] bd by simp
  finally have mh: "m < 2 ^ 1024" .
  define r :: rat where "r = of_int (sint a) / of_int (sint b)"
  have r: "r \<noteq> 0" "\<bar>r\<bar> = of_int \<bar>sint a\<bar> / of_int \<bar>sint b\<bar>" "r < 0 \<longleftrightarrow> (sint a < 0) \<noteq> (sint b < 0)"
    using nz by (auto simp: r_def divide_less_0_iff simp del: of_int_sint)
  show "ddiv (dbl_of_int a) (dbl_of_int b) = DFin ((sint a < 0) \<noteq> (sint b < 0)) m"
    unfolding ddiv_of_int [OF assms(1)] r_def [symmetric] of_exact_def mk_dbl_def Let_def r(2)
    using r(1,3) mh by (simp add: m_def not_le [symmetric])
qed

theorem trunc_ddiv:
  assumes "b \<noteq> 0"
  shows "trunc_rat (dval (ddiv (dbl_of_int a) (dbl_of_int b))) = sint a sdiv sint b"
proof (cases "a = 0")
  case True
  then show ?thesis
    by (simp add: ddiv_of_int [OF assms] of_exact_def signed_divide_int_def trunc_rat_def)
next
  case False
  have "sint a \<noteq> 0" "sint b \<noteq> 0"
    using assms False by (simp_all only: sint_nonzero not_False_eq_True)
  then show ?thesis
    using ddiv_of_int_magnitude [OF assms False]
    by (simp add: trunc_rat_signed signed_divide_int_def sgn_if del: of_int_abs of_int_sint)
qed

text \<open>
  The remainder of 32-bit integers through doubles (\<open>op_modulo\<close>): \<open>x - y * floor(x / y)\<close> is
  the exact remainder of floored division, whose sign is the divisor's.
\<close>

lemma dfloor_ddiv:
  assumes "b \<noteq> 0"
  shows "\<exists>z. dfloor (ddiv (dbl_of_int a) (dbl_of_int b)) = of_exact z (of_int (sint a div sint b))"
proof (cases "a = 0")
  case True
  then show ?thesis
    by (auto simp: ddiv_of_int [OF assms] of_exact_def)
next
  case False
  have nz: "sint a \<noteq> 0" "sint b \<noteq> 0"
    using assms False by (simp_all only: sint_nonzero not_False_eq_True)
  define m where "m = rnd (of_int \<bar>sint a\<bar> / of_int \<bar>sint b\<bar>)"
  have m: "ddiv (dbl_of_int a) (dbl_of_int b) = DFin ((sint a < 0) \<noteq> (sint b < 0)) m"
    "\<lfloor>m\<rfloor> = \<bar>sint a\<bar> div \<bar>sint b\<bar>" "\<lceil>m\<rceil> = - (- \<bar>sint a\<bar> div \<bar>sint b\<bar>)"
    using ddiv_of_int_magnitude [OF assms False] by (simp_all only: m_def)
  have "\<lfloor>if (sint a < 0) \<noteq> (sint b < 0) then - m else m\<rfloor> = sint a div sint b"
  proof (cases "(sint a < 0) \<noteq> (sint b < 0)")
    case True
    then have "- \<bar>sint a\<bar> div \<bar>sint b\<bar> = sint a div sint b"
      using nz by (auto simp: abs_if)
    with True m(3) show ?thesis by (simp add: floor_minus)
  next
    case False
    then have "\<bar>sint a\<bar> div \<bar>sint b\<bar> = sint a div sint b"
      using nz by (auto simp: abs_if)
    with False m(2) show ?thesis by simp
  qed
  then show ?thesis unfolding m(1) by auto
qed

theorem double_modulo_exact:
  assumes "b \<noteq> 0"
  shows "dbl_to_int (dsub (dbl_of_int a) (dmul (dbl_of_int b)
           (dfloor (ddiv (dbl_of_int a) (dbl_of_int b))))) =
         Some (word_of_int (sint a mod sint b))"
proof -
  define x y where "x = sint a" and "y = sint b"
  have y: "y \<noteq> 0" unfolding y_def using assms by (simp only: sint_nonzero not_False_eq_True)
  have xb: "- (2 ^ 31) \<le> x" "x < 2 ^ 31" "- (2 ^ 31) \<le> y" "y < 2 ^ 31"
    using sint_i32_bounds [of a] sint_i32_bounds [of b] by (simp_all add: x_def y_def)
  have xy: "y * (x div y) = x - x mod y"
    by (simp add: minus_mod_eq_mult_div)
  have md: "\<bar>x mod y\<bar> < \<bar>y\<bar>"
    using y by (metis abs_mod_less)
  have ab: "\<bar>x\<bar> \<le> 2 ^ 31" "\<bar>y\<bar> \<le> 2 ^ 31" using xb by auto
  have pb: "\<bar>y * (x div y)\<bar> < 2 ^ 52"
    using abs_triangle_ineq4 [of x "x mod y"] ab md unfolding xy by simp
  have "\<bar>x div y\<bar> \<le> \<bar>y * (x div y)\<bar>"
    using y by (auto simp: abs_mult mult_le_cancel_right1)
  then have db: "\<bar>x div y\<bar> < 2 ^ 52" using pb by linarith
  obtain z where z: "dfloor (ddiv (dbl_of_int a) (dbl_of_int b)) = of_exact z (of_int (x div y))"
    using dfloor_ddiv [OF assms] by (auto simp: x_def y_def)
  have a: "dbl_of_int a = DFin (x < 0) (of_int \<bar>x\<bar>)" and b: "dbl_of_int b = DFin (y < 0) (of_int \<bar>y\<bar>)"
    by (simp_all add: dbl_of_int_eq x_def y_def)
  have "\<exists>z. dmul (dbl_of_int b) (of_exact z' (of_int (x div y))) = of_exact z (of_int (y * (x div y)))" for z'
    unfolding b of_exact_int [OF db] by (auto simp: abs_if)
  then obtain z2 where m: "dmul (dbl_of_int b) (of_exact z (of_int (x div y))) =
      of_exact z2 (of_int (y * (x div y)))" by blast
  have sb: "\<bar>x - y * (x div y)\<bar> < 2 ^ 52"
    using md ab by (simp add: minus_mult_div_eq_mod)
  have "\<exists>z. dsub (dbl_of_int a) (of_exact z2 (of_int (y * (x div y)))) = of_exact z (of_int (x - y * (x div y)))"
    unfolding a dsub_def of_exact_int [OF pb] by (auto simp: abs_if)
  then obtain z3 where s: "dsub (dbl_of_int a) (of_exact z2 (of_int (y * (x div y)))) =
      of_exact z3 (of_int (x - y * (x div y)))" by blast
  have e: "x - y * (x div y) = x mod y" by (simp add: minus_mult_div_eq_mod)
  have mb: "\<bar>x mod y\<bar> < 2 ^ 52" "- (2 ^ 31) \<le> x mod y" "x mod y < 2 ^ 31"
    using md ab by simp_all
  show ?thesis
    unfolding z m s e of_exact_int [OF mb(1)] using mb
    by (auto simp: trunc_rat_def abs_if x_def y_def Let_def simp del: of_int_sint)
qed

lemma trunc_div_bounds:
  fixes x y :: int
  assumes "- (2 ^ 31) \<le> x" "x < 2 ^ 31" "y \<noteq> 0" "\<not> (x = - (2 ^ 31) \<and> y = -1)"
  shows "- (2 ^ 31) \<le> (x sdiv y) \<and> (x sdiv y) < 2 ^ 31"
proof (cases "\<bar>y\<bar> = 1")
  case True
  then show ?thesis
    using assms by (auto simp: signed_divide_int_def abs_if sgn_if split: if_splits)
next
  case False
  then have "2 \<le> \<bar>y\<bar>" using assms(3) by linarith
  then have "\<bar>x\<bar> div \<bar>y\<bar> \<le> \<bar>x\<bar> div 2"
    by (intro zdiv_mono2) auto
  moreover have "\<bar>x\<bar> \<le> 2 ^ 31" using assms by auto
  then have "\<bar>x\<bar> div 2 \<le> 2 ^ 31 div 2" by (rule zdiv_mono1) simp
  ultimately have "\<bar>x\<bar> div \<bar>y\<bar> \<le> 2 ^ 30" by simp
  moreover have "0 \<le> \<bar>x\<bar> div \<bar>y\<bar>"
    using \<open>2 \<le> \<bar>y\<bar>\<close> by (simp add: pos_imp_zdiv_nonneg_iff)
  ultimately show ?thesis
    by (auto simp: signed_divide_int_def sgn_if)
qed

theorem double_division_exact:
  assumes "b \<noteq> 0" "\<not> (sint a = - (2 ^ 31) \<and> sint b = - 1)"
  shows "dbl_to_int (ddiv (dbl_of_int a) (dbl_of_int b)) =
         Some (word_of_int (sint a sdiv sint b))"
proof -
  obtain s m where d: "ddiv (dbl_of_int a) (dbl_of_int b) = DFin s m"
  proof (cases "a = 0")
    case True
    then show ?thesis using that by (simp add: ddiv_of_int [OF assms(1)] of_exact_def)
  next
    case False
    show ?thesis using ddiv_of_int_magnitude(1) [OF assms(1) False] that by blast
  qed
  have t: "trunc_rat (dval (DFin s m)) = sint a sdiv sint b"
    using trunc_ddiv [OF assms(1), of a] unfolding d .
  have "sint b \<noteq> 0" using assms(1) by (simp only: sint_nonzero not_False_eq_True)
  then have "- (2 ^ 31) \<le> (sint a sdiv sint b) \<and> (sint a sdiv sint b) < 2 ^ 31"
    using sint_i32_bounds [of a] assms(2) by (intro trunc_div_bounds) auto
  then show ?thesis unfolding d using t by (simp add: Let_def)
qed

end
