(* ===== verification/Tora_Text.thy ===== *)
theory Tora_Text
  imports Tora_Double
begin

text \<open>
  The text conversions of the C and C++ libraries that the interpreter calls: decimal output
  of \<open>int\<close> and \<open>double\<close> by an \<open>ostream\<close> in its default format, \<open>strtol\<close> in base 10,
  \<open>std::string::rfind\<close>, and the character helpers of \<open>tora/util.cc\<close>. Strings are lists of bytes.
\<close>

subsection \<open>Decimal output\<close>

definition digit_char :: "nat \<Rightarrow> char" where
  "digit_char d = char_of (48 + d)"

fun show_nat :: "nat \<Rightarrow> string" where
  "show_nat n = (if n < 10 then [digit_char n] else show_nat (n div 10) @ [digit_char (n mod 10)])"

declare show_nat.simps [simp del]

text \<open>\<open>os << i\<close> for an \<open>int\<close>.\<close>

definition show_int :: "int \<Rightarrow> string" where
  "show_int i = (if i < 0 then ''-'' @ show_nat (nat (- i)) else show_nat (nat i))"

definition show_i32 :: "i32 \<Rightarrow> string" where
  "show_i32 w = show_int (sint w)"

text \<open>
  \<open>os << d\<close> for a \<open>double\<close> in the default format, which is \<open>%g\<close> with precision 6: the value
  is rounded to six significant decimal digits, trailing zeros are dropped, and the exponent
  form is used below \<open>1e-4\<close> and from \<open>1e+06\<close> on.
\<close>

definition floor_log10 :: "rat \<Rightarrow> int" where
  "floor_log10 x = (let (p, q) = quotient_of x;
       e = int (length (show_nat (nat p))) - int (length (show_nat (nat q)))
     in if 10 powi e \<le> x then e else e - 1)"

definition drop_zeros :: "string \<Rightarrow> string" where
  "drop_zeros s = rev (dropWhile (\<lambda>c. c = CHR ''0'') (rev s))"

definition with_point :: "string \<Rightarrow> string \<Rightarrow> string" where
  "with_point a b = (let f = drop_zeros b in if f = [] then a else a @ ''.'' @ f)"

definition show_exponent :: "int \<Rightarrow> string" where
  "show_exponent e = ''e'' @ (if e < 0 then ''-'' else ''+'') @
     (let s = show_nat (nat \<bar>e\<bar>) in if length s < 2 then ''0'' @ s else s)"

definition show_magnitude :: "rat \<Rightarrow> string" where
  "show_magnitude m = (if m = 0 then ''0'' else
     let e0 = floor_log10 m;
         d0 = round_half_even (m / 10 powi (e0 - 5));
         (d, e) = (if d0 = 1000000 then (100000, e0 + 1) else (d0, e0));
         s = show_nat (nat d)
     in if e < -4 \<or> 6 \<le> e then with_point (take 1 s) (drop 1 s) @ show_exponent e
        else if 0 \<le> e then with_point (take (nat e + 1) s) (drop (nat e + 1) s)
        else with_point ''0'' (replicate (nat (- e) - 1) (CHR ''0'') @ s))"

fun show_dbl :: "dbl \<Rightarrow> string" where
  "show_dbl DNaN = ''nan''"
| "show_dbl (DInf s) = (if s then ''-inf'' else ''inf'')"
| "show_dbl (DFin s m) = (if s then ''-'' else '''') @ show_magnitude m"

subsection \<open>Decimal input\<close>

text \<open>A \<open>char*\<close> ends at the first zero byte.\<close>

definition c_str :: "string \<Rightarrow> string" where
  "c_str s = takeWhile (\<lambda>c. c \<noteq> CHR 0x00) s"

definition is_digit :: "char \<Rightarrow> bool" where
  "is_digit c = (48 \<le> (of_char c :: nat) \<and> (of_char c :: nat) \<le> 57)"

definition digit_val :: "char \<Rightarrow> nat" where
  "digit_val c = of_char c - 48"

definition is_space :: "char \<Rightarrow> bool" where
  "is_space c = ((of_char c :: nat) = 32 \<or> (9 \<le> (of_char c :: nat) \<and> (of_char c :: nat) \<le> 13))"

definition read_nat :: "string \<Rightarrow> nat" where
  "read_nat s = foldl (\<lambda>n c. n * 10 + digit_val c) 0 (takeWhile is_digit s)"

text \<open>
  The mathematical value \<open>strtol(s, &end, 10)\<close> converts: leading white space, an optional
  sign, digits up to the first other character (0 when there is none).
\<close>

definition strtol_value :: "string \<Rightarrow> int" where
  "strtol_value s = (case dropWhile is_space (c_str s) of
       [] \<Rightarrow> 0
     | c # cs \<Rightarrow> (if c = CHR ''-'' then - int (read_nat cs)
                 else if c = CHR ''+'' then int (read_nat cs)
                 else int (read_nat (c # cs))))"

text \<open>\<open>None\<close> is \<open>ERANGE\<close> for a 64-bit \<open>long\<close>.\<close>

definition strtol :: "string \<Rightarrow> int option" where
  "strtol s = (let n = strtol_value s in if - (2 ^ 63) \<le> n \<and> n < 2 ^ 63 then Some n else None)"

subsection \<open>Searching\<close>

text \<open>\<open>s.rfind(pat)\<close>: the last position at which \<open>pat\<close> occurs.\<close>

fun rfind :: "string \<Rightarrow> string \<Rightarrow> nat option" where
  "rfind pat [] = (if pat = [] then Some 0 else None)"
| "rfind pat (c # cs) = (case rfind pat cs of
       Some i \<Rightarrow> Some (Suc i)
     | None \<Rightarrow> if take (length pat) (c # cs) = pat then Some 0 else None)"

text \<open>\<open>s.substr(pos, n)\<close> for a \<open>pos\<close> within the string.\<close>

definition substr :: "string \<Rightarrow> nat \<Rightarrow> nat \<Rightarrow> string" where
  "substr s pos n = take n (drop pos s)"

subsection \<open>Helpers of tora/util.cc\<close>

text \<open>The result is the pair of package and name; \<open>None\<close> when the function returns false.\<close>

definition split_package_funname :: "string \<Rightarrow> (string \<times> string) option" where
  "split_package_funname v = (case rfind ''::'' v of
       Some pos \<Rightarrow> Some (take pos v, drop (pos + 2) v)
     | None \<Rightarrow> None)"

text \<open>
  The package part is \<open>varname.substr(1, pos-1)\<close>: at \<open>pos = 0\<close> the length wraps around to
  \<open>npos\<close> and the whole rest of the string is taken.
\<close>

definition split_package_varname :: "string \<Rightarrow> (string \<times> string) option" where
  "split_package_varname v = (case rfind ''::'' v of
       Some pos \<Rightarrow> Some (if pos = 0 then drop 1 v else substr v 1 (pos - 1), drop (pos + 2) v)
     | None \<Rightarrow> None)"

definition hexchar2int :: "char \<Rightarrow> ('x, int) result" where
  "hexchar2int ch = (let c = of_char ch :: int
     in if 48 \<le> c \<and> c \<le> 57 then Inr (c - 48)
        else if 97 \<le> c \<and> c \<le> 102 then Inr (c - 97 + 10)
        else if 65 \<le> c \<and> c \<le> 70 then Inr (c - 65 + 10)
        else Inl Abort)"

definition octchar2int :: "char \<Rightarrow> int" where
  "octchar2int ch = of_char ch - 48"

subsection \<open>Decimal round trip\<close>

lemma digit_char_props:
  assumes "d < 10"
  shows "is_digit (digit_char d)" "digit_val (digit_char d) = d"
proof -
  have "(of_char (char_of (48 + d) :: char) :: nat) = 48 + d" using assms by simp
  then show "is_digit (digit_char d)" "digit_val (digit_char d) = d"
    using assms by (simp_all add: is_digit_def digit_val_def digit_char_def)
qed

lemma show_nat_digits: "\<forall>c \<in> set (show_nat n). is_digit c"
  by (induction n rule: show_nat.induct) (subst show_nat.simps, auto simp: digit_char_props)

lemma show_nat_not_Nil [simp]: "show_nat n \<noteq> []"
  by (subst show_nat.simps) simp

lemma foldl_show_nat: "foldl (\<lambda>n c. n * 10 + digit_val c) 0 (show_nat n) = n"
proof (induction n rule: show_nat.induct)
  case (1 n)
  then show ?case by (subst show_nat.simps) (simp add: digit_char_props)
qed

lemma read_show_nat [simp]: "read_nat (show_nat n) = n"
proof -
  have "takeWhile is_digit (show_nat n) = show_nat n"
    by (subst takeWhile_eq_all_conv) (rule show_nat_digits)
  then show ?thesis unfolding read_nat_def by (simp only: foldl_show_nat)
qed

lemma digit_not_special:
  assumes "is_digit c"
  shows "\<not> is_space c" "c \<noteq> CHR ''-''" "c \<noteq> CHR ''+''" "c \<noteq> CHR 0x00"
  using assms by (auto simp: is_digit_def is_space_def)

lemma c_str_id: "\<forall>c \<in> set s. c \<noteq> CHR 0x00 \<Longrightarrow> c_str s = s"
  by (simp add: c_str_def takeWhile_eq_all_conv)

lemma c_str_show_nat: "c_str (show_nat n) = show_nat n"
  using show_nat_digits digit_not_special(4) by (blast intro: c_str_id)

lemma strtol_value_show_int: "strtol_value (show_int i) = i"
proof (cases "i < 0")
  case True
  have "c_str (CHR ''-'' # show_nat (nat (- i))) = CHR ''-'' # show_nat (nat (- i))"
    using c_str_show_nat by (simp add: c_str_def)
  moreover have "\<not> is_space (CHR ''-'')" by (simp add: is_space_def)
  ultimately show ?thesis using True by (simp add: strtol_value_def show_int_def)
next
  case False
  obtain c cs where s: "show_nat (nat i) = c # cs"
    using show_nat_not_Nil by (meson neq_Nil_conv)
  then have "is_digit c" using show_nat_digits [of "nat i"] by simp
  moreover have "c_str (show_nat (nat i)) = show_nat (nat i)" by (rule c_str_show_nat)
  ultimately show ?thesis
    using False s digit_not_special read_show_nat [of "nat i"]
    by (simp add: strtol_value_def show_int_def)
qed

lemma strtol_show_i32: "strtol (show_i32 w) = Some (sint w)"
  using sint_i32_bounds [of w]
  by (simp add: strtol_def show_i32_def strtol_value_show_int)

subsection \<open>Splitting qualified names\<close>

definition occurs :: "string \<Rightarrow> string \<Rightarrow> bool" where
  "occurs pat s = (\<exists>a b. s = a @ pat @ b)"

lemma rfind_Some: "rfind pat s = Some i \<Longrightarrow> i + length pat \<le> length s \<and> substr s i (length pat) = pat"
proof (induction s arbitrary: i)
  case (Cons c cs)
  then show ?case
  proof (cases "rfind pat cs")
    case None
    then have "i = 0" and t: "take (length pat) (c # cs) = pat"
      using Cons.prems by (auto split: if_splits)
    moreover have "length pat \<le> length (c # cs)"
      by (metis t length_take min.cobounded1)
    ultimately show ?thesis by (simp add: substr_def)
  next
    case (Some j)
    then show ?thesis using Cons by (auto simp: substr_def)
  qed
qed (auto simp: substr_def split: if_splits)

lemma occurs_Cons: "occurs pat (c # cs) \<longleftrightarrow> take (length pat) (c # cs) = pat \<or> occurs pat cs"
proof
  assume "occurs pat (c # cs)"
  then obtain a b where ab: "c # cs = a @ pat @ b" by (auto simp: occurs_def)
  then show "take (length pat) (c # cs) = pat \<or> occurs pat cs"
    by (cases a) (auto simp: occurs_def)
next
  assume "take (length pat) (c # cs) = pat \<or> occurs pat cs"
  then show "occurs pat (c # cs)"
  proof
    assume "take (length pat) (c # cs) = pat"
    then have "c # cs = [] @ pat @ drop (length pat) (c # cs)"
      by (metis append_Nil append_take_drop_id)
    then show ?thesis unfolding occurs_def by blast
  next
    assume "occurs pat cs"
    then show ?thesis unfolding occurs_def by (metis append_Cons)
  qed
qed

lemma rfind_None: "rfind pat s = None \<longleftrightarrow> \<not> occurs pat s"
proof (induction s)
  case Nil
  then show ?case by (simp add: occurs_def)
next
  case (Cons c cs)
  then show ?case by (auto simp: occurs_Cons split: option.splits)
qed

lemma rfind_last: "pat \<noteq> [] \<Longrightarrow> rfind pat s = Some i \<Longrightarrow> \<not> occurs pat (drop (Suc i) s)"
proof (induction s arbitrary: i)
  case Nil
  then show ?case by (auto simp: occurs_def split: if_splits)
next
  case (Cons c cs)
  then show ?case by (auto simp: rfind_None split: option.splits if_splits)
qed

lemma split_package_funname_Some:
  assumes "split_package_funname v = Some (p, d)"
  shows "v = p @ ''::'' @ d"
proof -
  obtain i where i: "rfind ''::'' v = Some i" "p = take i v" "d = drop (i + 2) v"
    using assms by (auto simp: split_package_funname_def split: option.splits)
  have "take 2 (drop i v) = ''::''" using rfind_Some [OF i(1)] by (simp add: substr_def numeral_2_eq_2)
  then have "drop i v = ''::'' @ drop 2 (drop i v)" by (metis append_take_drop_id)
  then show ?thesis using i by (metis append_take_drop_id drop_drop add.commute)
qed

end
