(* ===== verification/Tora_Op.thy ===== *)
theory Tora_Op
  imports Tora_Text
begin

text \<open>
  Instructions: \<open>tora/op.h\<close> (an instruction and its operand, two 16-bit halves packed in one
  \<open>int\<close>), the instruction names of \<open>tora/vm.ops.inc.h\<close>, and \<open>tora/op_array.h\<close> (the
  instructions of a compiled unit with a copy of their names and their line numbers).
\<close>

subsection \<open>Instruction names (tora/vm.ops.inc.h)\<close>

text \<open>
  The enumeration \<open>op_type_t\<close> has 85 names, in the order of \<open>vm.inc\<close>. They are declared in
  six consecutive stretches, and each name of the source abbreviates its place in one.
\<close>

datatype pushing_op =
    I_PUSH_TRUE
  | I_PUSH_FALSE
  | I_PUSH_SELF
  | I_PUSH_UNDEF
  | I_PUSH_INT
  | I_PUSH_DOUBLE
  | I_PUSH_STRING
  | I_GETARG
  | I_SETARG
  | I_PUSH_VALUE
  | I_NEW_RANGE
  | I_FUNCDEF
  | I_CLOSUREDEF
  | I_GETCLOSURE
  | I_SETCLOSURE

datatype arith_op =
    I_ADD
  | I_SUB
  | I_DIV
  | I_MUL
  | I_POW
  | I_BITAND
  | I_BITOR
  | I_BITXOR
  | I_BITLSHIFT
  | I_BITRSHIFT
  | I_MOD

datatype control_op =
    I_BUILTIN_FUNCALL
  | I_NEXTSTATE
  | I_FUNCALL
  | I_METHOD_CALL
  | I_LAST
  | I_RETURN
  | I_ENTER
  | I_ENTER_WHILE
  | I_ENTER_FOR
  | I_LEAVE
  | I_PUSH_IDENTIFIER
  | I_DUMP
  | I_JUMP_IF_FALSE
  | I_JUMP_IF_TRUE
  | I_JUMP

datatype compare_op =
    I_EQ
  | I_NE
  | I_GT
  | I_LT
  | I_GE
  | I_LE

datatype data_op =
    I_SETLOCAL
  | I_SETDYNAMIC
  | I_GETDYNAMIC
  | I_GETLOCAL
  | I_GET_ITEM
  | I_SET_ITEM
  | I_UNARY_NEGATIVE
  | I_MAKE_HASH
  | I_MAKE_ARRAY
  | I_MAKE_TUPLE
  | I_EXTRACT_TUPLE
  | I_PRE_INCREMENT
  | I_POST_INCREMENT
  | I_PRE_DECREMENT
  | I_POST_DECREMENT
  | I_FILE_TEST
  | I_GETGLOBAL
  | I_POP_TOP

datatype other_op =
    I_ENTER_FOREACH
  | I_FOR_ITER
  | I_JUMP_IF_STOP_EXCEPTION
  | I_DOTDOTDOT
  | I_TRY
  | I_DIE
  | I_USE
  | I_NOT
  | I_PACKAGE_ENTER
  | I_PACKAGE_LEAVE
  | I_CLASS_ENTER
  | I_CLASS_LEAVE
  | I_DEREF
  | I_EXTRACT_ARRAY
  | I_SET_PACKAGE_VARIABLE
  | I_INSTANCIATE_IDENTIFIER
  | I_GET_PACKAGE_VARIABLE
  | I_LOCAL
  | I_SET_PARENT
  | I_END

datatype op_type =
    Push pushing_op
  | Arith arith_op
  | Control control_op
  | Compare compare_op
  | Data data_op
  | Other other_op

abbreviation "OP_PUSH_TRUE \<equiv> Push I_PUSH_TRUE"
abbreviation "OP_PUSH_FALSE \<equiv> Push I_PUSH_FALSE"
abbreviation "OP_PUSH_SELF \<equiv> Push I_PUSH_SELF"
abbreviation "OP_PUSH_UNDEF \<equiv> Push I_PUSH_UNDEF"
abbreviation "OP_PUSH_INT \<equiv> Push I_PUSH_INT"
abbreviation "OP_PUSH_DOUBLE \<equiv> Push I_PUSH_DOUBLE"
abbreviation "OP_PUSH_STRING \<equiv> Push I_PUSH_STRING"
abbreviation "OP_GETARG \<equiv> Push I_GETARG"
abbreviation "OP_SETARG \<equiv> Push I_SETARG"
abbreviation "OP_PUSH_VALUE \<equiv> Push I_PUSH_VALUE"
abbreviation "OP_NEW_RANGE \<equiv> Push I_NEW_RANGE"
abbreviation "OP_FUNCDEF \<equiv> Push I_FUNCDEF"
abbreviation "OP_CLOSUREDEF \<equiv> Push I_CLOSUREDEF"
abbreviation "OP_GETCLOSURE \<equiv> Push I_GETCLOSURE"
abbreviation "OP_SETCLOSURE \<equiv> Push I_SETCLOSURE"
abbreviation "OP_ADD \<equiv> Arith I_ADD"
abbreviation "OP_SUB \<equiv> Arith I_SUB"
abbreviation "OP_DIV \<equiv> Arith I_DIV"
abbreviation "OP_MUL \<equiv> Arith I_MUL"
abbreviation "OP_POW \<equiv> Arith I_POW"
abbreviation "OP_BITAND \<equiv> Arith I_BITAND"
abbreviation "OP_BITOR \<equiv> Arith I_BITOR"
abbreviation "OP_BITXOR \<equiv> Arith I_BITXOR"
abbreviation "OP_BITLSHIFT \<equiv> Arith I_BITLSHIFT"
abbreviation "OP_BITRSHIFT \<equiv> Arith I_BITRSHIFT"
abbreviation "OP_MOD \<equiv> Arith I_MOD"
abbreviation "OP_BUILTIN_FUNCALL \<equiv> Control I_BUILTIN_FUNCALL"
abbreviation "OP_NEXTSTATE \<equiv> Control I_NEXTSTATE"
abbreviation "OP_FUNCALL \<equiv> Control I_FUNCALL"
abbreviation "OP_METHOD_CALL \<equiv> Control I_METHOD_CALL"
abbreviation "OP_LAST \<equiv> Control I_LAST"
abbreviation "OP_RETURN \<equiv> Control I_RETURN"
abbreviation "OP_ENTER \<equiv> Control I_ENTER"
abbreviation "OP_ENTER_WHILE \<equiv> Control I_ENTER_WHILE"
abbreviation "OP_ENTER_FOR \<equiv> Control I_ENTER_FOR"
abbreviation "OP_LEAVE \<equiv> Control I_LEAVE"
abbreviation "OP_PUSH_IDENTIFIER \<equiv> Control I_PUSH_IDENTIFIER"
abbreviation "OP_DUMP \<equiv> Control I_DUMP"
abbreviation "OP_JUMP_IF_FALSE \<equiv> Control I_JUMP_IF_FALSE"
abbreviation "OP_JUMP_IF_TRUE \<equiv> Control I_JUMP_IF_TRUE"
abbreviation "OP_JUMP \<equiv> Control I_JUMP"
abbreviation "OP_EQ \<equiv> Compare I_EQ"
abbreviation "OP_NE \<equiv> Compare I_NE"
abbreviation "OP_GT \<equiv> Compare I_GT"
abbreviation "OP_LT \<equiv> Compare I_LT"
abbreviation "OP_GE \<equiv> Compare I_GE"
abbreviation "OP_LE \<equiv> Compare I_LE"
abbreviation "OP_SETLOCAL \<equiv> Data I_SETLOCAL"
abbreviation "OP_SETDYNAMIC \<equiv> Data I_SETDYNAMIC"
abbreviation "OP_GETDYNAMIC \<equiv> Data I_GETDYNAMIC"
abbreviation "OP_GETLOCAL \<equiv> Data I_GETLOCAL"
abbreviation "OP_GET_ITEM \<equiv> Data I_GET_ITEM"
abbreviation "OP_SET_ITEM \<equiv> Data I_SET_ITEM"
abbreviation "OP_UNARY_NEGATIVE \<equiv> Data I_UNARY_NEGATIVE"
abbreviation "OP_MAKE_HASH \<equiv> Data I_MAKE_HASH"
abbreviation "OP_MAKE_ARRAY \<equiv> Data I_MAKE_ARRAY"
abbreviation "OP_MAKE_TUPLE \<equiv> Data I_MAKE_TUPLE"
abbreviation "OP_EXTRACT_TUPLE \<equiv> Data I_EXTRACT_TUPLE"
abbreviation "OP_PRE_INCREMENT \<equiv> Data I_PRE_INCREMENT"
abbreviation "OP_POST_INCREMENT \<equiv> Data I_POST_INCREMENT"
abbreviation "OP_PRE_DECREMENT \<equiv> Data I_PRE_DECREMENT"
abbreviation "OP_POST_DECREMENT \<equiv> Data I_POST_DECREMENT"
abbreviation "OP_FILE_TEST \<equiv> Data I_FILE_TEST"
abbreviation "OP_GETGLOBAL \<equiv> Data I_GETGLOBAL"
abbreviation "OP_POP_TOP \<equiv> Data I_POP_TOP"
abbreviation "OP_ENTER_FOREACH \<equiv> Other I_ENTER_FOREACH"
abbreviation "OP_FOR_ITER \<equiv> Other I_FOR_ITER"
abbreviation "OP_JUMP_IF_STOP_EXCEPTION \<equiv> Other I_JUMP_IF_STOP_EXCEPTION"
abbreviation "OP_DOTDOTDOT \<equiv> Other I_DOTDOTDOT"
abbreviation "OP_TRY \<equiv> Other I_TRY"
abbreviation "OP_DIE \<equiv> Other I_DIE"
abbreviation "OP_USE \<equiv> Other I_USE"
abbreviation "OP_NOT \<equiv> Other I_NOT"
abbreviation "OP_PACKAGE_ENTER \<equiv> Other I_PACKAGE_ENTER"
abbreviation "OP_PACKAGE_LEAVE \<equiv> Other I_PACKAGE_LEAVE"
abbreviation "OP_CLASS_ENTER \<equiv> Other I_CLASS_ENTER"
abbreviation "OP_CLASS_LEAVE \<equiv> Other I_CLASS_LEAVE"
abbreviation "OP_DEREF \<equiv> Other I_DEREF"
abbreviation "OP_EXTRACT_ARRAY \<equiv> Other I_EXTRACT_ARRAY"
abbreviation "OP_SET_PACKAGE_VARIABLE \<equiv> Other I_SET_PACKAGE_VARIABLE"
abbreviation "OP_INSTANCIATE_IDENTIFIER \<equiv> Other I_INSTANCIATE_IDENTIFIER"
abbreviation "OP_GET_PACKAGE_VARIABLE \<equiv> Other I_GET_PACKAGE_VARIABLE"
abbreviation "OP_LOCAL \<equiv> Other I_LOCAL"
abbreviation "OP_SET_PARENT \<equiv> Other I_SET_PARENT"
abbreviation "OP_END \<equiv> Other I_END"

subsection \<open>Instructions (tora/op.h)\<close>

text \<open>
  The operand is a union that the constructor \<open>OP(type)\<close> leaves uninitialised; a
  \<open>ValueOP\<close> also holds a value.
\<close>

datatype operand = NoOperand | IntOperand i32 | DoubleOperand dbl

record op =
  op_type :: op_type
  operand :: operand
  op_value :: ptr

definition mk_op :: "op_type \<Rightarrow> op" where
  "mk_op t = \<lparr>op_type = t, operand = NoOperand, op_value = None\<rparr>"

definition mk_op_int :: "op_type \<Rightarrow> i32 \<Rightarrow> op" where
  "mk_op_int t i = \<lparr>op_type = t, operand = IntOperand i, op_value = None\<rparr>"

definition pack_operand :: "i32 \<Rightarrow> i32 \<Rightarrow> i32" where
  "pack_operand high low = push_bit 16 (high AND 0x0000ffff) OR (low AND 0x0000ffff)"

definition mk_op_high_low :: "op_type \<Rightarrow> i32 \<Rightarrow> i32 \<Rightarrow> op" where
  "mk_op_high_low t high low =
     \<lparr>op_type = t, operand = IntOperand (pack_operand high low), op_value = None\<rparr>"

definition mk_value_op :: "op_type \<Rightarrow> ptr \<Rightarrow> op" where
  "mk_value_op t v = \<lparr>op_type = t, operand = NoOperand, op_value = v\<rparr>"

text \<open>Reading the integer of a union that holds none is undefined.\<close>

definition int_operand :: "op \<Rightarrow> ('x, i32) result" where
  "int_operand o' = (case operand o' of IntOperand i \<Rightarrow> Inr i | _ \<Rightarrow> Inl Undefined)"

definition int_high :: "i32 \<Rightarrow> i32" where
  "int_high i = signed_drop_bit 16 i AND 0x0000FFFF"

definition int_low :: "i32 \<Rightarrow> i32" where
  "int_low i = i AND 0x0000ffff"

definition int_operand_high :: "op \<Rightarrow> ('x, i32) result" where
  "int_operand_high o' = bnd (int_operand o') (\<lambda>i. Inr (int_high i))"

definition int_operand_low :: "op \<Rightarrow> ('x, i32) result" where
  "int_operand_low o' = bnd (int_operand o') (\<lambda>i. Inr (int_low i))"

subsection \<open>Instruction arrays (tora/op_array.h)\<close>

record op_array =
  op_types :: "op_type list"
  ops :: "op list"
  linenos :: "nat list"

definition new_op_array :: op_array where
  "new_op_array = \<lparr>op_types = [], ops = [], linenos = []\<rparr>"

definition op_push_back :: "op \<Rightarrow> nat \<Rightarrow> op_array \<Rightarrow> op_array" where
  "op_push_back o' l a = \<lparr>op_types = op_types a @ [op_type o'], ops = ops a @ [o'],
     linenos = linenos a @ [l]\<rparr>"

definition op_array_size :: "op_array \<Rightarrow> nat" where
  "op_array_size a = length (ops a)"

definition op_at :: "op_array \<Rightarrow> nat \<Rightarrow> ('x, op) result" where
  "op_at a i = (if i < length (ops a) then Inr (ops a ! i) else Inl Std_exception)"

definition op_type_at :: "op_array \<Rightarrow> nat \<Rightarrow> ('x, op_type) result" where
  "op_type_at a i = (if i < length (op_types a) then Inr (op_types a ! i) else Inl Undefined)"

definition get_lineno :: "op_array \<Rightarrow> nat \<Rightarrow> ('x, nat) result" where
  "get_lineno a pc = (if pc < length (linenos a) then Inr (linenos a ! pc) else Inl Undefined)"

text \<open>
  \<open>op->operand.int_value = v\<close> through a pointer kept after \<open>push_back\<close>: the instruction
  changes in place, the copy of its name does not.
\<close>

definition patch_operand :: "nat \<Rightarrow> i32 \<Rightarrow> op_array \<Rightarrow> op_array" where
  "patch_operand n v a =
     a\<lparr>ops := (ops a)[n := (ops a ! n)\<lparr>operand := IntOperand v\<rparr>]\<rparr>"

text \<open>The three vectors describe the same instructions.\<close>

definition op_array_ok :: "op_array \<Rightarrow> bool" where
  "op_array_ok a = (op_types a = map op_type (ops a) \<and> length (linenos a) = length (ops a))"

lemma op_array_ok_new [simp]: "op_array_ok new_op_array"
  by (simp add: op_array_ok_def new_op_array_def)

lemma op_array_ok_push_back [simp]: "op_array_ok a \<Longrightarrow> op_array_ok (op_push_back o' l a)"
  by (simp add: op_array_ok_def op_push_back_def)

lemma op_array_ok_patch [simp]: "op_array_ok a \<Longrightarrow> op_array_ok (patch_operand n v a)"
  by (cases "n < length (ops a)")
    (auto simp: op_array_ok_def patch_operand_def map_update list_update_beyond
      intro!: nth_equalityI simp: nth_list_update)

lemma op_array_dispatch: "op_array_ok a \<Longrightarrow> op_at a i = Inr o' \<Longrightarrow> op_type_at a i = Inr (op_type o')"
  by (simp add: op_array_ok_def op_at_def op_type_at_def split: if_splits)

subsection \<open>Packing two halves\<close>

lemma ffff_mask: "(0xffff :: i32) = mask 16"
  by (simp add: mask_eq_exp_minus_1)

lemma int_low_pack: "int_low (pack_operand high low) = low AND 0xffff"
  unfolding int_low_def pack_operand_def ffff_mask
  by (rule bit_word_eqI) (auto simp: bit_simps)

lemma int_high_pack: "int_high (pack_operand high low) = high AND 0xffff"
  unfolding int_high_def pack_operand_def ffff_mask
  by (rule bit_word_eqI) (auto simp: bit_simps)

lemma and_ffff_small:
  assumes "i < 2 ^ 16"
  shows "(i :: i32) AND 0xffff = i"
proof -
  have "unat i < 2 ^ 16" using assms by (simp add: word_less_nat_alt)
  then have "unat (take_bit 16 i) = unat i"
    by (simp only: unsigned_take_bit_eq take_bit_nat_eq_self_iff)
  then show ?thesis unfolding ffff_mask take_bit_eq_mask [symmetric] by (rule word_unat_eq_iff [THEN iffD2])
qed

end
