(* ===== verification/Tora_Value.thy ===== *)
theory Tora_Value
  imports Tora_Op
begin

text \<open>
  Values: the classes of \<open>tora/value.h\<close> and \<open>tora/value/*.h\<close> as one datatype with a
  constructor per \<open>value_type_t\<close>, the heap that holds them, and the conversions of
  \<open>tora/value.cc\<close>. A value operation that throws allocates the exception at the throw; here
  it returns \<open>Raise\<close> with the object thrown, and the virtual machine allocates it.
\<close>

subsection \<open>Objects (tora/value.h, tora/value/*.h)\<close>

datatype exception_type =
    EXCEPTION_TYPE_UNDEF
  | EXCEPTION_TYPE_STOP_ITERATION
  | EXCEPTION_TYPE_ZERO_DIVIDED
  | EXCEPTION_TYPE_GENERAL
  | EXCEPTION_TYPE_ARGUMENT
  | EXCEPTION_TYPE_ERRNO

text \<open>
  A native function (tora/callback.h): its calling convention and the function, named by a
  number that the table of natives interprets, or an integer constant.
\<close>

datatype callback =
    Func_vmv nat
  | Func_vm0 nat
  | Func_vm1 nat
  | Func_vm2 nat
  | Func_vm3 nat
  | Func_vm4 nat
  | Func_vm_self_v nat
  | Const_int i32

text \<open>
  A code value (tora/value/code.h). \<open>is_native\<close> is \<open>callback \<noteq> None\<close>; a pad list is an
  address in the store of pads; \<open>code_params\<close> is null for a function declared without a
  parameter list.
\<close>

record code =
  callback :: "callback option"
  package_id :: ID
  func_name_id :: ID
  code_params :: "string list option"
  code_defaults :: "i32 list option"
  closure_var_names :: "string list"
  pad_list :: "nat option"
  code_opcodes :: op_array
  code_filename :: string
  code_lineno :: i32

definition new_code ::
    "ID \<Rightarrow> ID \<Rightarrow> string \<Rightarrow> i32 \<Rightarrow> string list option \<Rightarrow> code" where
  "new_code pkg name file line params =
     \<lparr>callback = None, package_id = pkg, func_name_id = name, code_params = params,
      code_defaults = None, closure_var_names = [], pad_list = None,
      code_opcodes = new_op_array, code_filename = file, code_lineno = line\<rparr>"

definition new_native_code :: "ID \<Rightarrow> ID \<Rightarrow> callback \<Rightarrow> code" where
  "new_native_code pkg name cb =
     \<lparr>callback = Some cb, package_id = pkg, func_name_id = name, code_params = None,
      code_defaults = None, closure_var_names = [], pad_list = None,
      code_opcodes = new_op_array, code_filename = '''', code_lineno = -1\<rparr>"

definition is_native :: "code \<Rightarrow> bool" where
  "is_native c = (callback c \<noteq> None)"

text \<open>
  An exception carries its kind, the \<open>errno\<close> of the \<open>EXCEPTION_TYPE_ERRNO\<close> kind and the
  text its \<open>message()\<close> returns (for that kind the \<open>strerror\<close> text). A hash iterator is a
  \<open>std::map\<close> iterator: the key it stands at, \<open>None\<close> at the end. A regular expression of RE2
  is its source and flags. The files and pointers of the host are numbers.
\<close>

datatype (plugins only: code size) obj =
    UndefValue
  | IntValue i32
  | BoolValue bool
  | StrValue string
  | CodeValue code
  | ArrayValue "ptr list"
  | DoubleValue dbl
  | RegexpValue string i32
  | TupleValue "ptr list"
  | FileValue "nat option"
  | RangeValue ptr ptr
  | ArrayIterator i32 ptr
  | RangeIterator i32 ptr
  | ExceptionValue exception_type "i32 option" string
  | SymbolValue ID
  | HashValue "(string \<times> ptr) list"
  | HashIterator "string option" ptr
  | ObjectValue ptr ptr bool
  | ClassValue ID ptr "(ID \<times> ptr) list"
  | PointerValue nat
  | BytesValue string
  | ReferenceValue ptr
  | FilePackageValue ID nat

type_synonym heap = "obj list"

type_synonym 'a val_result = "(obj, 'a) result"

subsection \<open>The heap\<close>

definition alloc :: "obj \<Rightarrow> heap \<Rightarrow> heap \<times> nat" where
  "alloc x h = (h @ [x], length h)"

text \<open>Dereferencing null, or an address that was never allocated, is undefined.\<close>

definition deref :: "heap \<Rightarrow> ptr \<Rightarrow> obj val_result" where
  "deref h p = (case p of None \<Rightarrow> Inl Undefined
     | Some a \<Rightarrow> if a < length h then Inr (h ! a) else Inl Undefined)"

definition store :: "ptr \<Rightarrow> obj \<Rightarrow> heap \<Rightarrow> heap" where
  "store p x h = (case p of None \<Rightarrow> h | Some a \<Rightarrow> h[a := x])"

lemma deref_simps [simp]:
  "deref h None = Inl Undefined"
  "a < length h \<Longrightarrow> deref h (Some a) = Inr (h ! a)"
  by (simp_all add: deref_def)

lemma deref_InrE:
  assumes "deref h p = Inr x"
  obtains a where "p = Some a" "a < length h" "x = h ! a"
  using assms by (auto simp: deref_def split: option.splits if_splits)

lemma deref_append: "deref h p = Inr x \<Longrightarrow> deref (h @ h') p = Inr x"
  by (auto elim!: deref_InrE simp: nth_append)

lemma deref_alloc [simp]: "deref (h @ [x]) (Some (length h)) = Inr x"
  by simp

subsection \<open>Exceptions (tora/value/exception.cc)\<close>

text \<open>
  \<open>ExceptionValue(format, ...)\<close> formats into a buffer of 4096 bytes, so the message is cut
  to 4095; \<open>%s\<close> prints a string up to its first zero byte.
\<close>

definition exception_value :: "string \<Rightarrow> obj" where
  "exception_value s = ExceptionValue EXCEPTION_TYPE_GENERAL None (take 4095 s)"

definition argument_exception_value :: "string \<Rightarrow> obj" where
  "argument_exception_value s = ExceptionValue EXCEPTION_TYPE_ARGUMENT None (take 4095 s)"

text \<open>\<open>ExceptionValue(const std::string&)\<close> keeps the whole message.\<close>

definition exception_of_string :: "string \<Rightarrow> obj" where
  "exception_of_string s = ExceptionValue EXCEPTION_TYPE_GENERAL None s"

definition zero_divided_exception :: obj where
  "zero_divided_exception =
     ExceptionValue EXCEPTION_TYPE_ZERO_DIVIDED None ''floating point exception: divided by zero''"

definition stop_iteration_exception :: obj where
  "stop_iteration_exception = ExceptionValue EXCEPTION_TYPE_STOP_ITERATION None ''''"

definition throw_fmt :: "string \<Rightarrow> ('a::type) val_result" where
  "throw_fmt s = Inl (Raise (exception_value s))"

fun is_exception :: "obj \<Rightarrow> bool" where
  "is_exception (ExceptionValue _ _ _) = True"
| "is_exception _ = False"

subsection \<open>Type names and classes (tora/value.cc)\<close>

text \<open>
  For an object, \<open>ObjectValue::type_str\<close> returns a pointer into the string
  \<open>ClassValue::name()\<close> returned by value, which is destroyed before the caller reads it.
\<close>

fun type_str :: "obj \<Rightarrow> string val_result" where
  "type_str (RangeValue _ _) = Inr ''Range''"
| "type_str (BoolValue _) = Inr ''Bool''"
| "type_str (ExceptionValue _ _ _) = Inr ''Exception''"
| "type_str (HashValue _) = Inr ''Hash''"
| "type_str (DoubleValue _) = Inr ''Double''"
| "type_str (IntValue _) = Inr ''Int''"
| "type_str (StrValue _) = Inr ''Str''"
| "type_str (FileValue _) = Inr ''File''"
| "type_str (CodeValue _) = Inr ''Code''"
| "type_str (TupleValue _) = Inr ''Tuple''"
| "type_str (PointerValue _) = Inr ''Pointer''"
| "type_str (RegexpValue _ _) = Inr ''Regexp''"
| "type_str (RangeIterator _ _) = Inr ''Range::Iterator''"
| "type_str (ArrayValue _) = Inr ''Array''"
| "type_str UndefValue = Inr ''Undef''"
| "type_str (SymbolValue _) = Inr ''Symbol''"
| "type_str (HashIterator _ _) = Inr ''Hash::Iterator''"
| "type_str (ArrayIterator _ _) = Inr ''Array::Iterator''"
| "type_str (BytesValue _) = Inr ''Bytes''"
| "type_str (ReferenceValue _) = Inr ''Reference''"
| "type_str (ClassValue _ _ _) = Inr ''Class''"
| "type_str (FilePackageValue _ _) = Inr ''FilePackage''"
| "type_str (ObjectValue _ _ _) = Inl Undefined"

text \<open>\<open>throw new ExceptionValue("...%s...", v->type_str())\<close>\<close>

definition throw_type :: "string \<Rightarrow> obj \<Rightarrow> string \<Rightarrow> ('a::type) val_result" where
  "throw_type before x after = bnd (type_str x) (\<lambda>t. throw_fmt (before @ t @ after))"

subsection \<open>Conversions (tora/value.cc)\<close>

fun to_bool :: "obj \<Rightarrow> bool" where
  "to_bool UndefValue = False"
| "to_bool (BoolValue b) = b"
| "to_bool _ = True"

fun to_double :: "obj \<Rightarrow> dbl val_result" where
  "to_double (IntValue i) = Inr (dbl_of_int i)"
| "to_double (DoubleValue d) = Inr d"
| "to_double (ObjectValue _ _ _) = Inl Abort"
| "to_double x = throw_type '''' x '' cannot support to convert double value.''"

text \<open>The string of the \<open>StrValue\<close> that \<open>to_s\<close> returns.\<close>

definition range_end :: "heap \<Rightarrow> ptr \<Rightarrow> i32 val_result" where
  "range_end h p = bnd (deref h p) (\<lambda>x. case x of IntValue i \<Rightarrow> Inr i | _ \<Rightarrow> Inl Undefined)"

fun to_s :: "heap \<Rightarrow> obj \<Rightarrow> string val_result" where
  "to_s h (StrValue s) = Inr s"
| "to_s h (BytesValue s) = Inr s"
| "to_s h (IntValue i) = Inr (show_i32 i)"
| "to_s h (DoubleValue d) = Inr (show_dbl d)"
| "to_s h (BoolValue b) = Inr (if b then ''true'' else ''false'')"
| "to_s h UndefValue = Inr ''undef''"
| "to_s h (ExceptionValue _ _ m) = Inr m"
| "to_s h (RangeValue l r) = bnd (range_end h l) (\<lambda>i. bnd (range_end h r) (\<lambda>j.
     Inr (show_i32 i @ ''..'' @ show_i32 j)))"
| "to_s h x = throw_type '''' x '' don't support stringification.''"

text \<open>
  \<open>to_int\<close> of a tuple of one element is that of the element. The first argument bounds the
  nesting: a chain longer than the heap would be a cycle, on which the C++ recursion
  overflows its stack. \<open>strtol\<close> does not report a string without digits, so the branches for
  \<open>EINVAL\<close> and other values of \<open>errno\<close> are never reached; \<open>ERANGE\<close> aborts.
\<close>

fun to_int_upto :: "nat \<Rightarrow> heap \<Rightarrow> obj \<Rightarrow> i32 val_result" where
  "to_int_upto n h (IntValue i) = Inr i"
| "to_int_upto n h (DoubleValue d) = (case dbl_to_int d of Some i \<Rightarrow> Inr i | None \<Rightarrow> Inl Undefined)"
| "to_int_upto n h (TupleValue ps) =
     (if length ps = 1 then
        (case n of 0 \<Rightarrow> Inl Undefined
         | Suc m \<Rightarrow> bnd (deref h (hd ps)) (to_int_upto m h))
      else throw_fmt ''Cannot coerce tuple to integer'')"
| "to_int_upto n h (StrValue s) = (case strtol s of Some i \<Rightarrow> Inr (word_of_int i) | None \<Rightarrow> Inl Abort)"
| "to_int_upto n h (SymbolValue _) = Inl Abort"
| "to_int_upto n h x = throw_type ''to_int is not supported yet in '' x ''\<newline>''"

definition to_int :: "heap \<Rightarrow> obj \<Rightarrow> i32 val_result" where
  "to_int h x = to_int_upto (length h) h x"

text \<open>The conversions applied to a pointer.\<close>

definition to_s_at :: "heap \<Rightarrow> ptr \<Rightarrow> string val_result" where
  "to_s_at h p = bnd (deref h p) (to_s h)"

definition to_int_at :: "heap \<Rightarrow> ptr \<Rightarrow> i32 val_result" where
  "to_int_at h p = bnd (deref h p) (to_int h)"

definition to_double_at :: "heap \<Rightarrow> ptr \<Rightarrow> dbl val_result" where
  "to_double_at h p = bnd (deref h p) to_double"

definition to_bool_at :: "heap \<Rightarrow> ptr \<Rightarrow> bool val_result" where
  "to_bool_at h p = bnd (deref h p) (\<lambda>x. Inr (to_bool x))"

end
