(* ===== verification/Tora_Container.thy ===== *)
theory Tora_Container
  imports Tora_Value
begin

text \<open>
  Arrays (\<open>tora/value/array.h\<close>, \<open>tora/value/array.cc\<close>, \<open>tora/object/array.cc\<close>) and hashes
  (\<open>tora/value/hash.h\<close>, \<open>tora/object/hash.cc\<close>). A deque of shared pointers is a list of
  pointers, a hash an association list sorted by key. Indices are 32-bit \<open>int\<close>s.
\<close>

subsection \<open>Vectors of pointers\<close>

text \<open>\<open>(int)v.size()\<close>\<close>

definition int_size :: "'a list \<Rightarrow> int" where
  "int_size xs = sint (of_nat (length xs) :: i32)"

lemma int_size_small: "length xs < 2 ^ 31 \<Longrightarrow> int_size xs = int (length xs)"
  unfolding int_size_def by (simp add: signed_of_nat signed_take_bit_int_eq_self)

text \<open>
  \<open>v.insert(v.begin()+i, x)\<close>, \<open>v.erase(v.begin()+i)\<close>: an iterator outside the vector is
  undefined. \<open>v.at(i)\<close> throws, also for a negative \<open>i\<close>, which becomes a huge \<open>size_t\<close>.
\<close>

definition vec_insert :: "int \<Rightarrow> 'a \<Rightarrow> 'a list \<Rightarrow> ('x, 'a list) result" where
  "vec_insert i x xs = (if 0 \<le> i \<and> i \<le> int (length xs)
     then Inr (take (nat i) xs @ x # drop (nat i) xs) else Inl Undefined)"

definition vec_erase :: "int \<Rightarrow> 'a list \<Rightarrow> ('x, 'a list) result" where
  "vec_erase i xs = (if 0 \<le> i \<and> i < int (length xs)
     then Inr (take (nat i) xs @ drop (Suc (nat i)) xs) else Inl Undefined)"

definition vec_at :: "int \<Rightarrow> 'a list \<Rightarrow> ('x, 'a) result" where
  "vec_at i xs = (if 0 \<le> i \<and> i < int (length xs) then Inr (xs ! nat i) else Inl Std_exception)"

text \<open>Appends \<open>n\<close> new undefined values.\<close>

fun push_undefs :: "nat \<Rightarrow> heap \<Rightarrow> ptr list \<Rightarrow> heap \<times> ptr list" where
  "push_undefs 0 h xs = (h, xs)"
| "push_undefs (Suc n) h xs =
     (let (h', a) = alloc UndefValue h in push_undefs n h' (xs @ [Some a]))"

subsection \<open>Arrays (tora/value/array.cc)\<close>

text \<open>\<open>None\<close> is a new undefined value.\<close>

definition array_get_item :: "ptr list \<Rightarrow> i32 \<Rightarrow> ptr option val_result" where
  "array_get_item xs i =
     (if sint i \<ge> int_size xs then Inr None
      else bnd (vec_at (sint i) xs) (\<lambda>p. Inr (Some p)))"

definition array_set_item :: "heap \<Rightarrow> ptr list \<Rightarrow> i32 \<Rightarrow> ptr \<Rightarrow> (heap \<times> ptr list) val_result" where
  "array_set_item h xs i v =
     (if int_size xs - 1 < sint i then
        let (h', xs') = push_undefs (nat (sint i - int_size xs)) h xs
        in bnd (vec_insert (sint i) v xs') (\<lambda>ys. Inr (h', ys))
      else bnd (vec_erase (sint i) xs) (\<lambda>ys. bnd (vec_insert (sint i) v ys) (\<lambda>zs. Inr (h, zs))))"

definition array_reverse :: "ptr list \<Rightarrow> ptr list" where
  "array_reverse xs = rev xs"

text \<open>
  \<open>std::sort\<close> leaves the order of elements with equal keys open; the model takes the stable
  one. The comparison throws what \<open>to_s\<close> of an element throws (of the first such element).
\<close>

fun map_to_s :: "heap \<Rightarrow> ptr list \<Rightarrow> string list val_result" where
  "map_to_s h [] = Inr []"
| "map_to_s h (p # ps) = bnd (to_s_at h p) (\<lambda>s. bnd (map_to_s h ps) (\<lambda>ss. Inr (s # ss)))"

definition array_sort :: "heap \<Rightarrow> ptr list \<Rightarrow> ptr list val_result" where
  "array_sort h xs =
     (if length xs < 2 then Inr xs
      else bnd (map_to_s h xs) (\<lambda>ss. Inr (map snd (sort_key fst (zip ss xs)))))"

subsection \<open>Methods of the class Array (tora/object/array.cc)\<close>

definition as_array :: "heap \<Rightarrow> ptr \<Rightarrow> ptr list val_result" where
  "as_array h p = bnd (deref h p) (\<lambda>x. case x of ArrayValue xs \<Rightarrow> Inr xs | _ \<Rightarrow> Inl Undefined)"

text \<open>A method returns the new heap and the address of its result.\<close>

definition ret_new :: "obj \<Rightarrow> heap \<Rightarrow> (heap \<times> ptr) val_result" where
  "ret_new x h = (let (h', a) = alloc x h in Inr (h', Some a))"

definition av_size :: "heap \<Rightarrow> ptr \<Rightarrow> (heap \<times> ptr) val_result" where
  "av_size h self = bnd (as_array h self) (\<lambda>xs. ret_new (IntValue (of_nat (length xs))) h)"

definition av_sort :: "heap \<Rightarrow> ptr \<Rightarrow> (heap \<times> ptr) val_result" where
  "av_sort h self = bnd (deref h self) (\<lambda>x. case x of
       ArrayValue xs \<Rightarrow> bnd (array_sort h xs) (\<lambda>ys. ret_new (ArrayValue ys) h)
     | _ \<Rightarrow> Inl Abort)"

definition av_push :: "heap \<Rightarrow> ptr \<Rightarrow> ptr \<Rightarrow> (heap \<times> ptr) val_result" where
  "av_push h self v = bnd (as_array h self) (\<lambda>xs.
     bnd (array_set_item h xs (of_nat (length xs) - 1 + 1) v) (\<lambda>(h', ys).
     Inr (store self (ArrayValue ys) h', self)))"

text \<open>\<open>back()\<close> of an empty deque is undefined.\<close>

definition av_pop :: "heap \<Rightarrow> ptr \<Rightarrow> (heap \<times> ptr) val_result" where
  "av_pop h self = bnd (as_array h self) (\<lambda>xs.
     if xs = [] then Inl Undefined else Inr (store self (ArrayValue (butlast xs)) h, last xs))"

definition av_unshift :: "heap \<Rightarrow> ptr \<Rightarrow> ptr \<Rightarrow> (heap \<times> ptr) val_result" where
  "av_unshift h self v = bnd (as_array h self) (\<lambda>xs.
     ret_new UndefValue (store self (ArrayValue (v # xs)) h))"

definition av_shift :: "heap \<Rightarrow> ptr \<Rightarrow> (heap \<times> ptr) val_result" where
  "av_shift h self = bnd (as_array h self) (\<lambda>xs.
     case xs of y # ys \<Rightarrow> Inr (store self (ArrayValue ys) h, y)
     | [] \<Rightarrow> ret_new UndefValue h)"

definition av_reverse :: "heap \<Rightarrow> ptr \<Rightarrow> (heap \<times> ptr) val_result" where
  "av_reverse h self = bnd (as_array h self) (\<lambda>xs. ret_new (ArrayValue (rev xs)) h)"

fun join_strings :: "string \<Rightarrow> string list \<Rightarrow> string" where
  "join_strings sep [] = ''''"
| "join_strings sep [s] = s"
| "join_strings sep (s # t # ss) = s @ sep @ join_strings sep (t # ss)"

definition av_join :: "heap \<Rightarrow> ptr \<Rightarrow> ptr \<Rightarrow> (heap \<times> ptr) val_result" where
  "av_join h self inner = bnd (deref h self) (\<lambda>x. case x of
       ArrayValue xs \<Rightarrow> bnd (to_s_at h inner) (\<lambda>sep. bnd (map_to_s h xs) (\<lambda>ss.
         ret_new (StrValue (join_strings sep ss)) h))
     | _ \<Rightarrow> Inl Abort)"

subsection \<open>Hashes (tora/value/hash.h)\<close>

type_synonym hash = "(string \<times> ptr) list"

text \<open>\<open>operator[]\<close> inserts a null pointer for a key that is absent.\<close>

definition hash_get :: "string \<Rightarrow> hash \<Rightarrow> hash \<times> ptr" where
  "hash_get k m = (case map_of m k of Some p \<Rightarrow> (m, p) | None \<Rightarrow> (map_set k None m, None))"

definition hash_set :: "string \<Rightarrow> ptr \<Rightarrow> hash \<Rightarrow> hash" where
  "hash_set k v m = map_set k v m"

definition hash_set_item :: "heap \<Rightarrow> hash \<Rightarrow> ptr \<Rightarrow> ptr \<Rightarrow> hash val_result" where
  "hash_set_item h m index v = bnd (to_s_at h index) (\<lambda>k. Inr (hash_set k v m))"

definition hash_get_item :: "heap \<Rightarrow> hash \<Rightarrow> ptr \<Rightarrow> (hash \<times> ptr) val_result" where
  "hash_get_item h m index = bnd (to_s_at h index) (\<lambda>k. Inr (hash_get k m))"

definition hash_has_key :: "string \<Rightarrow> hash \<Rightarrow> bool" where
  "hash_has_key k m = (map_of m k \<noteq> None)"

definition hash_delete_key :: "string \<Rightarrow> hash \<Rightarrow> hash" where
  "hash_delete_key k m = (if map_of m k \<noteq> None then map_erase k m else m)"

text \<open>Iterators: \<open>begin\<close>, and the key after \<open>k\<close> in the order of the map.\<close>

definition hash_begin :: "hash \<Rightarrow> string option" where
  "hash_begin m = (case m of [] \<Rightarrow> None | (k, _) # _ \<Rightarrow> Some k)"

definition hash_next :: "string \<Rightarrow> hash \<Rightarrow> string option" where
  "hash_next k m = hash_begin (dropWhile (\<lambda>(k', _). k' \<le> k) m)"

subsection \<open>Methods of the class Hash (tora/object/hash.cc)\<close>

definition as_hash :: "heap \<Rightarrow> ptr \<Rightarrow> hash val_result" where
  "as_hash h p = bnd (deref h p) (\<lambda>x. case x of HashValue m \<Rightarrow> Inr m | _ \<Rightarrow> Inl Abort)"

fun push_strs :: "string list \<Rightarrow> heap \<Rightarrow> ptr list \<Rightarrow> heap \<times> ptr list" where
  "push_strs [] h xs = (h, xs)"
| "push_strs (s # ss) h xs = (let (h', a) = alloc (StrValue s) h in push_strs ss h' (xs @ [Some a]))"

definition Hash_keys :: "heap \<Rightarrow> ptr \<Rightarrow> (heap \<times> ptr) val_result" where
  "Hash_keys h self = bnd (as_hash h self) (\<lambda>m.
     let (h', xs) = push_strs (map fst m) h [] in ret_new (ArrayValue xs) h')"

definition Hash_values :: "heap \<Rightarrow> ptr \<Rightarrow> (heap \<times> ptr) val_result" where
  "Hash_values h self = bnd (as_hash h self) (\<lambda>m. ret_new (ArrayValue (map snd m)) h)"

definition Hash_delete :: "heap \<Rightarrow> ptr \<Rightarrow> ptr \<Rightarrow> (heap \<times> ptr) val_result" where
  "Hash_delete h self key = bnd (as_hash h self) (\<lambda>m. bnd (to_s_at h key) (\<lambda>k.
     ret_new UndefValue (store self (HashValue (hash_delete_key k m)) h)))"

definition Hash_exists :: "heap \<Rightarrow> ptr \<Rightarrow> ptr \<Rightarrow> (heap \<times> ptr) val_result" where
  "Hash_exists h self key = bnd (as_hash h self) (\<lambda>m. bnd (to_s_at h key) (\<lambda>k.
     ret_new (BoolValue (hash_has_key k m)) h))"

subsection \<open>Growing assignment\<close>

lemma sint_eq_iff: "sint a = sint b \<longleftrightarrow> a = (b :: i32)"
  by (rule word_eq_iff_signed [symmetric])

lemma push_undefs_eq:
  "push_undefs n h xs = (h @ replicate n UndefValue, xs @ map Some [length h..<length h + n])"
proof (induction n arbitrary: h xs)
  case (Suc n)
  have "[length h..<length h + Suc n] = length h # [Suc (length h)..<Suc (length h) + n]"
    by (simp add: upt_rec)
  then show ?case by (simp add: Suc alloc_def replicate_app_Cons_same)
qed simp

text \<open>What an assignment at index \<open>m\<close> makes of a vector.\<close>

definition grown :: "heap \<Rightarrow> ptr list \<Rightarrow> nat \<Rightarrow> ptr \<Rightarrow> ptr list" where
  "grown h xs m v = (if m < length xs then xs[m := v]
     else xs @ map Some [length h..<length h + (m - length xs)] @ [v])"

lemma length_grown: "length (grown h xs m v) = max (length xs) (Suc m)"
  by (auto simp: grown_def)

lemma vec_replace:
  assumes "m < length (xs :: 'a list)"
  shows "bnd (vec_erase (int m) xs) (vec_insert (int m) v) = Inr (xs[m := v])"
  using assms by (simp add: vec_erase_def vec_insert_def upd_conv_take_nth_drop min_def)

lemma array_set_item_eq:
  assumes "0 \<le> sint i" "length xs < 2 ^ 31"
  shows "array_set_item h xs i v =
    Inr (h @ replicate (nat (sint i) - length xs) UndefValue, grown h xs (nat (sint i)) v)"
proof -
  obtain m where m: "sint i = int m" using assms(1) by (metis nonneg_int_cases)
  show ?thesis
  proof (cases "m < length xs")
    case True
    then have "bnd (vec_erase (int m) xs) (\<lambda>ys. bnd (vec_insert (int m) v ys) (\<lambda>zs. Inr (h, zs))) =
        (Inr (h, xs[m := v]) :: (heap \<times> ptr list) val_result)"
      by (simp add: vec_replace flip: bnd_assoc)
    with True m assms(2) show ?thesis
      by (simp add: array_set_item_def int_size_small grown_def)
  next
    case False
    with m assms(2) show ?thesis
      by (simp add: array_set_item_def int_size_small grown_def push_undefs_eq vec_insert_def
          flip: of_nat_diff)
  qed
qed

text \<open>What a program sees at an index: the object a read returns.\<close>

definition observe :: "heap \<Rightarrow> ptr option val_result \<Rightarrow> obj val_result" where
  "observe h r = bnd r (\<lambda>q. case q of None \<Rightarrow> Inr UndefValue | Some p \<Rightarrow> deref h p)"

definition live :: "heap \<Rightarrow> ptr list \<Rightarrow> bool" where
  "live h xs = (\<forall>p \<in> set xs. \<exists>a < length h. p = Some a)"

lemma deref_live:
  assumes "live h xs" "p \<in> set xs"
  shows "deref (h @ us) p = deref h p"
proof -
  obtain a where "p = Some a" "a < length h" using assms by (auto simp: live_def)
  then show ?thesis by (simp add: nth_append)
qed

lemma deref_fresh_undef: "length h \<le> a \<Longrightarrow> a < length h + n \<Longrightarrow>
    deref (h @ replicate n UndefValue) (Some a) = Inr UndefValue"
  by (simp add: nth_append)

lemma live_iff: "live h xs \<longleftrightarrow> set xs \<subseteq> Some ` {..<length h}"
  by (auto simp: live_def)

lemma live_grown:
  assumes "live h xs" "deref h v = Inr x"
  shows "live (h @ replicate (m - length xs) UndefValue) (grown h xs m v)"
proof -
  let ?n = "m - length xs"
  have v: "v \<in> Some ` {..<length h}" using assms(2) by (auto elim: deref_InrE)
  have "p \<in> Some ` {..<length h + ?n}" if "p \<in> set (grown h xs m v)" for p
  proof -
    have "p \<in> insert v (set xs \<union> Some ` {length h..<length h + ?n})"
      using that set_update_subset_insert [of xs m v] by (auto simp: grown_def split: if_splits)
    then show ?thesis using v assms(1) unfolding live_iff by auto
  qed
  then show ?thesis unfolding live_iff by auto
qed

lemma nth_grown:
  "j < length (grown h xs m v) \<Longrightarrow> grown h xs m v ! j =
     (if j = m then v else if j < length xs then xs ! j else Some (length h + (j - length xs)))"
  by (auto simp: grown_def nth_append nth_list_update)

subsection \<open>Vectors that grow, as an interface\<close>

text \<open>
  Arrays and pads promise the same to their clients: an assignment at an index that is not
  negative succeeds, a read returns the last value assigned there, other indices keep what
  they showed, and an index never assigned shows undef.
\<close>

locale growing_vector =
  fixes get :: "ptr list \<Rightarrow> i32 \<Rightarrow> ptr option val_result"
    and put :: "heap \<Rightarrow> ptr list \<Rightarrow> i32 \<Rightarrow> ptr \<Rightarrow> (heap \<times> ptr list) val_result"
  assumes put_eq: "\<lbrakk>0 \<le> sint i; length xs < 2 ^ 31; deref h v = Inr x\<rbrakk> \<Longrightarrow> put h xs i v =
      Inr (h @ replicate (nat (sint i) - length xs) UndefValue, grown h xs (nat (sint i)) v)"
    and get_inside: "\<lbrakk>0 \<le> sint j; nat (sint j) < length xs; length xs < 2 ^ 31\<rbrakk> \<Longrightarrow>
      get xs j = Inr (Some (xs ! nat (sint j)))"
    and get_outside: "\<lbrakk>0 \<le> sint j; length xs \<le> nat (sint j); length xs < 2 ^ 31\<rbrakk> \<Longrightarrow>
      get xs j = Inr None"
begin

lemma get_put:
  assumes i: "0 \<le> sint i" "sint i + 1 < 2 ^ 31" and j: "0 \<le> sint j"
    and xs: "length xs < 2 ^ 31" "live h xs" and v: "deref h v = Inr x"
    and p: "put h xs i v = Inr (h', xs')"
  shows "observe h' (get xs' j) = (if j = i then Inr x else observe h (get xs j))"
proof -
  define m n where "m = nat (sint i)" and "n = nat (sint j)"
  have h': "h' = h @ replicate (m - length xs) UndefValue" and xs': "xs' = grown h xs m v"
    using p put_eq [OF i(1) xs(1) v] by (simp_all add: m_def)
  have len: "length xs' = max (length xs) (Suc m)" by (simp add: xs' length_grown)
  then have small: "length xs' < 2 ^ 31" using i xs(1) by (simp add: m_def)
  have "n = m \<longleftrightarrow> sint j = sint i" using i(1) j by (auto simp: m_def n_def)
  then have ij: "j = i \<longleftrightarrow> n = m" by (simp add: sint_eq_iff)
  show ?thesis
  proof (cases "n < length xs'")
    case True
    then have g: "get xs' j = Inr (Some (xs' ! n))"
      using get_inside [OF j] small by (simp add: n_def)
    show ?thesis
    proof (cases "n < length xs \<or> n = m")
      case in_range: True
      have "observe h (get xs j) = deref h (xs ! n)" if "n < length xs"
        using get_inside [OF j] that xs(1) by (simp add: n_def observe_def)
      moreover have "deref (h @ us) (xs ! n) = deref h (xs ! n)" if "n < length xs" for us
        by (rule deref_live [OF xs(2) nth_mem [OF that]])
      ultimately show ?thesis using True in_range g ij deref_append [OF v]
        by (auto simp: observe_def xs' h' nth_grown)
    next
      case False
      then have "xs' ! n = Some (length h + (n - length xs))" and "n < m"
        using True len by (auto simp: xs' nth_grown)
      moreover have "get xs j = Inr None"
        using get_outside [OF j] False xs(1) by (simp add: n_def)
      moreover have "deref h' (Some (length h + (n - length xs))) = Inr UndefValue"
        using \<open>n < m\<close> False unfolding h' by (intro deref_fresh_undef) auto
      ultimately show ?thesis using g ij False by (simp add: observe_def)
    qed
  next
    case False
    then have n: "length xs' \<le> n" "length xs \<le> n" "n \<noteq> m" using len by auto
    have "get xs' j = Inr None" "get xs j = Inr None"
      by (rule get_outside [OF j]; use n small xs(1) in \<open>simp add: n_def\<close>)+
    then show ?thesis using ij n(3) by (simp add: observe_def)
  qed
qed

lemma put_live:
  assumes "0 \<le> sint i" "length xs < 2 ^ 31" "live h xs" "deref h v = Inr x"
    "put h xs i v = Inr (h', xs')"
  shows "live h' xs'"
  using live_grown [OF assms(3,4)] put_eq [OF assms(1,2,4)] assms(5) by auto

end

lemma array_get_inside: "\<lbrakk>0 \<le> sint j; nat (sint j) < length xs; length xs < 2 ^ 31\<rbrakk> \<Longrightarrow>
    array_get_item xs j = Inr (Some (xs ! nat (sint j)))"
  by (simp add: array_get_item_def int_size_small vec_at_def)

lemma array_get_outside: "\<lbrakk>0 \<le> sint j; length xs \<le> nat (sint j); length xs < 2 ^ 31\<rbrakk> \<Longrightarrow>
    array_get_item xs j = Inr None"
  by (simp add: array_get_item_def int_size_small le_nat_iff)

interpretation arr: growing_vector array_get_item array_set_item
  by unfold_locales (simp_all add: array_set_item_eq array_get_inside array_get_outside)

end
