(* ===== verification/Tora_Container_Props.thy ===== *)
theory Tora_Container_Props
  imports Tora_Container Tora_Op "HOL-Library.Multiset"
begin

text \<open>
  Properties of arrays, hashes, conversions and packed operands.
\<close>

subsection \<open>Arrays\<close>

text \<open>C28. An assignment to an array at an index that is not negative succeeds, growing the array
  with undefs where the index is beyond its end; a read at the same index then shows the assigned
  value, and a read at any other index shows what it showed before.\<close>
theorem array_assign_read:
  assumes "0 \<le> sint i" "sint i + 1 < 2 ^ 31" "0 \<le> sint j" "length xs < 2 ^ 31" "live h xs" "deref h v = Inr x"
  shows "\<exists>h' ys. array_set_item h xs i v = Inr (h', ys) \<and> length ys = max (length xs) (nat (sint i) + 1) \<and>
    live h' ys \<and> observe h' (array_get_item ys j) = (if j = i then Inr x else observe h (array_get_item xs j))"
proof -
  obtain h' ys where p: "array_set_item h xs i v = Inr (h', ys)" "ys = grown h xs (nat (sint i)) v"
    using arr.put_eq [OF assms(1,4,6)] by auto
  from arr.get_put [OF assms p(1)] arr.put_live [OF assms(1,4,5,6) p(1)] p
  show ?thesis by (simp add: length_grown)
qed

theorem array_assign_read_witness:
  "\<exists>h' ys. array_set_item [IntValue 7, UndefValue] [Some 1] 3 (Some 0) = Inr (h', ys) \<and> length ys = 4 \<and>
    observe h' (array_get_item ys 3) = Inr (IntValue 7)"
  using array_assign_read [of 3 3 "[Some 1]" "[IntValue 7, UndefValue]" "Some 0" "IntValue 7"]
  by (force simp: live_def)

text \<open>A negative index is never caught: reading throws \<open>std::out_of_range\<close>, which the
  interpreter does not handle, and assigning erases at an iterator before the beginning, which is
  undefined behaviour.\<close>
theorem array_negative_index:
  assumes "sint i < 0" "length xs < 2 ^ 31"
  shows "array_get_item xs i = Inl Std_exception \<and> array_set_item h xs i v = Inl Undefined"
  using assms by (simp add: array_get_item_def array_set_item_def int_size_small vec_at_def vec_erase_def)

theorem array_negative_index_witness:
  "array_get_item [Some 0] (-1) = Inl Std_exception \<and> array_set_item [UndefValue] [Some 0] (-1) None = Inl Undefined"
  using array_negative_index [of "-1" "[Some 0]" "[UndefValue]" None] by simp

lemma map_to_s_length: "map_to_s h ps = Inr ss \<Longrightarrow> length ss = length ps"
  by (induction h ps arbitrary: ss rule: map_to_s.induct) (auto simp: bnd_Inr_iff)

lemma map_to_s_zip: "map_to_s h ps = Inr ss \<Longrightarrow> (s, p) \<in> set (zip ss ps) \<Longrightarrow> to_s_at h p = Inr s"
  by (induction h ps arbitrary: ss rule: map_to_s.induct) (auto simp: bnd_Inr_iff)

lemma as_array_Inr: "as_array h p = Inr xs \<longleftrightarrow> deref h p = Inr (ArrayValue xs)"
proof (cases "deref h p")
  case (Inr x)
  then show ?thesis by (cases x) (simp_all add: as_array_def)
qed (simp add: as_array_def)

text \<open>C29. \<open>Array#sort\<close> returns a new array with the same elements, ordered by their string forms,
  and leaves the receiver as it was; it throws only if an element has no string form.\<close>
theorem sort_sorted_permutation:
  assumes "as_array h self = Inr xs" "av_sort h self = Inr (h', r)"
  shows "\<exists>ys. as_array h' r = Inr ys \<and> mset ys = mset xs \<and> as_array h' self = Inr xs \<and>
    (2 \<le> length xs \<longrightarrow> (\<exists>key. (\<forall>p \<in> set xs. to_s_at h p = Inr (key p)) \<and> sorted (map key ys)))"
proof -
  from assms obtain ys where y: "array_sort h xs = Inr ys" "h' = h @ [ArrayValue ys]" "r = Some (length h)"
    by (auto simp: as_array_Inr av_sort_def bnd_Inr_iff ret_new_def alloc_def)
  have self: "as_array h' self = Inr xs"
    using assms(1) y(2) by (simp add: as_array_Inr deref_append)
  show ?thesis
  proof (cases "length xs < 2")
    case True
    then show ?thesis using y self by (auto simp: array_sort_def as_array_Inr)
  next
    case False
    then obtain ss where ss: "map_to_s h xs = Inr ss" "ys = map snd (sort_key fst (zip ss xs))"
      using y(1) by (auto simp: array_sort_def bnd_Inr_iff)
    have l: "length ss = length xs" by (rule map_to_s_length [OF ss(1)])
    define key where "key = (\<lambda>p. case to_s_at h p of Inr s \<Rightarrow> s | Inl _ \<Rightarrow> [])"
    have k: "to_s_at h p = Inr s \<and> key p = s" if "(s, p) \<in> set (zip ss xs)" for s p
      using map_to_s_zip [OF ss(1) that] by (simp add: key_def)
    have "\<forall>p \<in> set xs. to_s_at h p = Inr (key p)"
      using k l by (metis in_set_impl_in_set_zip2)
    moreover have "map key ys = map fst (sort_key fst (zip ss xs))"
      unfolding ss(2) map_map comp_def by (rule map_cong [OF refl]) (use k in force)
    moreover have "mset ys = mset xs" unfolding ss(2) by (metis l mset_map mset_sort map_snd_zip)
    ultimately show ?thesis using y self by (auto simp: as_array_Inr intro!: exI [of _ key])
  qed
qed

theorem sort_sorted_permutation_witness:
  "\<exists>h' r ys. av_sort [ArrayValue [Some 1, Some 2], StrValue ''b'', StrValue ''a''] (Some 0) = Inr (h', r) \<and>
    as_array h' r = Inr ys \<and> mset ys = {#Some 1, Some 2#}"
proof -
  let ?h = "[ArrayValue [Some 1, Some 2], StrValue ''b'', StrValue ''a'']"
  have a: "as_array ?h (Some 0) = Inr [Some 1, Some 2]" by (simp add: as_array_def)
  have "\<exists>h' r. av_sort ?h (Some 0) = Inr (h', r)"
    by (simp add: av_sort_def array_sort_def to_s_at_def ret_new_def alloc_def)
  then obtain h' r where s: "av_sort ?h (Some 0) = Inr (h', r)" by blast
  from sort_sorted_permutation [OF a s] s show ?thesis by auto
qed

lemma as_array_store: "as_array h self = Inr xs \<Longrightarrow> as_array (store self (ArrayValue ys) h) self = Inr ys"
  by (auto simp: as_array_def bnd_Inr_iff store_def elim!: deref_InrE)

text \<open>\<open>push\<close> then \<open>pop\<close>, and \<open>unshift\<close> then \<open>shift\<close>, give back the value and leave the array
  as it was; on an empty array \<open>shift\<close> returns undef but \<open>pop\<close> is undefined behaviour.\<close>
theorem push_pop_round_trip:
  assumes "as_array h self = Inr xs" "length xs < 2 ^ 31 - 1"
  shows "(\<exists>h1 h2. av_push h self v = Inr (h1, self) \<and> av_pop h1 self = Inr (h2, v) \<and> as_array h2 self = Inr xs) \<and>
    (\<exists>h1 h2 u. av_unshift h self v = Inr (h1, u) \<and> av_shift h1 self = Inr (h2, v) \<and> as_array h2 self = Inr xs) \<and>
    (xs = [] \<longrightarrow> av_pop h self = Inl Undefined \<and> av_shift h self = Inr (h @ [UndefValue], Some (length h)))"
proof -
  have i: "sint (of_nat (length xs) :: i32) = int (length xs)"
    using assms(2) by (simp add: signed_of_nat signed_take_bit_int_eq_self)
  then have "array_set_item h xs (of_nat (length xs)) v = Inr (h, xs @ [v])"
    using array_set_item_eq [of "of_nat (length xs)" xs h v] assms(2) by (simp add: grown_def)
  then have p: "av_push h self v = Inr (store self (ArrayValue (xs @ [v])) h, self)"
    using assms(1) by (simp add: av_push_def)
  note s = as_array_store [OF assms(1)]
  have s2: "as_array (store self (ArrayValue (v # xs)) h @ [UndefValue]) self = Inr (v # xs)"
    using s [of "v # xs"] by (simp add: as_array_Inr deref_append)
  show ?thesis
    using p s [of "xs @ [v]"] as_array_store [OF s [of "xs @ [v]"], of xs] s2 as_array_store [OF s2, of xs] assms(1)
    by (auto simp: av_pop_def av_unshift_def av_shift_def ret_new_def alloc_def)
qed

theorem push_pop_round_trip_witness:
  "\<exists>h1 h2. av_push [ArrayValue []] (Some 0) (Some 5) = Inr (h1, Some 0) \<and> av_pop h1 (Some 0) = Inr (h2, Some 5)"
  using push_pop_round_trip [of "[ArrayValue []]" "Some 0" "[]" "Some 5"] by (auto simp: as_array_def)

subsection \<open>Hashes\<close>



text \<open>Reading a key that is absent creates it, with a null pointer as its value: the read returns
  null, and afterwards the key exists. No other key changes.\<close>
theorem hash_read_creates_key:
  assumes "\<not> hash_has_key k m"
  shows "snd (hash_get k m) = None \<and> hash_has_key k (fst (hash_get k m)) \<and>
    (\<forall>j. j \<noteq> k \<longrightarrow> map_of (fst (hash_get k m)) j = map_of m j)"
  using assms by (auto simp: hash_get_def hash_has_key_def)

theorem hash_read_creates_key_witness:
  "hash_has_key ''x'' (fst (hash_get ''x'' [])) \<and> \<not> hash_has_key ''x'' []"
  using hash_read_creates_key [of "''x''" "[]"] by (simp add: hash_has_key_def)

text \<open>The keys an iterator visits that stands at \<open>k\<close>.\<close>

fun visited :: "nat \<Rightarrow> string option \<Rightarrow> hash \<Rightarrow> string list" where
  "visited 0 k m = []"
| "visited (Suc n) None m = []"
| "visited (Suc n) (Some k) m = k # visited n (hash_next k m) m"

lemma dropWhile_sorted:
  assumes "map_wf (xs @ (k, v) # ys)"
  shows "dropWhile (\<lambda>(k', _). k' \<le> k) (xs @ (k, v) # ys) = ys"
proof -
  have "\<forall>x \<in> set (xs @ [(k, v)]). case x of (k', _) \<Rightarrow> k' \<le> k"
    using assms by (auto simp: sorted_wrt_append intro: less_imp_le)
  then have "dropWhile (\<lambda>(k', _). k' \<le> k) ((xs @ [(k, v)]) @ ys) = dropWhile (\<lambda>(k', _). k' \<le> k) ys"
    by (intro dropWhile_append2) (auto simp: case_prod_unfold)
  moreover have "dropWhile (\<lambda>(k', _). k' \<le> k) ys = ys"
  proof (cases ys)
    case (Cons y zs)
    then have "k < fst y" using assms by (simp add: sorted_wrt_append)
    then show ?thesis using Cons by (simp add: case_prod_unfold)
  qed simp
  ultimately show ?thesis by simp
qed

text \<open>Iterating over a hash that does not change visits every key exactly once, in increasing
  order, and then ends.\<close>
theorem hash_iteration:
  assumes "map_wf m" "length m \<le> n"
  shows "visited n (hash_begin m) m = map fst m \<and> sorted_wrt (<) (map fst m)"
proof -
  have "visited n (hash_begin ys) m = map fst ys" if "m = xs @ ys" "length ys \<le> n" for n xs ys
    using that
  proof (induction n arbitrary: xs ys)
    case 0
    then show ?case by simp
  next
    case (Suc n)
    show ?case
    proof (cases ys)
      case (Cons e zs)
      obtain k v where e: "e = (k, v)" by (cases e)
      have "hash_next k m = hash_begin zs"
        using dropWhile_sorted [of xs k v zs] assms(1) Suc.prems Cons e by (simp add: hash_next_def)
      moreover have "visited n (hash_begin zs) m = map fst zs"
        by (rule Suc.IH [of "xs @ [e]"]) (use Suc.prems Cons in simp_all)
      ultimately show ?thesis using Cons e by (simp add: hash_begin_def)
    qed (simp add: hash_begin_def)
  qed
  from this [of "[]" m n] assms show ?thesis by simp
qed

theorem hash_iteration_witness:
  "visited 9 (hash_begin [(''a'', None), (''b'', Some 1)]) [(''a'', None), (''b'', Some 1)] = [''a'', ''b'']"
  using hash_iteration [of "[(''a'', None), (''b'', Some 1)]" 9] by simp

subsection \<open>Conversions and packed operands\<close>

text \<open>The string of an integer value converts back to the same integer.\<close>
theorem int_string_round_trip:
  "\<exists>s. to_s h (IntValue i) = Inr s \<and> to_int h (StrValue s) = Inr i"
  by (simp add: to_int_def strtol_show_i32)

text \<open>The two 16-bit halves packed into the operand of an instruction come back unchanged as
  long as they fit; a level or index of 65536 or more silently loses its upper bits.\<close>
theorem packed_operand_round_trip:
  "int_operand_high (mk_op_high_low t a b) = Inr (a AND 0xffff) \<and>
   int_operand_low (mk_op_high_low t a b) = Inr (b AND 0xffff) \<and>
   (a < 2 ^ 16 \<and> b < 2 ^ 16 \<longrightarrow> int_operand_high (mk_op_high_low t a b) = Inr a \<and>
      int_operand_low (mk_op_high_low t a b) = Inr b) \<and>
   int_operand_high (mk_op_high_low t 0x10001 b) = Inr 1"
proof -
  have "(0x10001 :: i32) AND 0xffff = 1" by simp
  then show ?thesis
    by (auto simp: int_operand_high_def int_operand_low_def int_operand_def mk_op_high_low_def int_high_pack
        int_low_pack and_ffff_small)
qed

theorem packed_operand_round_trip_witness:
  "int_operand_high (mk_op_high_low OP_GETDYNAMIC 3 5) = Inr 3 \<and> int_operand_low (mk_op_high_low OP_GETDYNAMIC 3 5) = Inr 5"
proof -
  have "(3 :: i32) < 2 ^ 16 \<and> (5 :: i32) < 2 ^ 16" by simp
  with packed_operand_round_trip [of OP_GETDYNAMIC 3 5] show ?thesis by blast
qed

text \<open>A qualified name splits at its last \<open>::\<close>: joining the parts gives the name back, the
  second part contains no further \<open>::\<close>, and a name without one is not split.\<close>
theorem split_package_funname_last:
  "case split_package_funname v of
     Some (p, d) \<Rightarrow> v = p @ ''::'' @ d \<and> \<not> occurs ''::'' d
   | None \<Rightarrow> \<not> occurs ''::'' v"
proof (cases "split_package_funname v")
  case None
  then show ?thesis by (simp add: split_package_funname_def rfind_None split: option.splits)
next
  case (Some q)
  obtain p d where q: "q = (p, d)" by (cases q)
  obtain i where i: "rfind ''::'' v = Some i" "d = drop (Suc (Suc i)) v"
    using Some q by (auto simp: split_package_funname_def split: option.splits)
  have "\<not> occurs ''::'' (drop (Suc i) v)" by (rule rfind_last) (simp_all add: i)
  moreover have "occurs ''::'' (drop 1 w) \<Longrightarrow> occurs ''::'' w" for w
    by (cases w) (auto simp: occurs_Cons)
  ultimately have "\<not> occurs ''::'' d" unfolding i(2) by (metis drop_drop One_nat_def plus_1_eq_Suc)
  then show ?thesis using Some q split_package_funname_Some by simp
qed

end
