(* ===== verification/Tora_Operator.thy ===== *)
theory Tora_Operator
  imports Tora_Container
begin

text \<open>
  The operators of \<open>tora/operator.cc\<close>. An arithmetic operator reads its operands through
  their pointers and returns the object its \<open>new\<close> creates. \<open>pow\<close> of \<open>math.h\<close> is a parameter.
\<close>

subsection \<open>Arithmetic\<close>

definition throw_operand :: "heap \<Rightarrow> obj \<Rightarrow> string \<Rightarrow> obj val_result" where
  "throw_operand h x msg = bnd (to_s h x) (\<lambda>s. throw_fmt (CHR 0x27 # c_str s @ CHR 0x27 # msg))"

definition op_add :: "heap \<Rightarrow> ptr \<Rightarrow> ptr \<Rightarrow> obj val_result" where
  "op_add h lhs rhs = bnd (deref h lhs) (\<lambda>x. case x of
       IntValue i \<Rightarrow> bnd (deref h rhs) (\<lambda>y. case y of
         DoubleValue d \<Rightarrow> Inr (DoubleValue (dadd (dbl_of_int i) d))
       | _ \<Rightarrow> bnd (to_int h y) (\<lambda>j. Inr (IntValue (i + j))))
     | StrValue s \<Rightarrow> bnd (to_s_at h rhs) (\<lambda>t. Inr (StrValue (s @ t)))
     | BytesValue s \<Rightarrow> bnd (to_s_at h rhs) (\<lambda>t. Inr (BytesValue (s @ t)))
     | DoubleValue d \<Rightarrow> bnd (to_double_at h rhs) (\<lambda>e. Inr (DoubleValue (dadd d e)))
     | _ \<Rightarrow> throw_operand h x '' is not numeric or string.\<newline>'')"

definition op_sub :: "heap \<Rightarrow> ptr \<Rightarrow> ptr \<Rightarrow> obj val_result" where
  "op_sub h lhs rhs = bnd (deref h lhs) (\<lambda>x. case x of
       DoubleValue d \<Rightarrow> bnd (to_double_at h rhs) (\<lambda>e. Inr (DoubleValue (dsub d e)))
     | IntValue i \<Rightarrow> bnd (deref h rhs) (\<lambda>y. case y of
         DoubleValue d \<Rightarrow> Inr (DoubleValue (dsub (dbl_of_int i) d))
       | _ \<Rightarrow> bnd (to_int h y) (\<lambda>j. Inr (IntValue (i - j))))
     | _ \<Rightarrow> throw_operand h x '' is not numeric. You cannot subtract.'')"

text \<open>\<open>new IntValue(d)\<close> for a double: the conversion is undefined out of range.\<close>

definition int_of_dbl :: "dbl \<Rightarrow> obj val_result" where
  "int_of_dbl d = (case dbl_to_int d of Some i \<Rightarrow> Inr (IntValue i) | None \<Rightarrow> Inl Undefined)"

definition dbl_zero :: dbl where
  "dbl_zero = DFin False 0"

definition op_div :: "heap \<Rightarrow> ptr \<Rightarrow> ptr \<Rightarrow> obj val_result" where
  "op_div h lhs rhs = bnd (deref h lhs) (\<lambda>x. case x of
       DoubleValue d \<Rightarrow> bnd (to_double_at h rhs) (\<lambda>e.
         if deq e dbl_zero then Inl (Raise zero_divided_exception)
         else Inr (DoubleValue (ddiv d e)))
     | IntValue i \<Rightarrow> bnd (deref h rhs) (\<lambda>y. case y of
         DoubleValue e \<Rightarrow>
           if deq e dbl_zero then Inl (Raise zero_divided_exception)
           else Inr (DoubleValue (ddiv (dbl_of_int i) e))
       | _ \<Rightarrow> bnd (to_int h y) (\<lambda>j. let rhs_int = dbl_of_int j in
           if deq rhs_int dbl_zero then Inl (Raise zero_divided_exception)
           else int_of_dbl (ddiv (dbl_of_int i) rhs_int)))
     | _ \<Rightarrow> throw_operand h x '' is not numeric. You cannot divide.'')"

text \<open>
  For an \<open>int\<close> on the left and no \<open>double\<close> on the right, \<open>op_mul\<close> reads \<open>int_value\<close> without
  looking at the type: on any other value this reads an inactive member of the union.
\<close>

definition op_mul :: "heap \<Rightarrow> ptr \<Rightarrow> ptr \<Rightarrow> obj val_result" where
  "op_mul h lhs rhs = bnd (deref h lhs) (\<lambda>x. case x of
       DoubleValue d \<Rightarrow> bnd (to_double_at h rhs) (\<lambda>e. Inr (DoubleValue (dmul d e)))
     | IntValue i \<Rightarrow> bnd (deref h rhs) (\<lambda>y. case y of
         DoubleValue e \<Rightarrow> Inr (DoubleValue (dmul (dbl_of_int i) e))
       | IntValue j \<Rightarrow> Inr (IntValue (i * j))
       | _ \<Rightarrow> Inl Undefined)
     | StrValue s \<Rightarrow> bnd (to_int_at h rhs) (\<lambda>n.
         Inr (StrValue (concat (replicate (nat (sint n)) s))))
     | _ \<Rightarrow> throw_operand h x '' is not numeric. You cannot multiply.'')"

definition op_pow :: "(dbl \<Rightarrow> dbl \<Rightarrow> dbl) \<Rightarrow> heap \<Rightarrow> ptr \<Rightarrow> ptr \<Rightarrow> obj val_result" where
  "op_pow pow h lhs rhs = bnd (deref h lhs) (\<lambda>x. case x of
       DoubleValue d \<Rightarrow> bnd (to_double_at h rhs) (\<lambda>e. Inr (DoubleValue (pow d e)))
     | IntValue i \<Rightarrow> bnd (deref h rhs) (\<lambda>y. case y of
         DoubleValue e \<Rightarrow> Inr (DoubleValue (pow (dbl_of_int i) e))
       | _ \<Rightarrow> bnd (to_double y) (\<lambda>e. int_of_dbl (pow (dbl_of_int i) e)))
     | _ \<Rightarrow> throw_operand h x '' is not numeric. You cannot pow.'')"

subsection \<open>Bits\<close>

definition int_operator ::
    "(i32 \<Rightarrow> i32 \<Rightarrow> obj val_result) \<Rightarrow> string \<Rightarrow> heap \<Rightarrow> ptr \<Rightarrow> ptr \<Rightarrow> obj val_result" where
  "int_operator f msg h lhs rhs = bnd (deref h lhs) (\<lambda>x. case x of
       IntValue i \<Rightarrow> bnd (to_int_at h rhs) (\<lambda>j. f i j)
     | _ \<Rightarrow> throw_operand h x msg)"

definition op_bitand :: "heap \<Rightarrow> ptr \<Rightarrow> ptr \<Rightarrow> obj val_result" where
  "op_bitand = int_operator (\<lambda>i j. Inr (IntValue (i AND j))) '' is not integer. You cannot and.''"

definition op_bitor :: "heap \<Rightarrow> ptr \<Rightarrow> ptr \<Rightarrow> obj val_result" where
  "op_bitor = int_operator (\<lambda>i j. Inr (IntValue (i OR j))) '' is not integer. You cannot bit or.''"

definition op_bitxor :: "heap \<Rightarrow> ptr \<Rightarrow> ptr \<Rightarrow> obj val_result" where
  "op_bitxor = int_operator (\<lambda>i j. Inr (IntValue (i XOR j))) '' is not integer. You cannot xor.''"

text \<open>A shift by a negative amount or by 32 and more is undefined.\<close>

definition op_bitlshift :: "heap \<Rightarrow> ptr \<Rightarrow> ptr \<Rightarrow> obj val_result" where
  "op_bitlshift = int_operator
     (\<lambda>i j. if 0 \<le> sint j \<and> sint j < 32 then Inr (IntValue (push_bit (nat (sint j)) i)) else Inl Undefined)
     '' is not integer. You cannot <<.''"

definition op_bitrshift :: "heap \<Rightarrow> ptr \<Rightarrow> ptr \<Rightarrow> obj val_result" where
  "op_bitrshift = int_operator
     (\<lambda>i j. if 0 \<le> sint j \<and> sint j < 32 then Inr (IntValue (signed_drop_bit (nat (sint j)) i)) else Inl Undefined)
     '' is not integer. You cannot >>.''"

definition op_modulo :: "heap \<Rightarrow> ptr \<Rightarrow> ptr \<Rightarrow> obj val_result" where
  "op_modulo = int_operator
     (\<lambda>i j. let x = dbl_of_int i; y = dbl_of_int j
        in int_of_dbl (dsub x (dmul y (dfloor (ddiv x y)))))
     '' is not integer. You cannot >>.''"

definition op_unary_negative :: "heap \<Rightarrow> ptr \<Rightarrow> obj val_result" where
  "op_unary_negative h v = bnd (deref h v) (\<lambda>x. case x of
       IntValue i \<Rightarrow> Inr (IntValue (- i))
     | DoubleValue d \<Rightarrow> Inr (DoubleValue (dneg d))
     | ObjectValue _ _ _ \<Rightarrow> Inl Abort
     | _ \<Rightarrow> throw_type '''' x '' is not a numeric. You cannot apply unary negative operator.\<newline>'')"

subsection \<open>Items\<close>

text \<open>\<open>obj_get\<close> is \<open>ObjectValue::get_item\<close>, which calls back into the virtual machine.\<close>

definition op_get_item ::
    "(heap \<Rightarrow> ptr \<Rightarrow> ptr \<Rightarrow> (heap \<times> ptr) val_result) \<Rightarrow> heap \<Rightarrow> ptr \<Rightarrow> ptr \<Rightarrow> (heap \<times> ptr) val_result" where
  "op_get_item obj_get h container index = bnd (deref h container) (\<lambda>x. case x of
       HashValue m \<Rightarrow> bnd (hash_get_item h m index) (\<lambda>(m', p).
         Inr (store container (HashValue m') h, p))
     | ArrayValue xs \<Rightarrow> bnd (to_int_at h index) (\<lambda>i. bnd (array_get_item xs i) (\<lambda>q.
         case q of None \<Rightarrow> ret_new UndefValue h | Some p \<Rightarrow> Inr (h, p)))
     | ObjectValue _ _ _ \<Rightarrow> obj_get h container index
     | _ \<Rightarrow> throw_type '''' x '' is not a container.\<newline>'')"

text \<open>\<open>VM::set_item\<close> (tora/vm.cc); the value returned is undef unless an object answers.\<close>

definition vm_set_item ::
    "(heap \<Rightarrow> ptr \<Rightarrow> ptr \<Rightarrow> ptr \<Rightarrow> (heap \<times> ptr) val_result) \<Rightarrow>
     heap \<Rightarrow> ptr \<Rightarrow> ptr \<Rightarrow> ptr \<Rightarrow> (heap \<times> ptr) val_result" where
  "vm_set_item obj_set h container index rvalue = bnd (deref h container) (\<lambda>x. case x of
       ObjectValue _ _ _ \<Rightarrow> obj_set h container index rvalue
     | HashValue m \<Rightarrow> bnd (hash_set_item h m index rvalue) (\<lambda>m'.
         ret_new UndefValue (store container (HashValue m') h))
     | ArrayValue xs \<Rightarrow> bnd (to_int_at h index) (\<lambda>i. bnd (array_set_item h xs i rvalue) (\<lambda>(h', ys).
         ret_new UndefValue (store container (ArrayValue ys) h')))
     | _ \<Rightarrow> throw_type '''' x '' is not a container. You cannot store item.\<newline>'')"

subsection \<open>Comparison\<close>

text \<open>The function objects of \<open>functional\<close> that instantiate \<open>cmpop\<close>.\<close>

datatype comparison = Equal_to | Not_equal_to | Greater | Less | Greater_equal | Less_equal

fun operation_i :: "comparison \<Rightarrow> i32 \<Rightarrow> i32 \<Rightarrow> bool" where
  "operation_i Equal_to a b = (a = b)"
| "operation_i Not_equal_to a b = (a \<noteq> b)"
| "operation_i Greater a b = (sint a > sint b)"
| "operation_i Less a b = (sint a < sint b)"
| "operation_i Greater_equal a b = (sint a \<ge> sint b)"
| "operation_i Less_equal a b = (sint a \<le> sint b)"

fun operation_d :: "comparison \<Rightarrow> dbl \<Rightarrow> dbl \<Rightarrow> bool" where
  "operation_d Equal_to a b = deq a b"
| "operation_d Not_equal_to a b = (\<not> deq a b)"
| "operation_d Greater a b = dlt b a"
| "operation_d Less a b = dlt a b"
| "operation_d Greater_equal a b = dle b a"
| "operation_d Less_equal a b = dle a b"

fun operation_s :: "comparison \<Rightarrow> string \<Rightarrow> string \<Rightarrow> bool" where
  "operation_s Equal_to a b = (a = b)"
| "operation_s Not_equal_to a b = (a \<noteq> b)"
| "operation_s Greater a b = (a > b)"
| "operation_s Less a b = (a < b)"
| "operation_s Greater_equal a b = (a \<ge> b)"
| "operation_s Less_equal a b = (a \<le> b)"

definition is_symbol :: "obj \<Rightarrow> bool" where
  "is_symbol x = (case x of SymbolValue _ \<Rightarrow> True | _ \<Rightarrow> False)"

definition cmpop :: "comparison \<Rightarrow> heap \<Rightarrow> ptr \<Rightarrow> ptr \<Rightarrow> bool val_result" where
  "cmpop c h lhs rhs = bnd (deref h rhs) (\<lambda>y. if is_symbol y then Inl Abort else
     bnd (deref h lhs) (\<lambda>x. case x of
       IntValue i \<Rightarrow> bnd (to_int h y) (\<lambda>j. Inr (operation_i c i j))
     | StrValue s \<Rightarrow> bnd (to_s h y) (\<lambda>t. Inr (operation_s c s t))
     | BytesValue s \<Rightarrow> (case y of BytesValue t \<Rightarrow> Inr (operation_s c s t) | _ \<Rightarrow> Inr False)
     | DoubleValue d \<Rightarrow> (case y of
         IntValue j \<Rightarrow> Inr (operation_d c d (dbl_of_int j))
       | DoubleValue e \<Rightarrow> Inr (operation_d c d e)
       | _ \<Rightarrow> Inl Abort)
     | BoolValue b \<Rightarrow> Inr (b = to_bool y)
     | UndefValue \<Rightarrow> (case y of UndefValue \<Rightarrow> Inr True | _ \<Rightarrow> Inr False)
     | _ \<Rightarrow> bnd (type_str x) (\<lambda>t. Inl (Raise (exception_of_string
         (''UNKNOWN MATCHING PATTERN lhs = '' @ CHR 0x27 # t @ CHR 0x27 # ''\<newline>''))))))"

subsection \<open>Properties\<close>

lemma deq_dbl_of_int_zero [simp]: "deq (dbl_of_int j) dbl_zero \<longleftrightarrow> j = 0"
proof -
  have "(of_int (sint j) :: rat) = 0 \<longleftrightarrow> j = 0"
    by (metis of_int_eq_0_iff sint_nonzero)
  then show ?thesis using dval_dbl_of_int [of j] by (simp add: dbl_of_int_eq dbl_zero_def)
qed

lemma modulo_by_zero_nan: "dsub (DFin s m) (dmul (DFin False 0) (dfloor (ddiv (DFin s m) (DFin False 0)))) = DNaN"
  by (cases "m = 0") (simp_all add: dsub_def)

lemma modulo_zero_nan: "dsub (dbl_of_int a) (dmul (dbl_of_int 0) (dfloor (ddiv (dbl_of_int a) (dbl_of_int 0)))) = DNaN"
proof -
  have z: "dbl_of_int 0 = DFin False 0" by (subst dbl_of_int_eq) simp
  show ?thesis unfolding z unfolding dbl_of_int_eq [of a] by (rule modulo_by_zero_nan)
qed

text \<open>C31. Integer division goes through \<open>double\<close>; on two ints it is exactly the truncated
  quotient, for every divisor but 0 and for every dividend but the one whose quotient by -1
  does not fit.\<close>

theorem op_div_int:
  assumes "deref h lhs = Inr (IntValue a)" "deref h rhs = Inr (IntValue b)"
    and "b \<noteq> 0" "\<not> (sint a = - (2 ^ 31) \<and> sint b = - 1)"
  shows "op_div h lhs rhs = Inr (IntValue (word_of_int (sint a sdiv sint b)))"
  using assms(1-3) double_division_exact [OF assms(3,4)]
  by (simp add: op_div_def to_int_def int_of_dbl_def Let_def)

theorem op_div_int_witness:
  "op_div [IntValue (-7), IntValue 2] (Some 0) (Some 1) = Inr (IntValue (-3))"
proof -
  have "op_div [IntValue (-7), IntValue 2] (Some 0) (Some 1) =
      Inr (IntValue (word_of_int (sint (-7 :: i32) sdiv sint (2 :: i32))))"
    by (rule op_div_int) simp_all
  then show ?thesis by (simp add: signed_divide_int_def)
qed

text \<open>C32. The remainder of two ints, also computed in \<open>double\<close> as \<open>x-y*floor(x/y)\<close>, is the
  floored remainder: it has the sign of the divisor.\<close>

theorem op_modulo_int:
  assumes "deref h lhs = Inr (IntValue a)" "deref h rhs = Inr (IntValue b)" "b \<noteq> 0"
  shows "op_modulo h lhs rhs = Inr (IntValue (word_of_int (sint a mod sint b)))"
  using assms double_modulo_exact [OF assms(3)]
  by (simp add: op_modulo_def int_operator_def to_int_at_def to_int_def int_of_dbl_def Let_def)

theorem op_modulo_int_witness:
  "op_modulo [IntValue (-13), IntValue 4] (Some 0) (Some 1) = Inr (IntValue 3)"
proof -
  have "op_modulo [IntValue (-13), IntValue 4] (Some 0) (Some 1) =
      Inr (IntValue (word_of_int (sint (-13 :: i32) mod sint (4 :: i32))))"
    by (rule op_modulo_int) simp_all
  then show ?thesis by simp
qed

text \<open>Division by the integer zero throws the zero-division exception, whatever the left
  number, while the remainder by zero is undefined behaviour: \<open>op_modulo\<close> has no check.\<close>

theorem division_by_zero:
  assumes "deref h lhs = Inr (IntValue a)" "deref h rhs = Inr (IntValue 0)"
  shows "op_div h lhs rhs = Inl (Raise zero_divided_exception) \<and>
    op_modulo h lhs rhs = Inl Undefined"
  using assms modulo_zero_nan [of a]
  by (simp add: op_div_def op_modulo_def int_operator_def to_int_at_def to_int_def
      int_of_dbl_def Let_def)

theorem division_by_zero_witness:
  "op_div [IntValue 5, IntValue 0] (Some 0) (Some 1) = Inl (Raise zero_divided_exception) \<and>
   op_modulo [IntValue 5, IntValue 0] (Some 0) (Some 1) = Inl Undefined"
  by (rule division_by_zero) simp_all

text \<open>For a boolean or undef on the left, \<open>cmpop\<close> ignores which comparison it was asked
  for: every operator, \<open>!=\<close> and \<open><\<close> included, answers whether the operands are equal.\<close>

theorem cmpop_ignores_operation:
  assumes "deref h lhs = Inr x" "deref h rhs = Inr y" "\<not> is_symbol y"
    and "x = UndefValue \<or> (\<exists>b. x = BoolValue b)"
  shows "cmpop c h lhs rhs = cmpop Equal_to h lhs rhs \<and> cmpop c h lhs lhs = Inr True"
  using assms by (auto simp: cmpop_def is_symbol_def)

theorem cmpop_ignores_operation_witness:
  "cmpop Not_equal_to [BoolValue True, IntValue 3] (Some 0) (Some 1) = Inr True"
proof -
  have "cmpop Not_equal_to [BoolValue True, IntValue 3] (Some 0) (Some 1) =
      cmpop Equal_to [BoolValue True, IntValue 3] (Some 0) (Some 1)"
    by (rule cmpop_ignores_operation [where x = "BoolValue True" and y = "IntValue 3", THEN conjunct1]) (auto simp: is_symbol_def)
  then show ?thesis by (simp add: cmpop_def is_symbol_def)
qed

definition comparison_table :: "bool \<Rightarrow> bool \<Rightarrow> comparison \<Rightarrow> bool" where
  "comparison_table lt eq c = (case c of Equal_to \<Rightarrow> eq | Not_equal_to \<Rightarrow> \<not> eq
     | Less \<Rightarrow> lt | Greater \<Rightarrow> \<not> lt \<and> \<not> eq | Less_equal \<Rightarrow> lt \<or> eq
     | Greater_equal \<Rightarrow> \<not> lt)"

text \<open>On ints, and on strings, the six comparisons are those of one total order: exactly
  one of \<open><\<close>, \<open>==\<close>, \<open>>\<close> holds, and \<open>!=\<close>, \<open>>=\<close>, \<open><=\<close> are their complements.\<close>

theorem cmpop_total_order:
  assumes "deref h lhs = Inr x" "deref h rhs = Inr y"
    and "(\<exists>i j. x = IntValue i \<and> y = IntValue j) \<or> (\<exists>s t. x = StrValue s \<and> y = StrValue t)"
  shows "\<exists>lt eq. \<not> (lt \<and> eq) \<and>
    (\<forall>c. cmpop c h lhs rhs = Inr (comparison_table lt eq c))"
proof (use assms(3) in \<open>elim disjE exE conjE\<close>)
  fix i j assume xy: "x = IntValue i" "y = IntValue j"
  have "operation_i c i j = comparison_table (sint i < sint j) (i = j) c" for c
    using sint_eq_iff [of i j] by (cases c) (auto simp: comparison_table_def)
  then have "cmpop c h lhs rhs = Inr (comparison_table (sint i < sint j) (i = j) c)" for c
    using assms(1,2) xy by (simp add: cmpop_def is_symbol_def to_int_def)
  then show ?thesis by - (rule exI [of _ "sint i < sint j"], rule exI [of _ "i = j"], auto)
next
  fix s t assume xy: "x = StrValue s" "y = StrValue t"
  have "operation_s c s t = comparison_table (s < t) (s = t) c" for c
    by (cases c) (auto simp: comparison_table_def)
  then have "cmpop c h lhs rhs = Inr (comparison_table (s < t) (s = t) c)" for c
    using assms(1,2) xy by (simp add: cmpop_def is_symbol_def)
  then show ?thesis by - (rule exI [of _ "s < t"], rule exI [of _ "s = t"], auto)
qed

theorem cmpop_total_order_witness:
  "\<exists>lt eq. \<not> (lt \<and> eq) \<and> (\<forall>c. cmpop c [IntValue 1, IntValue (-2)] (Some 0) (Some 1) =
     Inr (comparison_table lt eq c))"
  by (rule cmpop_total_order [where x = "IntValue 1" and y = "IntValue (-2)"]) simp_all

end
