(* ===== verification/Tora_Symbol.thy ===== *)
theory Tora_Symbol
  imports Tora_Container
begin

text \<open>
  The symbol table (\<open>tora/symbol_table.h\<close>, \<open>tora/symbol_table.cc\<close>): names are interned as
  consecutive numbers. The constructor and the constants \<open>SYMBOL_*\<close> come from
  \<open>tora/symbols.gen.pl\<close>, which interns a fixed list of names in order.
\<close>

record symtab =
  counter :: int
  tbl :: "(string \<times> int) list"
  rev_tbl :: "(int \<times> string) list"

definition get_id :: "string \<Rightarrow> symtab \<Rightarrow> symtab \<times> ID" where
  "get_id s t = (case map_of (tbl t) s of
       Some i \<Rightarrow> (t, word_of_int i)
     | None \<Rightarrow> (let ret = counter t
         in (\<lparr>counter = ret + 1, tbl = map_set s ret (tbl t), rev_tbl = map_set ret s (rev_tbl t)\<rparr>,
             word_of_int ret)))"

text \<open>\<open>rev_tbl[id]\<close> inserts the empty name for a number that was never given out.\<close>

definition id2name :: "i32 \<Rightarrow> symtab \<Rightarrow> symtab \<times> string" where
  "id2name i t = (case map_of (rev_tbl t) (sint i) of
       Some s \<Rightarrow> (t, s)
     | None \<Rightarrow> (t\<lparr>rev_tbl := map_set (sint i) '''' (rev_tbl t)\<rparr>, ''''))"

text \<open>
  The names of \<open>tora/symbols.gen.pl\<close>. The first is a C string that begins with a zero byte,
  hence empty.
\<close>

definition builtin_symbols :: "string list" where
  "builtin_symbols = [
     '''', ''DESTROY'', ''Object'', ''Array'', ''Int'', ''Double'', ''Hash'', ''Caller'', ''Code'',
     ''File'', ''Str'', ''Symbol'', ''Bytes'', ''Regexp'', ''Boolean'', ''Range'', ''Pointer'',
     ''Exception'', ''Array::Iterator'', ''Range::Iterator'', ''Hash::Iterator'', ''Reference'',
     ''RE2::Regexp::Matched'', ''MetaClass'', ''Class'', ''Env'', ''Dir'', ''Dir::Iterator'',
     ''Time'', ''Internals'', ''DynaLoader'', ''FilePackage'', ''__getitem__'', ''__setitem__'']"

definition empty_symtab :: symtab where
  "empty_symtab = \<lparr>counter = 0, tbl = [], rev_tbl = []\<rparr>"

definition new_symtab :: symtab where
  "new_symtab = foldl (\<lambda>t s. fst (get_id s t)) empty_symtab builtin_symbols"

definition SYMBOL_DESTROY :: ID where "SYMBOL_DESTROY = 1"
definition SYMBOL_OBJECT_CLASS :: ID where "SYMBOL_OBJECT_CLASS = 2"
definition SYMBOL_ARRAY_CLASS :: ID where "SYMBOL_ARRAY_CLASS = 3"
definition SYMBOL_INT_CLASS :: ID where "SYMBOL_INT_CLASS = 4"
definition SYMBOL_DOUBLE_CLASS :: ID where "SYMBOL_DOUBLE_CLASS = 5"
definition SYMBOL_HASH_CLASS :: ID where "SYMBOL_HASH_CLASS = 6"
definition SYMBOL_CODE_CLASS :: ID where "SYMBOL_CODE_CLASS = 8"
definition SYMBOL_FILE_CLASS :: ID where "SYMBOL_FILE_CLASS = 9"
definition SYMBOL_STRING_CLASS :: ID where "SYMBOL_STRING_CLASS = 10"
definition SYMBOL_BYTES_CLASS :: ID where "SYMBOL_BYTES_CLASS = 12"
definition SYMBOL_REGEXP_CLASS :: ID where "SYMBOL_REGEXP_CLASS = 13"
definition SYMBOL_BOOLEAN_CLASS :: ID where "SYMBOL_BOOLEAN_CLASS = 14"
definition SYMBOL_RANGE_CLASS :: ID where "SYMBOL_RANGE_CLASS = 15"
definition SYMBOL_POINTER_CLASS :: ID where "SYMBOL_POINTER_CLASS = 16"
definition SYMBOL_EXCEPTION_CLASS :: ID where "SYMBOL_EXCEPTION_CLASS = 17"
definition SYMBOL_ARRAY_ITERATOR_CLASS :: ID where "SYMBOL_ARRAY_ITERATOR_CLASS = 18"
definition SYMBOL_RANGE_ITERATOR_CLASS :: ID where "SYMBOL_RANGE_ITERATOR_CLASS = 19"
definition SYMBOL_HASH_ITERATOR_CLASS :: ID where "SYMBOL_HASH_ITERATOR_CLASS = 20"
definition SYMBOL_REFERENCE_CLASS :: ID where "SYMBOL_REFERENCE_CLASS = 21"
definition SYMBOL_CLASS_CLASS :: ID where "SYMBOL_CLASS_CLASS = 24"
definition SYMBOL_FILEPACKAGE_CLASS :: ID where "SYMBOL_FILEPACKAGE_CLASS = 31"
definition SYMBOL_GET_ITEM :: ID where "SYMBOL_GET_ITEM = 32"
definition SYMBOL_SET_ITEM :: ID where "SYMBOL_SET_ITEM = 33"

lemmas symbol_defs = SYMBOL_DESTROY_def SYMBOL_OBJECT_CLASS_def SYMBOL_ARRAY_CLASS_def
  SYMBOL_INT_CLASS_def SYMBOL_DOUBLE_CLASS_def SYMBOL_HASH_CLASS_def SYMBOL_CODE_CLASS_def
  SYMBOL_FILE_CLASS_def SYMBOL_STRING_CLASS_def SYMBOL_BYTES_CLASS_def SYMBOL_REGEXP_CLASS_def
  SYMBOL_BOOLEAN_CLASS_def SYMBOL_RANGE_CLASS_def SYMBOL_POINTER_CLASS_def
  SYMBOL_EXCEPTION_CLASS_def SYMBOL_ARRAY_ITERATOR_CLASS_def SYMBOL_RANGE_ITERATOR_CLASS_def
  SYMBOL_HASH_ITERATOR_CLASS_def SYMBOL_REFERENCE_CLASS_def SYMBOL_CLASS_CLASS_def
  SYMBOL_FILEPACKAGE_CLASS_def SYMBOL_GET_ITEM_def SYMBOL_SET_ITEM_def

text \<open>\<open>Value::object_package_id\<close> (tora/value.cc).\<close>

fun object_package_id :: "heap \<Rightarrow> obj \<Rightarrow> ID val_result" where
  "object_package_id h (StrValue _) = Inr SYMBOL_STRING_CLASS"
| "object_package_id h (CodeValue _) = Inr SYMBOL_CODE_CLASS"
| "object_package_id h (ArrayValue _) = Inr SYMBOL_ARRAY_CLASS"
| "object_package_id h (FileValue _) = Inr SYMBOL_FILE_CLASS"
| "object_package_id h (IntValue _) = Inr SYMBOL_INT_CLASS"
| "object_package_id h (DoubleValue _) = Inr SYMBOL_DOUBLE_CLASS"
| "object_package_id h (HashValue _) = Inr SYMBOL_HASH_CLASS"
| "object_package_id h (BytesValue _) = Inr SYMBOL_BYTES_CLASS"
| "object_package_id h (RegexpValue _ _) = Inr SYMBOL_REGEXP_CLASS"
| "object_package_id h (BoolValue _) = Inr SYMBOL_BOOLEAN_CLASS"
| "object_package_id h (RangeValue _ _) = Inr SYMBOL_RANGE_CLASS"
| "object_package_id h (PointerValue _) = Inr SYMBOL_POINTER_CLASS"
| "object_package_id h (ExceptionValue _ _ _) = Inr SYMBOL_EXCEPTION_CLASS"
| "object_package_id h (ArrayIterator _ _) = Inr SYMBOL_ARRAY_ITERATOR_CLASS"
| "object_package_id h (HashIterator _ _) = Inr SYMBOL_HASH_ITERATOR_CLASS"
| "object_package_id h (RangeIterator _ _) = Inr SYMBOL_RANGE_ITERATOR_CLASS"
| "object_package_id h (ReferenceValue _) = Inr SYMBOL_REFERENCE_CLASS"
| "object_package_id h (ClassValue _ _ _) = Inr SYMBOL_CLASS_CLASS"
| "object_package_id h (FilePackageValue _ _) = Inr SYMBOL_FILEPACKAGE_CLASS"
| "object_package_id h (TupleValue _) = Inl Abort"
| "object_package_id h (SymbolValue i) = Inr i"
| "object_package_id h (ObjectValue k _ _) =
     bnd (deref h k) (\<lambda>x. case x of ClassValue i _ _ \<Rightarrow> Inr i | _ \<Rightarrow> Inl Undefined)"
| "object_package_id h UndefValue = throw_fmt ''Cannot get package name from undefined value.''"

subsection \<open>The invariant\<close>

definition symtab_ok :: "symtab \<Rightarrow> bool" where
  "symtab_ok t = (map_wf (tbl t) \<and> map_wf (rev_tbl t) \<and> 0 \<le> counter t \<and>
     (\<forall>s i. map_of (tbl t) s = Some i \<longrightarrow>
        0 \<le> i \<and> i < counter t \<and> map_of (rev_tbl t) i = Some s))"

lemma symtab_ok_empty: "symtab_ok empty_symtab"
  by (simp add: symtab_ok_def empty_symtab_def)

lemma symtab_ok_get_id: "symtab_ok t \<Longrightarrow> symtab_ok (fst (get_id s t))"
  by (auto simp: symtab_ok_def get_id_def Let_def split: option.splits; fastforce)

lemma symtab_ok_id2name: "symtab_ok t \<Longrightarrow> symtab_ok (fst (id2name i t))"
  by (auto simp: symtab_ok_def id2name_def split: option.splits)

lemma symtab_ok_new: "symtab_ok new_symtab"
proof -
  have "symtab_ok (foldl (\<lambda>t s. fst (get_id s t)) t ss)" if "symtab_ok t" for t ss
    using that by (induction ss arbitrary: t) (simp_all add: symtab_ok_get_id)
  then show ?thesis unfolding new_symtab_def using symtab_ok_empty .
qed

lemma get_id_bound: "symtab_ok t \<Longrightarrow> counter t < 2 ^ 31 \<Longrightarrow>
    \<exists>i. snd (get_id s t) = word_of_int i \<and> 0 \<le> i \<and> i < 2 ^ 31 \<and>
      map_of (tbl (fst (get_id s t))) s = Some i \<and> map_of (rev_tbl (fst (get_id s t))) i = Some s"
  by (auto simp: symtab_ok_def get_id_def Let_def split: option.splits; force)

lemma sint_word_of_small: "0 \<le> i \<Longrightarrow> i < 2 ^ 31 \<Longrightarrow> sint (word_of_int i :: i32) = i"
  by (simp add: signed_of_int signed_take_bit_int_eq_self)

subsection \<open>Interning as an interface\<close>

text \<open>
  What the compiler and the virtual machine rely on: a name and its number determine each
  other, and looking up other names later does not change what a number stands for.
\<close>

locale interning =
  fixes intern :: "'n \<Rightarrow> 't \<Rightarrow> 't \<times> 'i"
    and name :: "'i \<Rightarrow> 't \<Rightarrow> 't \<times> 'n"
    and known :: "'n \<Rightarrow> 'i \<Rightarrow> 't \<Rightarrow> bool"
    and inv :: "'t \<Rightarrow> bool"
    and room :: "'t \<Rightarrow> bool"
  assumes known_intern: "inv t \<Longrightarrow> room t \<Longrightarrow> known n (snd (intern n t)) (fst (intern n t))"
    and known_stable: "inv t \<Longrightarrow> known n i t \<Longrightarrow> known n i (fst (intern n' t))"
    and known_stable_name: "inv t \<Longrightarrow> known n i t \<Longrightarrow> known n i (fst (name i' t))"
    and intern_known: "inv t \<Longrightarrow> known n i t \<Longrightarrow> intern n t = (t, i)"
    and name_known: "inv t \<Longrightarrow> known n i t \<Longrightarrow> name i t = (t, n)"
    and inv_intern: "inv t \<Longrightarrow> inv (fst (intern n t))"
    and inv_name: "inv t \<Longrightarrow> inv (fst (name i t))"
begin

lemma name_intern: "inv t \<Longrightarrow> room t \<Longrightarrow> intern n t = (t', i) \<Longrightarrow> name i t' = (t', n)"
  using known_intern [of t n] inv_intern [of t n] name_known by fastforce

lemma intern_again: "inv t \<Longrightarrow> room t \<Longrightarrow> intern n t = (t', i) \<Longrightarrow> intern n t' = (t', i)"
  using known_intern [of t n] inv_intern [of t n] intern_known by fastforce

lemma name_after_others:
  assumes "inv t" "room t" "intern n t = (t', i)"
  shows "snd (name i (foldl (\<lambda>t m. fst (intern m t)) t' ms)) = n"
proof -
  have "inv u \<Longrightarrow> known n i u \<Longrightarrow> snd (name i (foldl (\<lambda>t m. fst (intern m t)) u ms)) = n" for u
    by (induction ms arbitrary: u) (simp_all add: name_known inv_intern known_stable)
  then show ?thesis
    using assms known_intern [of t n] inv_intern [of t n] by force
qed

end

definition symbol_known :: "string \<Rightarrow> ID \<Rightarrow> symtab \<Rightarrow> bool" where
  "symbol_known s i t = (map_of (tbl t) s = Some (sint i) \<and> map_of (rev_tbl t) (sint i) = Some s)"

lemma symbol_known_get_id: "symtab_ok t \<Longrightarrow> counter t < 2 ^ 31 \<Longrightarrow>
    symbol_known s (snd (get_id s t)) (fst (get_id s t))"
  using get_id_bound [of t s] by (auto simp: symbol_known_def sint_word_of_small)

lemma symbol_known_stable:
  assumes "symtab_ok t" "symbol_known s i t"
  shows "symbol_known s i (fst (get_id s' t))"
proof -
  have "sint i < counter t" using assms by (auto simp: symbol_known_def symtab_ok_def)
  then show ?thesis
    using assms by (auto simp: symbol_known_def get_id_def Let_def split: option.splits)
qed

interpretation symtab: interning get_id id2name symbol_known symtab_ok "\<lambda>t. counter t < 2 ^ 31"
  by unfold_locales
    (auto simp: symbol_known_get_id symbol_known_stable symtab_ok_get_id symtab_ok_id2name,
     auto simp: symbol_known_def get_id_def id2name_def split: option.splits)

subsection \<open>Properties\<close>

text \<open>Symbols round trip: the number \<open>get_id\<close> gives a name is the number it gives it
  again, and \<open>id2name\<close> takes it back to the name, however many other names are interned in
  between.\<close>

theorem symbol_round_trip:
  assumes "symtab_ok t" "counter t < 2 ^ 31" "get_id s t = (t', i)"
  shows "get_id s t' = (t', i) \<and> id2name i t' = (t', s) \<and>
    snd (id2name i (foldl (\<lambda>t m. fst (get_id m t)) t' ms)) = s"
  using symtab.intern_again [OF assms] symtab.name_intern [OF assms] symtab.name_after_others [OF assms]
  by simp

theorem symbol_round_trip_witness:
  "snd (id2name 1 (foldl (\<lambda>t m. fst (get_id m t))
     (fst (get_id ''b'' (fst (get_id ''a'' empty_symtab)))) [''c'', ''a'', ''d''])) = ''b''"
proof -
  let ?t = "fst (get_id ''a'' empty_symtab)"
  have "get_id ''b'' ?t = (fst (get_id ''b'' ?t), 1)" by (simp add: get_id_def empty_symtab_def)
  moreover have "counter ?t < 2 ^ 31" by (simp add: get_id_def empty_symtab_def)
  ultimately show ?thesis
    using symbol_round_trip [OF symtab_ok_get_id [OF symtab_ok_empty]] by blast
qed

text \<open>Two names have the same number only if they are equal.\<close>

theorem symbol_ids_distinct:
  assumes "symtab_ok t" "counter t < 2 ^ 31" "get_id s t = (t', i)"
    and "counter t' < 2 ^ 31" "get_id s' t' = (t'', j)" "s \<noteq> s'"
  shows "i \<noteq> j"
proof
  assume "i = j"
  have ok: "symtab_ok t'" using symtab_ok_get_id [OF assms(1), of s] assms(3) by simp
  have "symbol_known s' j t''" using symbol_known_get_id [OF ok assms(4), of s'] assms(5) by simp
  moreover have "symbol_known s i t''"
    using symbol_known_stable [OF ok, of s i s'] symbol_known_get_id [OF assms(1,2), of s] assms(3,5)
    by simp
  ultimately show False using \<open>i = j\<close> assms(6) by (simp add: symbol_known_def)
qed

theorem symbol_ids_distinct_witness:
  "snd (get_id ''a'' empty_symtab) \<noteq> snd (get_id ''b'' (fst (get_id ''a'' empty_symtab)))"
  by (rule symbol_ids_distinct [OF symtab_ok_empty _ prod.collapse [symmetric] _ prod.collapse [symmetric]])
    (simp_all add: empty_symtab_def get_id_def)

text \<open>The generated constants agree with the table the constructor builds: each
  \<open>SYMBOL_*\<close> the interpreter uses is the number of its name.\<close>

theorem builtin_symbol_ids:
  "\<forall>(s, i) \<in> set [(''DESTROY'', SYMBOL_DESTROY), (''Object'', SYMBOL_OBJECT_CLASS),
     (''Array'', SYMBOL_ARRAY_CLASS), (''Str'', SYMBOL_STRING_CLASS), (''Class'', SYMBOL_CLASS_CLASS),
     (''Hash'', SYMBOL_HASH_CLASS), (''Boolean'', SYMBOL_BOOLEAN_CLASS),
     (''FilePackage'', SYMBOL_FILEPACKAGE_CLASS), (''__getitem__'', SYMBOL_GET_ITEM),
     (''__setitem__'', SYMBOL_SET_ITEM)].
     get_id s new_symtab = (new_symtab, i)"
  by code_simp

theorem builtin_symbol_ids_witness: "get_id ''Class'' new_symtab = (new_symtab, SYMBOL_CLASS_CLASS)"
  using builtin_symbol_ids by simp

end
