(* ===== verification/Tora_Class.thy ===== *)
theory Tora_Class
  imports Tora_Symbol
begin

text \<open>
  Classes (\<open>tora/value/class.h\<close>, \<open>tora/value/class.cc\<close>) and the search for a method that
  \<open>VM::call_method\<close> (tora/vm.cc) makes through superclasses, the class Class and the class
  Object.
\<close>

subsection \<open>Classes\<close>

definition new_class :: "ID \<Rightarrow> obj" where
  "new_class name = ClassValue name None []"

definition as_class :: "heap \<Rightarrow> ptr \<Rightarrow> (ID \<times> ptr \<times> (ID \<times> ptr) list) val_result" where
  "as_class h k = bnd (deref h k) (\<lambda>x. case x of
       ClassValue name super ms \<Rightarrow> Inr (name, super, ms) | _ \<Rightarrow> Inl Undefined)"

definition as_code :: "heap \<Rightarrow> ptr \<Rightarrow> code val_result" where
  "as_code h p = bnd (deref h p) (\<lambda>x. case x of CodeValue c \<Rightarrow> Inr c | _ \<Rightarrow> Inl Undefined)"

text \<open>\<open>methods_.insert\<close> keeps a method that is already there.\<close>

definition add_method :: "heap \<Rightarrow> ptr \<Rightarrow> ptr \<Rightarrow> heap val_result" where
  "add_method h k code = bnd (as_class h k) (\<lambda>(name, super, ms). bnd (as_code h code) (\<lambda>c.
     Inr (store k (ClassValue name super (map_insert (func_name_id c) code ms)) h)))"

definition add_native_method :: "heap \<Rightarrow> ptr \<Rightarrow> ID \<Rightarrow> callback \<Rightarrow> heap val_result" where
  "add_native_method h k i cb = bnd (as_class h k) (\<lambda>(name, super, ms).
     let (h', a) = alloc (CodeValue (new_native_code name i cb)) h
     in Inr (store k (ClassValue name super (map_insert i (Some a) ms)) h'))"

definition add_native_method_named ::
    "heap \<Rightarrow> symtab \<Rightarrow> ptr \<Rightarrow> string \<Rightarrow> callback \<Rightarrow> (heap \<times> symtab) val_result" where
  "add_native_method_named h t k name cb =
     (let (t', i) = get_id name t in bnd (add_native_method h k i cb) (\<lambda>h'. Inr (h', t')))"

definition add_class_constant ::
    "heap \<Rightarrow> symtab \<Rightarrow> ptr \<Rightarrow> string \<Rightarrow> i32 \<Rightarrow> (heap \<times> symtab) val_result" where
  "add_class_constant h t k name n = add_native_method_named h t k name (Const_int n)"

definition has_method :: "heap \<Rightarrow> ptr \<Rightarrow> ID \<Rightarrow> bool val_result" where
  "has_method h k i = bnd (as_class h k) (\<lambda>(_, _, ms). Inr (map_of ms i \<noteq> None))"

definition find_method :: "heap \<Rightarrow> ptr \<Rightarrow> ID \<Rightarrow> ptr option val_result" where
  "find_method h k i = bnd (as_class h k) (\<lambda>(_, _, ms). Inr (map_of ms i))"

definition set_superclass :: "heap \<Rightarrow> ptr \<Rightarrow> ptr \<Rightarrow> heap val_result" where
  "set_superclass h k super = bnd (as_class h k) (\<lambda>(name, _, ms).
     Inr (store k (ClassValue name super ms) h))"

text \<open>\<open>ClassValue::isa\<close>, with the recursion bounded; \<open>None\<close> when the bound is too small.\<close>

fun class_isa :: "nat \<Rightarrow> heap \<Rightarrow> ptr \<Rightarrow> ID \<Rightarrow> bool val_result option" where
  "class_isa 0 h k t = None"
| "class_isa (Suc n) h k t = (case as_class h k of
       Inl e \<Rightarrow> Some (Inl e)
     | Inr (name, super, _) \<Rightarrow>
         if name = t then Some (Inr True)
         else if super = None then Some (Inr False)
         else class_isa n h super t)"

subsection \<open>Method search (VM::call_method)\<close>

text \<open>
  \<open>seen\<close> collects the names of the classes searched. The result is the class that has the
  method and the method, \<open>Inr None\<close> where \<open>call_method\<close> dies; \<open>Inl Abort\<close> comes from
  \<open>get_builtin_class\<close> of a missing class.
\<close>

definition get_builtin_class :: "(ID \<times> ptr) list \<Rightarrow> ID \<Rightarrow> ptr val_result" where
  "get_builtin_class bs i = (case map_of bs i of Some k \<Rightarrow> Inr k | None \<Rightarrow> Inl Abort)"

fun resolve_method :: "nat \<Rightarrow> heap \<Rightarrow> (ID \<times> ptr) list \<Rightarrow> bool \<Rightarrow> ptr \<Rightarrow> ID \<Rightarrow> ID list \<Rightarrow>
    (ptr \<times> ptr) option val_result option" where
  "resolve_method 0 h bs is_class k f seen = None"
| "resolve_method (Suc n) h bs is_class k f seen = (case as_class h k of
       Inl e \<Rightarrow> Some (Inl e)
     | Inr (name, super, ms) \<Rightarrow> (let seen' = name # seen in
         case map_of ms f of
           Some code \<Rightarrow> Some (Inr (Some (k, code)))
         | None \<Rightarrow>
             if super \<noteq> None then resolve_method n h bs is_class super f seen'
             else if is_class \<and> SYMBOL_CLASS_CLASS \<notin> set seen' then
               (case get_builtin_class bs SYMBOL_CLASS_CLASS of
                  Inl e \<Rightarrow> Some (Inl e) | Inr c \<Rightarrow> resolve_method n h bs is_class c f seen')
             else if name \<noteq> SYMBOL_OBJECT_CLASS \<and> SYMBOL_OBJECT_CLASS \<notin> set seen' then
               (case get_builtin_class bs SYMBOL_OBJECT_CLASS of
                  Inl e \<Rightarrow> Some (Inl e) | Inr c \<Rightarrow> resolve_method n h bs is_class c f seen')
             else Some (Inr None)))"

subsection \<open>The class hierarchy\<close>

text \<open>
  Superclasses are older than their subclasses, so a chain ends; every pointer to a
  superclass points at a class.
\<close>

definition classes_ok :: "heap \<Rightarrow> bool" where
  "classes_ok h = (\<forall>a name super ms. a < length h \<longrightarrow> h ! a = ClassValue name super ms \<longrightarrow>
     (\<forall>b. super = Some b \<longrightarrow> b < a \<and> (\<exists>n s m. h ! b = ClassValue n s m)))"

definition is_class_at :: "heap \<Rightarrow> nat \<Rightarrow> bool" where
  "is_class_at h a = (a < length h \<and> (case h ! a of ClassValue _ _ _ \<Rightarrow> True | _ \<Rightarrow> False))"

text \<open>A class and its ancestors, nearest first.\<close>

fun ancestors :: "nat \<Rightarrow> heap \<Rightarrow> nat \<Rightarrow> nat list" where
  "ancestors 0 h a = []"
| "ancestors (Suc n) h a = a # (case h ! a of
       ClassValue _ (Some b) _ \<Rightarrow> ancestors n h b | _ \<Rightarrow> [])"

definition class_name :: "heap \<Rightarrow> nat \<Rightarrow> ID" where
  "class_name h a = (case h ! a of ClassValue n _ _ \<Rightarrow> n | _ \<Rightarrow> 0)"

definition class_methods :: "heap \<Rightarrow> nat \<Rightarrow> (ID \<times> ptr) list" where
  "class_methods h a = (case h ! a of ClassValue _ _ ms \<Rightarrow> ms | _ \<Rightarrow> [])"

lemma is_class_atE:
  assumes "is_class_at h a"
  obtains n s ms where "h ! a = ClassValue n s ms" "a < length h"
  using assms by (auto simp: is_class_at_def split: obj.splits)

lemma class_super:
  assumes "classes_ok h" "a < length h" "h ! a = ClassValue n (Some b) ms"
  shows "b < a" "is_class_at h b"
proof -
  have "b < a \<and> (\<exists>n s m. h ! b = ClassValue n s m)"
    using assms unfolding classes_ok_def by blast
  then show "b < a" "is_class_at h b" using assms(2) by (auto simp: is_class_at_def)
qed

lemma ancestors_fuel:
  assumes "classes_ok h" "a < n" "a < m" "is_class_at h a"
  shows "ancestors n h a = ancestors m h a"
  using assms(2-)
proof (induction n arbitrary: a m)
  case (Suc n)
  obtain nm s ms where a: "h ! a = ClassValue nm s ms" "a < length h"
    using Suc.prems(3) by (rule is_class_atE)
  obtain m' where m: "m = Suc m'" using Suc.prems(2) by (cases m) auto
  show ?case
  proof (cases s)
    case (Some b)
    have "b < a" "is_class_at h b" using class_super [OF assms(1) a(2)] a(1) Some by auto
    then have "ancestors n h b = ancestors m' h b"
      using Suc.IH [of b m'] Suc.prems(1,2) m by simp
    then show ?thesis using a m Some by simp
  qed (simp add: a m)
qed simp

definition lineage :: "heap \<Rightarrow> nat \<Rightarrow> nat list" where
  "lineage h a = ancestors (length h) h a"

lemma lineage_simps:
  assumes "classes_ok h" "a < length h" "h ! a = ClassValue n s ms"
  shows "lineage h a = a # (case s of None \<Rightarrow> [] | Some b \<Rightarrow> lineage h b)"
proof -
  obtain l where l: "length h = Suc l" using assms(2) by (cases "length h") auto
  show ?thesis
  proof (cases s)
    case (Some b)
    then have "b < a" "is_class_at h b" using class_super [OF assms(1,2)] assms(3) by auto
    then have eq: "ancestors l h b = ancestors (length h) h b"
      using ancestors_fuel [OF assms(1), of b l "length h"] assms(2) l by simp
    have "lineage h a = ancestors (Suc l) h a" by (simp only: lineage_def l)
    also have "\<dots> = a # ancestors l h b" using assms(3) Some by simp
    finally show ?thesis using Some by (simp only: eq lineage_def option.case)
  qed (simp add: lineage_def l assms(3))
qed

lemma class_isa_lineage:
  assumes "classes_ok h" "is_class_at h a" "a < n"
  shows "class_isa n h (Some a) t = Some (Inr (t \<in> class_name h ` set (lineage h a)))"
  using assms(2,3)
proof (induction n arbitrary: a)
  case (Suc n)
  obtain nm s ms where a: "h ! a = ClassValue nm s ms" "a < length h"
    using Suc.prems(1) by (rule is_class_atE)
  note l = lineage_simps [OF assms(1) a(2,1)]
  show ?case
  proof (cases s)
    case None
    then show ?thesis using a l by (auto simp: as_class_def class_name_def)
  next
    case (Some b)
    then have "b < a" "is_class_at h b" using class_super [OF assms(1) a(2)] a(1) by auto
    then show ?thesis using Suc a l Some by (auto simp: as_class_def class_name_def)
  qed
qed simp

subsection \<open>The order in which classes are searched\<close>

definition after_chain :: "nat \<Rightarrow> heap \<Rightarrow> (ID \<times> ptr) list \<Rightarrow> bool \<Rightarrow> ID \<Rightarrow> ID list \<Rightarrow> ID \<Rightarrow>
    (ptr \<times> ptr) option val_result option" where
  "after_chain n h bs is_class f seen name =
     (if is_class \<and> SYMBOL_CLASS_CLASS \<notin> set seen then
        (case get_builtin_class bs SYMBOL_CLASS_CLASS of
           Inl e \<Rightarrow> Some (Inl e) | Inr c \<Rightarrow> resolve_method n h bs is_class c f seen)
      else if name \<noteq> SYMBOL_OBJECT_CLASS \<and> SYMBOL_OBJECT_CLASS \<notin> set seen then
        (case get_builtin_class bs SYMBOL_OBJECT_CLASS of
           Inl e \<Rightarrow> Some (Inl e) | Inr c \<Rightarrow> resolve_method n h bs is_class c f seen)
      else Some (Inr None))"

definition has_meth :: "heap \<Rightarrow> ID \<Rightarrow> nat \<Rightarrow> bool" where
  "has_meth h f a = (map_of (class_methods h a) f \<noteq> None)"

definition found :: "heap \<Rightarrow> ID \<Rightarrow> nat \<Rightarrow> (ptr \<times> ptr) option val_result option" where
  "found h f b = Some (Inr (Some (Some b, the (map_of (class_methods h b) f))))"

lemma lineage_not_Nil: "classes_ok h \<Longrightarrow> is_class_at h a \<Longrightarrow> lineage h a \<noteq> []"
  by (auto elim!: is_class_atE simp: lineage_simps)

lemma resolve_chain:
  assumes "classes_ok h" "is_class_at h a"
  shows "resolve_method (length (lineage h a) + n) h bs ic (Some a) f seen =
    (case find (has_meth h f) (lineage h a) of
       Some b \<Rightarrow> found h f b
     | None \<Rightarrow> after_chain n h bs ic f (rev (map (class_name h) (lineage h a)) @ seen)
         (class_name h (last (lineage h a))))"
  using assms(2)
proof (induction a arbitrary: seen rule: less_induct)
  case (less a)
  obtain nm s ms where a: "h ! a = ClassValue nm s ms" "a < length h"
    using less.prems by (rule is_class_atE)
  note l = lineage_simps [OF assms(1) a(2,1)]
  show ?case
  proof (cases s)
    case None
    then show ?thesis using a l
      by (auto simp: as_class_def has_meth_def found_def after_chain_def class_name_def
          class_methods_def Let_def split: option.split)
  next
    case (Some b)
    have b: "b < a" "is_class_at h b" using class_super [OF assms(1) a(2)] a(1) Some by auto
    have "lineage h b \<noteq> []" using lineage_not_Nil assms(1) b(2) .
    with less.IH [OF b, of "class_name h a # seen"] show ?thesis using a l Some
      by (auto simp: as_class_def has_meth_def found_def class_name_def class_methods_def Let_def
          split: option.split)
  qed
qed

lemma length_ancestors: "classes_ok h \<Longrightarrow> is_class_at h a \<Longrightarrow> length (ancestors n h a) \<le> Suc a"
proof (induction n arbitrary: a)
  case (Suc n)
  obtain nm s ms where a: "h ! a = ClassValue nm s ms" "a < length h"
    using Suc.prems(2) by (rule is_class_atE)
  show ?case
  proof (cases s)
    case (Some b)
    have b: "b < a" "is_class_at h b" using class_super [OF Suc.prems(1) a(2)] a(1) Some by auto
    then have "length (ancestors n h b) \<le> Suc b" using Suc.IH Suc.prems(1) by simp
    then show ?thesis using a Some b by simp
  qed (simp add: a)
qed simp

lemma length_lineage: "classes_ok h \<Longrightarrow> is_class_at h a \<Longrightarrow> length (lineage h a) \<le> length h"
  using length_ancestors [of h a "length h"] unfolding lineage_def
  by (auto elim!: is_class_atE)

lemma name_in_lineage: "classes_ok h \<Longrightarrow> is_class_at h a \<Longrightarrow> class_name h a \<in> class_name h ` set (lineage h a)"
  by (auto elim!: is_class_atE simp: lineage_simps)

definition method_order :: "heap \<Rightarrow> nat \<Rightarrow> nat \<Rightarrow> bool \<Rightarrow> nat \<Rightarrow> nat list" where
  "method_order h class_class object_class is_class a =
     (let own = lineage h a;
          cls = (if is_class \<and> SYMBOL_CLASS_CLASS \<notin> class_name h ` set own
                 then lineage h class_class else []);
          uni = (if SYMBOL_OBJECT_CLASS \<notin> class_name h ` set (own @ cls)
                 then lineage h object_class else [])
      in own @ cls @ uni)"

lemma find_append: "find P (xs @ ys) = (case find P xs of None \<Rightarrow> find P ys | Some x \<Rightarrow> Some x)"
  by (induction xs) auto

text \<open>The last part of the search, through the class Object.\<close>

lemma resolve_universal:
  assumes "classes_ok h" "map_of bs SYMBOL_OBJECT_CLASS = Some (Some u)" "is_class_at h u"
    and "class_name h u = SYMBOL_OBJECT_CLASS"
    and "is_class \<longrightarrow> SYMBOL_CLASS_CLASS \<in> set seen" "length h \<le> n"
    and "name \<in> set seen"
  shows "after_chain n h bs is_class f seen name =
    (case find (has_meth h f) (if SYMBOL_OBJECT_CLASS \<notin> set seen then lineage h u else []) of
       Some b \<Rightarrow> found h f b | None \<Rightarrow> Some (Inr None))"
proof (cases "SYMBOL_OBJECT_CLASS \<in> set seen")
  case True
  then show ?thesis using assms(5) by (auto simp: after_chain_def)
next
  case False
  define L where "L = lineage h u"
  have n: "n = length L + (n - length L)"
    using length_lineage [OF assms(1,3)] assms(6) unfolding L_def by simp
  have obj: "SYMBOL_OBJECT_CLASS \<in> set (rev (map (class_name h) L) @ seen)"
    using name_in_lineage [OF assms(1,3)] assms(4) by (simp add: L_def)
  have cls: "is_class \<longrightarrow> SYMBOL_CLASS_CLASS \<in> set (rev (map (class_name h) L) @ seen)"
    using assms(5) by auto
  have stop: "after_chain m h bs is_class f (rev (map (class_name h) L) @ seen) nm = Some (Inr None)" for m nm
    unfolding after_chain_def using obj cls by (auto simp del: set_append set_rev set_map)
  have "after_chain n h bs is_class f seen name = resolve_method n h bs is_class (Some u) f seen"
    using False assms(2,5,7) by (auto simp: after_chain_def get_builtin_class_def)
  also have "\<dots> = (case find (has_meth h f) L of Some b \<Rightarrow> found h f b | None \<Rightarrow> Some (Inr None))"
    by (subst n, unfold L_def)
      (simp only: resolve_chain [OF assms(1,3)] stop [unfolded L_def] cong: option.case_cong)
  finally show ?thesis using False by (simp add: L_def)
qed

text \<open>C26. A method is searched in the class of the receiver and its ancestors, nearest first,
  then, for a class as receiver, in the class Class and its ancestors, then in the class
  Object; a class met before is not searched again, the search ends, and the first class
  that defines the method wins.\<close>

theorem method_resolution_order:
  assumes "classes_ok h" "is_class_at h a"
    and "map_of bs SYMBOL_CLASS_CLASS = Some (Some c)" "is_class_at h c"
    and "class_name h c = SYMBOL_CLASS_CLASS"
    and "map_of bs SYMBOL_OBJECT_CLASS = Some (Some u)" "is_class_at h u"
    and "class_name h u = SYMBOL_OBJECT_CLASS" "3 * length h \<le> n"
  shows "resolve_method n h bs is_class (Some a) f [] =
    (case find (has_meth h f) (method_order h c u is_class a) of
       Some b \<Rightarrow> Some (Inr (Some (Some b, the (map_of (class_methods h b) f))))
     | None \<Rightarrow> Some (Inr None))"
proof -
  define L where "L = lineage h a"
  define s1 where "s1 = rev (map (class_name h) L)"
  define m where "m = n - length L"
  have n: "n = length L + m" and m: "2 * length h \<le> m"
    using length_lineage [OF assms(1,2)] assms(9) by (simp_all add: L_def m_def)
  have Lne: "L \<noteq> []" unfolding L_def by (rule lineage_not_Nil [OF assms(1,2)])
  have last: "class_name h (last L) \<in> set s1" using Lne by (simp add: s1_def)
  have first: "resolve_method n h bs is_class (Some a) f [] =
      (case find (has_meth h f) L of Some b \<Rightarrow> found h f b
       | None \<Rightarrow> after_chain m h bs is_class f s1 (class_name h (last L)))"
    unfolding n s1_def L_def using resolve_chain [OF assms(1,2), of m bs is_class f "[]"]
    by (simp only: append_Nil2)
  show ?thesis
  proof (cases "is_class \<and> SYMBOL_CLASS_CLASS \<notin> set s1")
    case False
    have "after_chain m h bs is_class f s1 (class_name h (last L)) =
        (case find (has_meth h f) (if SYMBOL_OBJECT_CLASS \<notin> set s1 then lineage h u else []) of
           Some b \<Rightarrow> found h f b | None \<Rightarrow> Some (Inr None))"
      using False m by (intro resolve_universal assms last) auto
    then show ?thesis using False first
      by (auto simp: method_order_def Let_def find_append found_def s1_def L_def split: option.split)
  next
    case True
    define C where "C = lineage h c"
    define s2 where "s2 = rev (map (class_name h) C) @ s1"
    define k where "k = m - length C"
    have mk: "m = length C + k" and k: "length h \<le> k"
      using length_lineage [OF assms(1,4)] m by (simp_all add: C_def k_def)
    have cls: "SYMBOL_CLASS_CLASS \<in> set s2"
      using name_in_lineage [OF assms(1,4)] assms(5) by (simp add: s2_def C_def)
    have lastC: "class_name h (last C) \<in> set s2"
      using lineage_not_Nil [OF assms(1,4)] by (simp add: s2_def C_def)
    have "after_chain m h bs is_class f s1 (class_name h (last L)) =
        resolve_method m h bs is_class (Some c) f s1"
      using True assms(3) by (simp add: after_chain_def get_builtin_class_def)
    also have "\<dots> = (case find (has_meth h f) C of Some b \<Rightarrow> found h f b
       | None \<Rightarrow> after_chain k h bs is_class f s2 (class_name h (last C)))"
      unfolding mk C_def s2_def by (rule resolve_chain [OF assms(1,4)])
    also have "after_chain k h bs is_class f s2 (class_name h (last C)) =
        (case find (has_meth h f) (if SYMBOL_OBJECT_CLASS \<notin> set s2 then lineage h u else []) of
           Some b \<Rightarrow> found h f b | None \<Rightarrow> Some (Inr None))"
      using cls k by (intro resolve_universal assms lastC) auto
    finally show ?thesis using True first
      by (auto simp: method_order_def Let_def find_append found_def s1_def s2_def C_def L_def image_Un
          split: option.split)
  qed
qed

text \<open>A hierarchy: Object, Class, A, and B below A.\<close>

definition sample_classes :: heap where
  "sample_classes = [ClassValue SYMBOL_OBJECT_CLASS None [(50, Some 4)],
     ClassValue SYMBOL_CLASS_CLASS None [(51, Some 4)], ClassValue 40 None [(52, Some 4)],
     ClassValue 41 (Some 2) [], CodeValue (new_native_code 0 0 (Const_int 7))]"

lemma sample_classes_ok: "classes_ok sample_classes"
  by (auto simp: classes_ok_def sample_classes_def less_Suc_eq)

theorem method_resolution_order_witness:
  "resolve_method 15 sample_classes [(SYMBOL_OBJECT_CLASS, Some 0), (SYMBOL_CLASS_CLASS, Some 1)]
     True (Some 3) 50 [] = Some (Inr (Some (Some 0, Some 4)))"
proof -
  have c: "is_class_at sample_classes 3" "is_class_at sample_classes 1" "is_class_at sample_classes 0"
    by (simp_all add: is_class_at_def sample_classes_def)
  have b: "map_of [(SYMBOL_OBJECT_CLASS, Some 0), (SYMBOL_CLASS_CLASS, Some (1::nat))] SYMBOL_CLASS_CLASS = Some (Some 1)"
      "map_of [(SYMBOL_OBJECT_CLASS, Some 0), (SYMBOL_CLASS_CLASS, Some (1::nat))] SYMBOL_OBJECT_CLASS = Some (Some 0)"
    by (simp_all add: symbol_defs)
  have n: "class_name sample_classes 1 = SYMBOL_CLASS_CLASS" "class_name sample_classes 0 = SYMBOL_OBJECT_CLASS"
    by (simp_all add: class_name_def sample_classes_def)
  have "find (has_meth sample_classes 50) (method_order sample_classes 1 0 True 3) = Some 0"
    "the (map_of (class_methods sample_classes 0) 50) = Some 4"
    by code_simp+
  then show ?thesis
    using method_resolution_order [OF sample_classes_ok c(1) b(1) c(2) n(1) b(2) c(3) n(2), of 15 True 50]
    by (simp add: sample_classes_def)
qed

text \<open>C27. \<open>isa\<close> returns, and answers whether the name is that of the class or of one of its
  ancestors.\<close>

theorem isa_ancestors:
  assumes "classes_ok h" "is_class_at h a" "length h \<le> n"
  shows "class_isa n h (Some a) t = Some (Inr (\<exists>b \<in> set (lineage h a). class_name h b = t))"
  using class_isa_lineage [OF assms(1,2), of n t] assms(2,3)
  by (auto elim!: is_class_atE simp: image_iff)

theorem isa_ancestors_witness: "class_isa 5 sample_classes (Some 3) 40 = Some (Inr True)"
proof -
  have "is_class_at sample_classes 3" "length sample_classes \<le> 5"
    by (simp_all add: is_class_at_def sample_classes_def)
  from isa_ancestors [OF sample_classes_ok this, of 40]
  have "class_isa 5 sample_classes (Some 3) 40 =
      Some (Inr (\<exists>b \<in> set (lineage sample_classes 3). class_name sample_classes b = 40))" .
  moreover have "\<exists>b \<in> set (lineage sample_classes 3). class_name sample_classes b = 40" by code_simp
  ultimately show ?thesis by simp
qed

end
