(* ===== verification/Tora_Pad.thy ===== *)
theory Tora_Pad
  imports Tora_Container
begin

text \<open>
  Lexical variables at run time: pads (\<open>tora/pad_list.h\<close>, \<open>tora/pad_list.cc\<close>), which form a
  chain through \<open>next_\<close>, and the frames of \<open>tora/frame.h\<close>, \<open>tora/frame.cc\<close>. Pads live in a
  store of their own; a pad is created with the address of the one it extends, so addresses
  decrease along a chain.
\<close>

record pad =
  pad_vars :: "ptr list"
  next_pad :: "nat option"

type_synonym pads = "pad list"

definition new_pad :: "nat option \<Rightarrow> pads \<Rightarrow> pads \<times> nat" where
  "new_pad n ps = (ps @ [\<lparr>pad_vars = [], next_pad = n\<rparr>], length ps)"

definition pad_at :: "pads \<Rightarrow> nat option \<Rightarrow> pad val_result" where
  "pad_at ps p = (case p of None \<Rightarrow> Inl Undefined
     | Some a \<Rightarrow> if a < length ps then Inr (ps ! a) else Inl Undefined)"

text \<open>
  \<open>PadList::get\<close> compares the index with the unsigned size, so a negative index is out of
  range. \<open>PadList::set\<close> grows the vector with undefs; its last assertion, that the value just
  stored has the type of the value stored, cannot fail.
\<close>

definition pad_get :: "ptr list \<Rightarrow> i32 \<Rightarrow> ptr option val_result" where
  "pad_get xs i = (if 0 \<le> sint i \<and> nat (sint i) < length xs
     then Inr (Some (xs ! nat (sint i))) else Inr None)"

definition pad_set :: "heap \<Rightarrow> ptr list \<Rightarrow> i32 \<Rightarrow> ptr \<Rightarrow> (heap \<times> ptr list) val_result" where
  "pad_set h xs i v =
     (if v = None then Inl Abort
      else if int_size xs - 1 < sint i then
        let (h', xs') = push_undefs (nat (sint i - int_size xs)) h xs
        in bnd (vec_insert (sint i) v xs') (\<lambda>ys. Inr (h', ys))
      else bnd (vec_erase (sint i) xs) (\<lambda>ys. bnd (vec_insert (sint i) v ys) (\<lambda>zs. Inr (h, zs))))"

text \<open>\<open>PadList::upper(level)\<close>: the result may be null; following null is undefined.\<close>

fun follow_next :: "pads \<Rightarrow> nat \<Rightarrow> nat option \<Rightarrow> nat option val_result" where
  "follow_next ps 0 n = Inr n"
| "follow_next ps (Suc k) n = bnd (pad_at ps n) (\<lambda>p. follow_next ps k (next_pad p))"

definition pad_upper :: "pads \<Rightarrow> nat option \<Rightarrow> i32 \<Rightarrow> nat option val_result" where
  "pad_upper ps a level = bnd (pad_at ps a) (\<lambda>p. follow_next ps (nat (sint level - 1)) (next_pad p))"

definition pad_get_at :: "pads \<Rightarrow> nat option \<Rightarrow> i32 \<Rightarrow> ptr option val_result" where
  "pad_get_at ps a i = bnd (pad_at ps a) (\<lambda>p. pad_get (pad_vars p) i)"

definition pad_set_at :: "heap \<Rightarrow> pads \<Rightarrow> nat option \<Rightarrow> i32 \<Rightarrow> ptr \<Rightarrow> (heap \<times> pads) val_result" where
  "pad_set_at h ps a i v = bnd (pad_at ps a) (\<lambda>p. bnd (pad_set h (pad_vars p) i v) (\<lambda>(h', xs).
     Inr (h', ps[the a := p\<lparr>pad_vars := xs\<rparr>])))"

definition pad_get_dynamic :: "pads \<Rightarrow> nat option \<Rightarrow> i32 \<Rightarrow> i32 \<Rightarrow> ptr option val_result" where
  "pad_get_dynamic ps a level i = bnd (pad_upper ps a level) (\<lambda>u.
     if u = None then Inl Abort else pad_get_at ps u i)"

definition pad_set_dynamic ::
    "heap \<Rightarrow> pads \<Rightarrow> nat option \<Rightarrow> i32 \<Rightarrow> i32 \<Rightarrow> ptr \<Rightarrow> (heap \<times> pads) val_result" where
  "pad_set_dynamic h ps a level i v = bnd (pad_upper ps a level) (\<lambda>u. pad_set_at h ps u i v)"

text \<open>\<open>PadList::size\<close>: the length of the chain; the loop is bounded by the number of pads.\<close>

fun chain_length :: "nat \<Rightarrow> pads \<Rightarrow> nat option \<Rightarrow> nat option" where
  "chain_length fuel ps None = Some 0"
| "chain_length 0 ps (Some a) = None"
| "chain_length (Suc f) ps (Some a) = map_option Suc (chain_length f ps (next_pad (ps ! a)))"

definition pad_size :: "pads \<Rightarrow> nat \<Rightarrow> nat option" where
  "pad_size ps a = chain_length (length ps) ps (Some a)"

subsection \<open>Frames (tora/frame.h, tora/frame.cc)\<close>

datatype frame_type =
    FRAME_TYPE_LEXICAL
  | FRAME_TYPE_FUNCTION
  | FRAME_TYPE_TRY
  | FRAME_TYPE_FOREACH
  | FRAME_TYPE_FILE_PACKAGE
  | FRAME_TYPE_CLASS
  | FRAME_TYPE_WHILE
  | FRAME_TYPE_FOR

text \<open>
  One record for the frame classes: \<open>return_address\<close> belongs to try and function frames,
  \<open>orig_ops\<close>, \<open>self\<close>, \<open>argcnt\<close> and \<open>frame_code\<close> to function frames, \<open>iter\<close> and
  \<open>current_value\<close> to foreach frames. \<open>vars_cnt\<close> is the capacity of the vector \<open>vars\<close>.
\<close>

record frame =
  frame_type :: frame_type
  vars_cnt :: nat
  top :: nat
  frame_pad :: nat
  return_address :: int
  orig_ops :: op_array
  self :: ptr
  argcnt :: int
  frame_code :: ptr
  iter :: ptr
  current_value :: ptr

definition new_frame :: "frame_type \<Rightarrow> nat \<Rightarrow> nat \<Rightarrow> frame list \<Rightarrow> pads \<Rightarrow> pads \<times> frame" where
  "new_frame t n tp fs ps =
     (let (ps', a) = new_pad (if fs = [] then None else Some (frame_pad (last fs))) ps
      in (ps', \<lparr>frame_type = t, vars_cnt = n, top = tp, frame_pad = a, return_address = 0,
               orig_ops = new_op_array, self = None, argcnt = 0, frame_code = None,
               iter = None, current_value = None\<rparr>))"

definition frame_get_variable :: "pads \<Rightarrow> frame \<Rightarrow> i32 \<Rightarrow> ptr option val_result" where
  "frame_get_variable ps f i =
     (if 0 \<le> sint i \<and> nat (sint i) < vars_cnt f then pad_get_at ps (Some (frame_pad f)) i
      else Inl Abort)"

definition frame_set_variable :: "heap \<Rightarrow> pads \<Rightarrow> frame \<Rightarrow> i32 \<Rightarrow> ptr \<Rightarrow> (heap \<times> pads) val_result" where
  "frame_set_variable h ps f i v =
     (if 0 \<le> sint i \<and> nat (sint i) < vars_cnt f then pad_set_at h ps (Some (frame_pad f)) i v
      else Inl Abort)"

definition frame_get_variable_dynamic :: "pads \<Rightarrow> frame \<Rightarrow> i32 \<Rightarrow> i32 \<Rightarrow> ptr option val_result" where
  "frame_get_variable_dynamic ps f level i = pad_get_dynamic ps (Some (frame_pad f)) level i"

definition frame_set_variable_dynamic ::
    "heap \<Rightarrow> pads \<Rightarrow> frame \<Rightarrow> i32 \<Rightarrow> i32 \<Rightarrow> ptr \<Rightarrow> (heap \<times> pads) val_result" where
  "frame_set_variable_dynamic h ps f level i v = pad_set_dynamic h ps (Some (frame_pad f)) level i v"

fun frame_type_str :: "frame_type \<Rightarrow> string" where
  "frame_type_str FRAME_TYPE_FUNCTION = ''function''"
| "frame_type_str FRAME_TYPE_LEXICAL = ''lexical''"
| "frame_type_str FRAME_TYPE_CLASS = ''class''"
| "frame_type_str FRAME_TYPE_TRY = ''try''"
| "frame_type_str FRAME_TYPE_FOREACH = ''foreach''"
| "frame_type_str FRAME_TYPE_WHILE = ''while''"
| "frame_type_str FRAME_TYPE_FOR = ''for''"
| "frame_type_str FRAME_TYPE_FILE_PACKAGE = ''file_package''"

subsection \<open>Pads as growing vectors\<close>

lemma pad_set_is_array_set: "v \<noteq> None \<Longrightarrow> pad_set h xs i v = array_set_item h xs i v"
  by (cases v) (simp_all add: pad_set_def array_set_item_def)

lemma deref_nonnull: "deref h v = Inr x \<Longrightarrow> v \<noteq> None"
  by (cases v) simp_all

interpretation padv: growing_vector pad_get pad_set
  by unfold_locales
    (auto simp: pad_set_is_array_set [OF deref_nonnull] array_set_item_eq pad_get_def)

subsection \<open>Chains\<close>

definition pads_ok :: "pads \<Rightarrow> bool" where
  "pads_ok ps = (\<forall>a < length ps. \<forall>b. next_pad (ps ! a) = Some b \<longrightarrow> b < a)"

lemma pads_ok_new: "pads_ok ps \<Longrightarrow> (\<forall>b. n = Some b \<longrightarrow> b < length ps) \<Longrightarrow> pads_ok (fst (new_pad n ps))"
  by (auto simp: pads_ok_def new_pad_def nth_append)

lemma pads_ok_set: "pads_ok ps \<Longrightarrow> pad_set_at h ps a i v = Inr (h', ps') \<Longrightarrow> pads_ok ps'"
  by (auto simp: pads_ok_def pad_set_at_def pad_at_def bnd_Inr_iff nth_list_update
      split: option.splits if_splits)

lemma chain_length_ok:
  assumes "pads_ok ps" "a < length ps" "a < f"
  shows "\<exists>n. chain_length f ps (Some a) = Some n \<and> 0 < n \<and> n \<le> Suc a"
  using assms(2,3)
proof (induction f arbitrary: a)
  case (Suc f)
  show ?case
  proof (cases "next_pad (ps ! a)")
    case (Some b)
    then have "b < a" using assms(1) Suc.prems by (simp add: pads_ok_def)
    then show ?thesis using Suc.IH [of b] Suc.prems Some by auto
  qed simp
qed simp

lemma follow_next_add:
  "follow_next ps (j + k) n = bnd (follow_next ps j n) (follow_next ps k)"
  by (induction j arbitrary: n) (simp_all add: bnd_assoc)

lemma next_pad_set: "pad_set_at h ps u i v = Inr (h', ps') \<Longrightarrow>
    length ps' = length ps \<and> map next_pad ps' = map next_pad ps"
  by (auto simp: pad_set_at_def pad_at_def bnd_Inr_iff map_update list_update_same_conv
      split: option.splits if_splits)

lemma follow_next_cong:
  "map next_pad ps' = map next_pad ps \<Longrightarrow> follow_next ps' k n = follow_next ps k n"
proof (induction k arbitrary: n)
  case (Suc k)
  have l: "length ps' = length ps" using Suc.prems by (metis length_map)
  show ?case
  proof (cases n)
    case (Some a)
    have "next_pad (ps' ! a) = next_pad (ps ! a)" if "a < length ps"
      using Suc.prems that l by (metis nth_map)
    then show ?thesis using Suc l Some by (simp add: pad_at_def)
  qed (simp add: pad_at_def)
qed simp

lemma pad_upper_cong:
  assumes "map next_pad ps' = map next_pad ps"
  shows "pad_upper ps' a level = pad_upper ps a level"
proof (cases a)
  case (Some b)
  have l: "length ps' = length ps" using assms by (metis length_map)
  have "next_pad (ps' ! b) = next_pad (ps ! b)" if "b < length ps"
    using assms that l by (metis nth_map)
  then show ?thesis using follow_next_cong [OF assms] l Some by (simp add: pad_upper_def pad_at_def)
qed (simp add: pad_upper_def pad_at_def)

lemma follow_next_Some_valid:
  "pads_ok ps \<Longrightarrow> (\<And>b. n = Some b \<Longrightarrow> b < length ps) \<Longrightarrow> follow_next ps k n = Inr (Some u) \<Longrightarrow> u < length ps"
proof (induction k arbitrary: n)
  case (Suc k)
  then obtain a where a: "n = Some a" "a < length ps" by (cases n) (auto simp: pad_at_def)
  have "follow_next ps k (next_pad (ps ! a)) = Inr (Some u)" using Suc.prems(3) a by (simp add: pad_at_def)
  moreover have "b < length ps" if "next_pad (ps ! a) = Some b" for b
    using Suc.prems(1) a that by (force simp: pads_ok_def)
  ultimately show ?case using Suc.IH Suc.prems(1) by blast
qed simp

lemma pad_upper_valid:
  assumes "pads_ok ps" "pad_upper ps a level = Inr (Some u)"
  shows "u < length ps"
proof -
  obtain b where b: "a = Some b" "b < length ps"
    using assms(2) by (cases a) (auto simp: pad_upper_def pad_at_def split: if_splits)
  then have "follow_next ps (nat (sint level - 1)) (next_pad (ps ! b)) = Inr (Some u)"
    using assms(2) by (simp add: pad_upper_def pad_at_def)
  moreover have "c < length ps" if "next_pad (ps ! b) = Some c" for c
    using assms(1) b that by (force simp: pads_ok_def)
  ultimately show ?thesis using follow_next_Some_valid assms(1) by blast
qed

lemma pad_set_at_Inr:
  assumes "pad_set_at h ps (Some u) i v = Inr (h', ps')"
  obtains xs where "u < length ps" "pad_set h (pad_vars (ps ! u)) i v = Inr (h', xs)"
    "ps' = ps[u := (ps ! u)\<lparr>pad_vars := xs\<rparr>]"
  using assms that by (auto simp: pad_set_at_def pad_at_def bnd_Inr_iff split: if_splits)

definition follow_spec :: "pads \<Rightarrow> nat \<Rightarrow> nat \<Rightarrow> nat \<Rightarrow> nat option val_result \<Rightarrow> bool" where
  "follow_spec ps n k a r = (if k < n then \<exists>b. r = Inr (Some b) \<and> (0 < k \<longrightarrow> b < a) \<and> b \<le> a
     else if k = n then r = Inr None else r = Inl Undefined)"

lemma follow_next_chain:
  assumes "pads_ok ps" "a < length ps" "a < f" "chain_length f ps (Some a) = Some n"
  shows "follow_spec ps n k a (follow_next ps k (Some a))"
  using assms(2-4)
proof (induction f arbitrary: a n k)
  case (Suc f)
  show ?case
  proof (cases k)
    case 0
    have "0 < n" using Suc.prems(3) by auto
    then show ?thesis using 0 by (simp add: follow_spec_def)
  next
    case k: (Suc j)
    show ?thesis
    proof (cases "next_pad (ps ! a)")
      case None
      then have "n = Suc 0" using Suc.prems by simp
      then show ?thesis using Suc.prems(1) k None by (cases j) (simp_all add: follow_spec_def pad_at_def)
    next
      case (Some b)
      then have "b < a" using assms(1) Suc.prems by (simp add: pads_ok_def)
      moreover obtain m where m: "n = Suc m" "chain_length f ps (Some b) = Some m"
        using Suc.prems(3) Some by auto
      ultimately have "follow_spec ps m j b (follow_next ps j (Some b))"
        using Suc.IH [of b m j] Suc.prems by simp
      then show ?thesis using Suc.prems k Some m \<open>b < a\<close>
        by (auto simp: follow_spec_def pad_at_def split: if_splits)
    qed
  qed
qed simp

subsection \<open>Properties\<close>

text \<open>An assignment to an outer variable is seen by every scope from which the same pad is
  reached, at whatever distance; the other variables of that pad, all other pads and the
  chains themselves are unchanged.\<close>

theorem pad_set_dynamic_get_dynamic:
  assumes "pads_ok ps" "pad_upper ps a level = Inr (Some u)"
    and "0 \<le> sint i" "sint i + 1 < 2 ^ 31" "deref h v = Inr x"
    and "length (pad_vars (ps ! u)) < 2 ^ 31" "live h (pad_vars (ps ! u))"
    and "pad_set_dynamic h ps a level i v = Inr (h', ps')"
    and "pad_upper ps b level' = Inr (Some u)" "0 \<le> sint j"
  shows "observe h' (pad_get_dynamic ps' b level' j) =
      (if j = i then Inr x else observe h (pad_get_dynamic ps b level' j))
    \<and> (\<forall>w. w \<noteq> u \<longrightarrow> ps' ! w = ps ! w) \<and> map next_pad ps' = map next_pad ps"
proof -
  have s: "pad_set_at h ps (Some u) i v = Inr (h', ps')"
    using assms(2,8) by (simp add: pad_set_dynamic_def)
  then obtain xs where u: "u < length ps" and xs: "pad_set h (pad_vars (ps ! u)) i v = Inr (h', xs)"
    and ps': "ps' = ps[u := (ps ! u)\<lparr>pad_vars := xs\<rparr>]" by (rule pad_set_at_Inr)
  have nx: "map next_pad ps' = map next_pad ps" using next_pad_set [OF s] by blast
  have up: "pad_upper ps' b level' = Inr (Some u)" using assms(9) pad_upper_cong [OF nx] by simp
  have "observe h' (pad_get xs j) = (if j = i then Inr x else observe h (pad_get (pad_vars (ps ! u)) j))"
    by (rule padv.get_put [OF assms(3,4,10,6,7,5) xs])
  then have "observe h' (pad_get_dynamic ps' b level' j) =
      (if j = i then Inr x else observe h (pad_get_dynamic ps b level' j))"
    using up assms(9) u by (simp add: pad_get_dynamic_def pad_get_at_def pad_at_def ps')
  then show ?thesis using nx by (simp add: ps')
qed

text \<open>Three pads in a chain, as the tests of the program build them.\<close>

definition three_pads :: pads where
  "three_pads = [\<lparr>pad_vars = [Some 0], next_pad = None\<rparr>, \<lparr>pad_vars = [], next_pad = Some 0\<rparr>,
     \<lparr>pad_vars = [], next_pad = Some 1\<rparr>]"

lemma three_pads_ok: "pads_ok three_pads"
  by (auto simp: pads_ok_def three_pads_def less_Suc_eq)

lemma three_pads_upper:
  "pad_upper three_pads (Some 2) 2 = Inr (Some 0)" "pad_upper three_pads (Some 1) 1 = Inr (Some 0)"
  by code_simp+

lemma three_pads_set: "pad_set_dynamic [IntValue 5, IntValue 9] three_pads (Some 2) 2 1 (Some 1) =
    Inr ([IntValue 5, IntValue 9], three_pads[0 := \<lparr>pad_vars = [Some 0, Some 1], next_pad = None\<rparr>])"
  by code_simp

theorem pad_set_dynamic_get_dynamic_witness:
  "\<exists>h' ps'. pad_set_dynamic [IntValue 5, IntValue 9] three_pads (Some 2) 2 1 (Some 1) = Inr (h', ps') \<and>
     observe h' (pad_get_dynamic ps' (Some 1) 1 1) = Inr (IntValue 9)"
proof -
  let ?h = "[IntValue 5, IntValue 9]" and ?ps = "three_pads[0 := \<lparr>pad_vars = [Some 0, Some 1], next_pad = None\<rparr>]"
  have v: "deref ?h (Some 1) = Inr (IntValue 9)" by simp
  have l: "length (pad_vars (three_pads ! 0)) < 2 ^ 31" "live ?h (pad_vars (three_pads ! 0))"
    by (simp_all add: three_pads_def live_def)
  have i: "0 \<le> sint (1 :: i32)" "sint (1 :: i32) + 1 < 2 ^ 31" by simp_all
  have "observe ?h (pad_get_dynamic ?ps (Some 1) 1 1) = Inr (IntValue 9)"
    using pad_set_dynamic_get_dynamic [OF three_pads_ok three_pads_upper(1) i v l three_pads_set
        three_pads_upper(2) i(1)] by simp
  then show ?thesis using three_pads_set by blast
qed

text \<open>A chain ends: \<open>PadList::size\<close> returns, and \<open>upper\<close> finds a pad for every level below
  the size, null at the size itself, and follows null (undefined behaviour) beyond it.\<close>

theorem pad_size_upper:
  assumes "pads_ok ps" "a < length ps"
  shows "\<exists>n. pad_size ps a = Some n \<and> 0 < n \<and> n \<le> length ps \<and>
    (\<forall>level. 1 \<le> sint level \<longrightarrow>
       (if nat (sint level) < n then \<exists>b. pad_upper ps (Some a) level = Inr (Some b) \<and> b < a
        else if nat (sint level) = n then pad_upper ps (Some a) level = Inr None
        else pad_upper ps (Some a) level = Inl Undefined))"
proof -
  obtain n where n: "pad_size ps a = Some n" "0 < n" "n \<le> Suc a"
    using chain_length_ok [OF assms, of "length ps"] assms(2) unfolding pad_size_def by auto
  have "if nat (sint level) < n then \<exists>b. pad_upper ps (Some a) level = Inr (Some b) \<and> b < a
        else if nat (sint level) = n then pad_upper ps (Some a) level = Inr None
        else pad_upper ps (Some a) level = Inl Undefined" if "1 \<le> sint level" for level
  proof -
    define k where "k = nat (sint level - 1)"
    have k: "nat (sint level) = Suc k" "nat (sint level - 1) = k"
      unfolding k_def using that by linarith+
    have "pad_upper ps (Some a) level = follow_next ps (Suc k) (Some a)"
      using assms(2) k by (simp add: pad_upper_def pad_at_def)
    moreover have "follow_spec ps n (Suc k) a (follow_next ps (Suc k) (Some a))"
      by (rule follow_next_chain [OF assms assms(2)]) (use n(1) in \<open>simp add: pad_size_def\<close>)
    ultimately show ?thesis unfolding k(1) by (auto simp: follow_spec_def split: if_splits)
  qed
  moreover have "n \<le> length ps" using n(3) assms(2) by simp
  ultimately show ?thesis using n(1,2) by (intro exI [of _ n] conjI allI impI)
qed

theorem pad_size_upper_witness: "pad_upper three_pads (Some 2) 3 = Inr None"
proof -
  have "2 < length three_pads" by (simp add: three_pads_def)
  from pad_size_upper [OF three_pads_ok this] obtain n where n: "pad_size three_pads 2 = Some n" and
    u: "\<And>level. 1 \<le> sint level \<Longrightarrow> nat (sint level) = n \<Longrightarrow> pad_upper three_pads (Some 2) level = Inr None"
    by (metis less_irrefl)
  have "pad_size three_pads 2 = Some 3" by code_simp
  then show ?thesis using n u [of 3] by simp
qed

end
