(* ===== verification/Tora_Vm.thy ===== *)
theory Tora_Vm
  imports Tora_Operator Tora_Class Tora_Pad
begin

text \<open>
  The virtual machine (\<open>tora/vm.h\<close>, \<open>tora/vm.cc\<close>) and its instructions (\<open>vm.inc\<close>): one record
  for its state, one definition per instruction, the unwinding of frames by an exception and
  the loop that \<open>tora/vm.gen.pl\<close> generates. The stack, the frame stack and the mark stack
  are lists that grow at the end. Assertions and the checks under \<open>#ifndef NDEBUG\<close> are
  active; \<open>PERLISH_CLOSURE\<close> is not defined.
\<close>

subsection \<open>State (tora/vm.h)\<close>

text \<open>
  File scopes are shared between the machine, its map of loaded packages and file package
  values, so they live in a store \<open>scopes\<close>, and \<open>file_scope\<close> is the address of the current one.
\<close>

record vm =
  heap :: heap
  pads :: pads
  klass :: ptr
  file_scope :: nat
  scopes :: "(ID \<times> ptr) list list"
  file_scope_map :: "(ID \<times> nat) list"
  builtin_classes :: "(ID \<times> ptr) list"
  builtin_functions :: "(ID \<times> ptr) list"
  pc :: int
  vm_ops :: op_array
  global_vars :: "ptr list"
  symbol_table :: symtab
  stack :: "ptr list"
  frame_stack :: "frame list"
  mark_stack :: "int list"

text \<open>A machine operation throws a value together with the state it leaves.\<close>

type_synonym 'a vm_result = "(vm \<times> ptr, 'a) result"

text \<open>
  What is not in the source: the functions native code values name, \<open>pow\<close> of \<open>math.h\<close>,
  \<open>stat\<close> (mode and size), the reference count of a cell, and the loading of a package file.
\<close>

record host =
  native :: "nat \<Rightarrow> vm \<Rightarrow> ptr list \<Rightarrow> (vm \<times> ptr) vm_result option"
  host_pow :: "dbl \<Rightarrow> dbl \<Rightarrow> dbl"
  file_stat :: "string \<Rightarrow> (i32 \<times> i32) option"
  refcnt :: "vm \<Rightarrow> ptr \<Rightarrow> nat"
  use_package :: "vm \<Rightarrow> ptr \<Rightarrow> bool \<Rightarrow> vm vm_result option"

text \<open>Optional results: \<open>None\<close> means that the fuel of a nested run was too small.\<close>

definition obnd :: "('x, 'a) result option \<Rightarrow> ('a \<Rightarrow> ('x, 'b) result option) \<Rightarrow> ('x, 'b) result option" where
  "obnd m f = (case m of None \<Rightarrow> None | Some (Inl e) \<Rightarrow> Some (Inl e) | Some (Inr a) \<Rightarrow> f a)"

lemma obnd_simps [simp]:
  "obnd None f = None" "obnd (Some (Inl e)) f = Some (Inl e)" "obnd (Some (Inr a)) f = f a"
  by (simp_all add: obnd_def)

subsection \<open>Stack, frames and values\<close>

definition vm_throw :: "vm \<Rightarrow> obj \<Rightarrow> 'a vm_result" where
  "vm_throw s x = (let (h, a) = alloc x (heap s) in Inl (Raise (s\<lparr>heap := h\<rparr>, Some a)))"

definition lift_val :: "vm \<Rightarrow> 'a val_result \<Rightarrow> 'a vm_result" where
  "lift_val s r = (case r of
       Inr a \<Rightarrow> Inr a
     | Inl (Raise x) \<Rightarrow> vm_throw s x
     | Inl Abort \<Rightarrow> Inl Abort
     | Inl Undefined \<Rightarrow> Inl Undefined
     | Inl Std_exception \<Rightarrow> Inl Std_exception
     | Inl Exit \<Rightarrow> Inl Exit)"

text \<open>\<open>VM::die(format, ...)\<close> throws a string.\<close>

definition vm_die :: "vm \<Rightarrow> string \<Rightarrow> 'a vm_result" where
  "vm_die s msg = vm_throw s (StrValue (take 4095 msg))"

definition vm_deref :: "vm \<Rightarrow> ptr \<Rightarrow> obj vm_result" where
  "vm_deref s p = lift_val s (deref (heap s) p)"

definition push :: "ptr \<Rightarrow> vm \<Rightarrow> vm" where
  "push p s = s\<lparr>stack := stack s @ [p]\<rparr>"

definition push_new :: "obj \<Rightarrow> vm \<Rightarrow> vm" where
  "push_new x s = (let (h, a) = alloc x (heap s) in push (Some a) (s\<lparr>heap := h\<rparr>))"

definition stack_top :: "vm \<Rightarrow> ptr vm_result" where
  "stack_top s = (if stack s = [] then Inl Undefined else Inr (last (stack s)))"

definition pop :: "vm \<Rightarrow> (ptr \<times> vm) vm_result" where
  "pop s = (if stack s = [] then Inl Undefined
     else Inr (last (stack s), s\<lparr>stack := butlast (stack s)\<rparr>))"

fun pop_n :: "nat \<Rightarrow> vm \<Rightarrow> (ptr list \<times> vm) vm_result" where
  "pop_n 0 s = Inr ([], s)"
| "pop_n (Suc n) s = bnd (pop s) (\<lambda>(p, s1). bnd (pop_n n s1) (\<lambda>(ps, s2). Inr (p # ps, s2)))"

definition set_top :: "ptr \<Rightarrow> vm \<Rightarrow> vm" where
  "set_top p s = s\<lparr>stack := butlast (stack s) @ [p]\<rparr>"

definition set_top_new :: "obj \<Rightarrow> vm \<Rightarrow> vm" where
  "set_top_new x s = (let (h, a) = alloc x (heap s) in set_top (Some a) (s\<lparr>heap := h\<rparr>))"

definition resize_stack :: "nat \<Rightarrow> vm \<Rightarrow> vm" where
  "resize_stack n s = s\<lparr>stack := vresize n (stack s)\<rparr>"

definition frame_top :: "vm \<Rightarrow> frame vm_result" where
  "frame_top s = (if frame_stack s = [] then Inl Undefined else Inr (last (frame_stack s)))"

text \<open>The destructor of a class frame resets the current class.\<close>

definition pop_frame :: "vm \<Rightarrow> vm" where
  "pop_frame s = s\<lparr>frame_stack := butlast (frame_stack s),
     klass := (if frame_stack s \<noteq> [] \<and> frame_type (last (frame_stack s)) = FRAME_TYPE_CLASS
               then None else klass s)\<rparr>"

definition enter_frame :: "frame_type \<Rightarrow> nat \<Rightarrow> vm \<Rightarrow> frame \<times> vm" where
  "enter_frame t n s = (let (ps, f) = new_frame t n (length (stack s)) (frame_stack s) (pads s)
     in (f, s\<lparr>pads := ps\<rparr>))"

definition push_frame :: "frame \<Rightarrow> vm \<Rightarrow> vm" where
  "push_frame f s = s\<lparr>frame_stack := frame_stack s @ [f]\<rparr>"

definition vm_id2name :: "ID \<Rightarrow> vm \<Rightarrow> vm \<times> string" where
  "vm_id2name i s = (let (t, n) = id2name i (symbol_table s) in (s\<lparr>symbol_table := t\<rparr>, n))"

definition vm_get_id :: "string \<Rightarrow> vm \<Rightarrow> vm \<times> ID" where
  "vm_get_id n s = (let (t, i) = get_id n (symbol_table s) in (s\<lparr>symbol_table := t\<rparr>, i))"

definition current_scope :: "vm \<Rightarrow> (ID \<times> ptr) list" where
  "current_scope s = scopes s ! file_scope s"

text \<open>\<open>file_scope_->insert\<close> keeps a name that is already defined.\<close>

definition scope_insert :: "ID \<Rightarrow> ptr \<Rightarrow> vm \<Rightarrow> vm" where
  "scope_insert i p s = s\<lparr>scopes := (scopes s)[file_scope s := map_insert i p (current_scope s)]\<rparr>"

definition vm_add_function :: "ptr \<Rightarrow> vm \<Rightarrow> vm vm_result" where
  "vm_add_function p s = bnd (lift_val s (as_code (heap s) p)) (\<lambda>c.
     Inr (scope_insert (func_name_id c) p s))"

text \<open>The operand of the current instruction.\<close>

definition cur_op :: "vm \<Rightarrow> op vm_result" where
  "cur_op s = (if 0 \<le> pc s then op_at (vm_ops s) (nat (pc s)) else Inl Undefined)"

definition get_int_operand :: "vm \<Rightarrow> i32 vm_result" where
  "get_int_operand s = bnd (cur_op s) int_operand"

text \<open>A read that makes a new undef where nothing is stored.\<close>

definition push_read :: "ptr option val_result \<Rightarrow> vm \<Rightarrow> vm vm_result" where
  "push_read r s = bnd (lift_val s r) (\<lambda>q.
     Inr (case q of None \<Rightarrow> push_new UndefValue s | Some p \<Rightarrow> push p s))"

text \<open>An assigned tuple stands for its last element; \<open>at(-1)\<close> of an empty one throws.\<close>

definition assigned_value :: "vm \<Rightarrow> ptr \<Rightarrow> ptr vm_result" where
  "assigned_value s p = bnd (vm_deref s p) (\<lambda>x. case x of
       TupleValue ps \<Rightarrow> if ps = [] then Inl Std_exception else Inr (last ps)
     | _ \<Rightarrow> Inr p)"

definition write_pads :: "(heap \<times> pads) val_result \<Rightarrow> vm \<Rightarrow> vm vm_result" where
  "write_pads r s = bnd (lift_val s r) (\<lambda>(h, ps). Inr (s\<lparr>heap := h, pads := ps\<rparr>))"

text \<open>\<open>VM::extract_tuple\<close>; a tuple is an array with another type tag.\<close>

definition elements :: "vm \<Rightarrow> ptr \<Rightarrow> ptr list vm_result" where
  "elements s p = bnd (vm_deref s p) (\<lambda>x. case x of
       TupleValue ps \<Rightarrow> Inr ps | ArrayValue ps \<Rightarrow> Inr ps | _ \<Rightarrow> Inl Undefined)"

definition extract_tuple :: "ptr list \<Rightarrow> vm \<Rightarrow> vm" where
  "extract_tuple ps s = s\<lparr>stack := stack s @ ps\<rparr>"

end
