(* ===== verification/Tora_Vm_Ops.thy ===== *)
theory Tora_Vm_Ops
  imports Tora_Vm
begin

text \<open>
  The instructions of \<open>vm.inc\<close> that do not call code, one definition per instruction or group
  of instructions with one body. Calls are in \<open>Tora_Vm_Call\<close>.
\<close>

subsection \<open>Pushing and variables\<close>

definition get_self :: "vm \<Rightarrow> vm vm_result" where
  "get_self s = (case find (\<lambda>f. frame_type f = FRAME_TYPE_FUNCTION) (rev (frame_stack s)) of
       Some f \<Rightarrow> Inr (if self f \<noteq> None then push (self f) s else push_new UndefValue s)
     | None \<Rightarrow> vm_throw s (exception_value ''Cannot call 'self' method out of method.''))"

definition pp_push_int :: "vm \<Rightarrow> vm vm_result" where
  "pp_push_int s = bnd (get_int_operand s) (\<lambda>i. Inr (push_new (IntValue i) s))"

definition pp_push_double :: "vm \<Rightarrow> vm vm_result" where
  "pp_push_double s = bnd (cur_op s) (\<lambda>o'. case operand o' of
       DoubleOperand d \<Rightarrow> Inr (push_new (DoubleValue d) s) | _ \<Rightarrow> Inl Undefined)"

text \<open>\<open>OP_PUSH_STRING\<close> and \<open>OP_PUSH_VALUE\<close> push the value of the instruction itself.\<close>

definition pp_push_value :: "vm \<Rightarrow> vm vm_result" where
  "pp_push_value s = bnd (cur_op s) (\<lambda>o'. Inr (push (op_value o') s))"

definition mark_top :: "vm \<Rightarrow> int vm_result" where
  "mark_top s = (if mark_stack s = [] then Inl Undefined else Inr (last (mark_stack s)))"

definition pp_getarg :: "vm \<Rightarrow> vm vm_result" where
  "pp_getarg s = bnd (get_int_operand s) (\<lambda>no. bnd (mark_top s) (\<lambda>m.
     let index = m - sint no - 1
     in if 0 \<le> index \<and> index < int (length (stack s)) then Inr (push (stack s ! nat index) s)
        else Inl Abort))"

definition pp_setarg :: "vm \<Rightarrow> vm vm_result" where
  "pp_setarg s = bnd (get_int_operand s) (\<lambda>no. bnd (stack_top s) (\<lambda>p.
     bnd (assigned_value s p) (\<lambda>v. bnd (mark_top s) (\<lambda>m.
     let index = m - sint no - 1
     in if 0 \<le> index \<and> index < int (length (stack s))
        then Inr (s\<lparr>stack := (stack s)[nat index := v]\<rparr>) else Inl Undefined))))"

definition int_cell :: "vm \<Rightarrow> ptr \<Rightarrow> (ptr \<times> vm) vm_result" where
  "int_cell s p = bnd (vm_deref s p) (\<lambda>x. case x of
       IntValue _ \<Rightarrow> Inr (p, s)
     | _ \<Rightarrow> bnd (lift_val s (to_int (heap s) x)) (\<lambda>i.
         let (h, a) = alloc (IntValue i) (heap s) in Inr (Some a, s\<lparr>heap := h\<rparr>)))"

definition pp_new_range :: "vm \<Rightarrow> vm vm_result" where
  "pp_new_range s = bnd (pop s) (\<lambda>(l, s1). bnd (pop s1) (\<lambda>(r, s2).
     bnd (int_cell s2 l) (\<lambda>(l2, s3). bnd (int_cell s3 r) (\<lambda>(r2, s4).
     Inr (push_new (RangeValue l2 r2) s4)))))"

definition define_function :: "ptr \<Rightarrow> vm \<Rightarrow> vm vm_result" where
  "define_function p s =
     (if klass s \<noteq> None then
        bnd (lift_val s (add_method (heap s) (klass s) p)) (\<lambda>h. Inr (s\<lparr>heap := h\<rparr>))
      else vm_add_function p s)"

definition pp_funcdef :: "vm \<Rightarrow> vm vm_result" where
  "pp_funcdef s = bnd (stack_top s) (\<lambda>p. bnd (vm_deref s p) (\<lambda>x. case x of
       CodeValue _ \<Rightarrow> define_function p s | _ \<Rightarrow> Inl Abort))"

definition pp_closuredef :: "vm \<Rightarrow> vm vm_result" where
  "pp_closuredef s = bnd (stack_top s) (\<lambda>p. bnd (vm_deref s p) (\<lambda>x. case x of
       CodeValue c \<Rightarrow> bnd (frame_top s) (\<lambda>f.
         define_function p (s\<lparr>heap := store p (CodeValue (c\<lparr>pad_list := Some (frame_pad f)\<rparr>)) (heap s)\<rparr>))
     | _ \<Rightarrow> Inl Abort))"

definition pp_getclosure :: "vm \<Rightarrow> vm vm_result" where
  "pp_getclosure s = (case find (\<lambda>f. frame_type f = FRAME_TYPE_FUNCTION) (rev (frame_stack s)) of
       None \<Rightarrow> Inl Abort
     | Some f \<Rightarrow> if frame_code f = None then Inl Abort
         else bnd (lift_val s (as_code (heap s) (frame_code f))) (\<lambda>c.
           if func_name_id c = 0 then Inl Abort
           else bnd (get_int_operand s) (\<lambda>i. let level = int_high i; no = int_low i
             in if pad_list c = None then Inl Abort
                else if level = 1 then push_read (pad_get_at (pads s) (pad_list c) no) s
                else push_read (pad_get_dynamic (pads s) (pad_list c) (level - 1) no) s)))"

text \<open>\<open>OP_SETCLOSURE\<close> searches the frame stack from its beginning.\<close>

definition pp_setclosure :: "vm \<Rightarrow> vm vm_result" where
  "pp_setclosure s = (case find (\<lambda>f. frame_type f = FRAME_TYPE_FUNCTION) (frame_stack s) of
       None \<Rightarrow> Inl Abort
     | Some f \<Rightarrow> bnd (stack_top s) (\<lambda>v. bnd (get_int_operand s) (\<lambda>i.
         let level = int_high i; no = int_low i
         in bnd (lift_val s (as_code (heap s) (frame_code f))) (\<lambda>c.
           if level = 1 then write_pads (pad_set_at (heap s) (pads s) (pad_list c) no v) s
           else write_pads (pad_set_dynamic (heap s) (pads s) (pad_list c) (level - 1) no v) s))))"

definition pp_setlocal :: "vm \<Rightarrow> vm vm_result" where
  "pp_setlocal s = bnd (stack_top s) (\<lambda>p. bnd (assigned_value s p) (\<lambda>v.
     bnd (frame_top s) (\<lambda>f. bnd (get_int_operand s) (\<lambda>i.
     write_pads (frame_set_variable (heap s) (pads s) f i v) s))))"

definition pp_setdynamic :: "vm \<Rightarrow> vm vm_result" where
  "pp_setdynamic s = bnd (get_int_operand s) (\<lambda>i. bnd (stack_top s) (\<lambda>p.
     bnd (assigned_value s p) (\<lambda>v. bnd (frame_top s) (\<lambda>f.
     write_pads (frame_set_variable_dynamic (heap s) (pads s) f (int_high i) (int_low i) v) s))))"

definition pp_getdynamic :: "vm \<Rightarrow> vm vm_result" where
  "pp_getdynamic s = bnd (get_int_operand s) (\<lambda>i. bnd (frame_top s) (\<lambda>f.
     push_read (frame_get_variable_dynamic (pads s) f (int_high i) (int_low i)) s))"

definition pp_getlocal :: "vm \<Rightarrow> vm vm_result" where
  "pp_getlocal s = bnd (get_int_operand s) (\<lambda>i. bnd (frame_top s) (\<lambda>f.
     push_read (frame_get_variable (pads s) f i) s))"

definition pp_getglobal :: "vm \<Rightarrow> vm vm_result" where
  "pp_getglobal s = bnd (get_int_operand s) (\<lambda>i. bnd (vec_at (sint i) (global_vars s)) (\<lambda>p.
     Inr (push p s)))"

subsection \<open>Operators\<close>

definition binop :: "(heap \<Rightarrow> ptr \<Rightarrow> ptr \<Rightarrow> obj val_result) \<Rightarrow> vm \<Rightarrow> vm vm_result" where
  "binop meth s = bnd (pop s) (\<lambda>(rhs, s1). bnd (stack_top s1) (\<lambda>lhs.
     bnd (lift_val s1 (meth (heap s1) lhs rhs)) (\<lambda>ret. Inr (set_top_new ret s1))))"

definition arith :: "(dbl \<Rightarrow> dbl \<Rightarrow> dbl) \<Rightarrow> arith_op \<Rightarrow> heap \<Rightarrow> ptr \<Rightarrow> ptr \<Rightarrow> obj val_result" where
  "arith pow o' = (case o' of I_ADD \<Rightarrow> op_add | I_SUB \<Rightarrow> op_sub | I_DIV \<Rightarrow> op_div | I_MUL \<Rightarrow> op_mul
     | I_POW \<Rightarrow> op_pow pow | I_BITAND \<Rightarrow> op_bitand | I_BITOR \<Rightarrow> op_bitor | I_BITXOR \<Rightarrow> op_bitxor
     | I_BITLSHIFT \<Rightarrow> op_bitlshift | I_BITRSHIFT \<Rightarrow> op_bitrshift | I_MOD \<Rightarrow> op_modulo)"

fun comparison_of :: "compare_op \<Rightarrow> comparison" where
  "comparison_of I_EQ = Equal_to"
| "comparison_of I_NE = Not_equal_to"
| "comparison_of I_GT = Greater"
| "comparison_of I_LT = Less"
| "comparison_of I_GE = Greater_equal"
| "comparison_of I_LE = Less_equal"

text \<open>The left operand of a comparison is the top of the stack.\<close>

definition pp_compare :: "compare_op \<Rightarrow> vm \<Rightarrow> vm vm_result" where
  "pp_compare o' s = bnd (pop s) (\<lambda>(lhs, s1). bnd (stack_top s1) (\<lambda>rhs.
     bnd (lift_val s1 (cmpop (comparison_of o') (heap s1) lhs rhs)) (\<lambda>b.
     Inr (set_top_new (BoolValue b) s1))))"

definition pp_unary_negative :: "vm \<Rightarrow> vm vm_result" where
  "pp_unary_negative s = bnd (stack_top s) (\<lambda>v. bnd (lift_val s (op_unary_negative (heap s) v)) (\<lambda>ret.
     Inr (set_top_new ret s)))"

definition pp_not :: "vm \<Rightarrow> vm vm_result" where
  "pp_not s = bnd (pop s) (\<lambda>(v, s1). bnd (vm_deref s1 v) (\<lambda>x.
     Inr (push_new (BoolValue (\<not> to_bool x)) s1)))"

subsection \<open>Containers\<close>

fun make_hash :: "nat \<Rightarrow> hash \<Rightarrow> vm \<Rightarrow> (hash \<times> vm) vm_result" where
  "make_hash 0 m s = Inr (m, s)"
| "make_hash (Suc n) m s = bnd (stack_top s) (\<lambda>kp. bnd (lift_val s (to_s_at (heap s) kp)) (\<lambda>k.
     bnd (pop s) (\<lambda>(_, s1). bnd (pop s1) (\<lambda>(v, s2). make_hash n (hash_set k v m) s2))))"

text \<open>The loop runs for \<open>i = 0, 2, ...\<close> below the operand.\<close>

definition pp_make_hash :: "vm \<Rightarrow> vm vm_result" where
  "pp_make_hash s = bnd (get_int_operand s) (\<lambda>size.
     bnd (make_hash (nat ((sint size + 1) div 2)) [] s) (\<lambda>(m, s'). Inr (push_new (HashValue m) s')))"

definition pp_make_array :: "vm \<Rightarrow> vm vm_result" where
  "pp_make_array s = bnd (get_int_operand s) (\<lambda>n. bnd (pop_n (nat (sint n)) s) (\<lambda>(ps, s').
     Inr (push_new (ArrayValue ps) s')))"

definition pp_make_tuple :: "vm \<Rightarrow> vm vm_result" where
  "pp_make_tuple s = bnd (get_int_operand s) (\<lambda>n. bnd (pop_n (nat (sint n)) s) (\<lambda>(ps, s').
     Inr (push_new (TupleValue ps) s')))"

definition pp_extract_tuple :: "vm \<Rightarrow> vm vm_result" where
  "pp_extract_tuple s = bnd (pop s) (\<lambda>(p, s1). bnd (elements s1 p) (\<lambda>ps. Inr (extract_tuple ps s1)))"

definition pp_extract_array :: "vm \<Rightarrow> vm vm_result" where
  "pp_extract_array s = bnd (stack_top s) (\<lambda>p. bnd (vm_deref s p) (\<lambda>x. case x of
       ArrayValue ps \<Rightarrow> Inr (set_top_new (TupleValue (array_reverse ps)) s)
     | _ \<Rightarrow> lift_val s (throw_type ''You cannot extract '' x
         '' by '*' operator. You can only extract Array.'')))"

definition pp_deref :: "vm \<Rightarrow> vm vm_result" where
  "pp_deref s = bnd (stack_top s) (\<lambda>p. bnd (vm_deref s p) (\<lambda>x. case x of
       ObjectValue _ d _ \<Rightarrow> Inr (set_top d s)
     | _ \<Rightarrow> vm_throw s (exception_value ''You cannot dereference no object value.'')))"

subsection \<open>Increment and decrement\<close>

text \<open>The integer object itself changes; the postfix forms leave a copy of the old value.\<close>

definition pp_step_int :: "bool \<Rightarrow> i32 \<Rightarrow> string \<Rightarrow> vm \<Rightarrow> vm vm_result" where
  "pp_step_int postfix delta msg s = bnd (pop s) (\<lambda>(p, s1). bnd (vm_deref s1 p) (\<lambda>x. case x of
       IntValue i \<Rightarrow>
         (let s2 = s1\<lparr>heap := store p (IntValue (i + delta)) (heap s1)\<rparr>
          in Inr (if postfix then push_new (IntValue i) s2 else push p s2))
     | _ \<Rightarrow> bnd (lift_val s1 (type_str x)) (\<lambda>t. vm_die s1 (t @ msg))))"

definition pp_pre_increment :: "vm \<Rightarrow> vm vm_result" where
  "pp_pre_increment = pp_step_int False 1 '' does not supports increment operator.\<newline>''"

definition pp_post_increment :: "vm \<Rightarrow> vm vm_result" where
  "pp_post_increment = pp_step_int True 1 '' does not supports post increment operator.\<newline>''"

definition pp_pre_decrement :: "vm \<Rightarrow> vm vm_result" where
  "pp_pre_decrement = pp_step_int False (-1) '' does not supports decrement operator.\<newline>''"

definition pp_post_decrement :: "vm \<Rightarrow> vm vm_result" where
  "pp_post_decrement = pp_step_int True (-1) '' does not supports post decrement operator.\<newline>''"

subsection \<open>File tests\<close>

definition S_IFREG :: i32 where "S_IFREG = 0x8000"
definition S_IFDIR :: i32 where "S_IFDIR = 0x4000"
definition S_IXUSR :: i32 where "S_IXUSR = 0x40"

text \<open>The operand is the letter of the test; the bits are tested with \<open>&\<close>, not compared.\<close>

definition file_test :: "(i32 \<times> i32) option \<Rightarrow> i32 \<Rightarrow> obj vm_result" where
  "file_test st c =
     (let has = (\<lambda>bit. case st of Some (mode, _) \<Rightarrow> mode AND bit \<noteq> 0 | None \<Rightarrow> False)
      in if c = 102 then Inr (BoolValue (has S_IFREG))
         else if c = 100 then Inr (BoolValue (has S_IFDIR))
         else if c = 120 then Inr (BoolValue (has S_IXUSR))
         else if c = 101 then Inr (BoolValue (st \<noteq> None))
         else if c = 115 then Inr (case st of Some (_, sz) \<Rightarrow> IntValue sz | None \<Rightarrow> UndefValue)
         else Inl Abort)"

definition pp_file_test :: "host \<Rightarrow> vm \<Rightarrow> vm vm_result" where
  "pp_file_test H s = bnd (stack_top s) (\<lambda>p. bnd (lift_val s (to_s_at (heap s) p)) (\<lambda>name.
     bnd (pop s) (\<lambda>(_, s1). bnd (get_int_operand s) (\<lambda>c.
     bnd (file_test (file_stat H (c_str name)) c) (\<lambda>x. Inr (push_new x s1))))))"

subsection \<open>Jumps and frames\<close>

definition pp_jump :: "vm \<Rightarrow> vm vm_result" where
  "pp_jump s = bnd (get_int_operand s) (\<lambda>t. Inr (s\<lparr>pc := sint t - 1\<rparr>))"

definition pp_jump_if :: "bool \<Rightarrow> vm \<Rightarrow> vm vm_result" where
  "pp_jump_if b s = bnd (stack_top s) (\<lambda>p. bnd (vm_deref s p) (\<lambda>x.
     if to_bool x = b then pp_jump s else Inr s))"

definition is_stop_iteration :: "obj \<Rightarrow> bool" where
  "is_stop_iteration x = (case x of ExceptionValue t _ _ \<Rightarrow> t = EXCEPTION_TYPE_STOP_ITERATION | _ \<Rightarrow> False)"

definition pp_jump_if_stop :: "vm \<Rightarrow> vm vm_result" where
  "pp_jump_if_stop s = bnd (stack_top s) (\<lambda>p. bnd (vm_deref s p) (\<lambda>x.
     if is_stop_iteration x then pp_jump s else Inr s))"

definition pp_nextstate :: "vm \<Rightarrow> vm vm_result" where
  "pp_nextstate s = bnd (frame_top s) (\<lambda>f. Inr (resize_stack (top f) s))"

text \<open>\<open>vars(vars_cnt)\<close> with a negative count throws \<open>std::length_error\<close>.\<close>

definition pp_enter :: "frame_type \<Rightarrow> vm \<Rightarrow> vm vm_result" where
  "pp_enter t s = bnd (get_int_operand s) (\<lambda>n.
     if sint n < 0 then Inl Std_exception
     else let (f, s') = enter_frame t (nat (sint n)) s in Inr (push_frame f s'))"

definition pp_leave :: "vm \<Rightarrow> vm vm_result" where
  "pp_leave s = bnd (frame_top s) (\<lambda>f. Inr (pop_frame (resize_stack (top f) s)))"

definition is_loop_frame :: "frame \<Rightarrow> bool" where
  "is_loop_frame f = (frame_type f \<in> {FRAME_TYPE_WHILE, FRAME_TYPE_FOREACH, FRAME_TYPE_FOR})"

function leave_loop :: "vm \<Rightarrow> vm vm_result" where
  "leave_loop s = (if frame_stack s = [] then Inl Abort
     else let f = last (frame_stack s) in
       if frame_type f = FRAME_TYPE_FUNCTION \<or> frame_type f = FRAME_TYPE_TRY then Inl Abort
       else let s' = pop_frame (resize_stack (top f) s) in
         if is_loop_frame f then Inr s' else leave_loop s')"
  by pat_completeness auto
termination
  by (relation "measure (\<lambda>s. length (frame_stack s))") (auto simp: pop_frame_def resize_stack_def)

declare leave_loop.simps [simp del]

definition pp_last :: "vm \<Rightarrow> vm vm_result" where
  "pp_last s = bnd (leave_loop s) (\<lambda>s'. bnd (get_int_operand s) (\<lambda>t. Inr (s'\<lparr>pc := sint t\<rparr>)))"

definition return_value :: "vm \<Rightarrow> (ptr \<times> vm) vm_result" where
  "return_value s = bnd (if mark_stack s = [] then Inl Abort else Inr (last (mark_stack s))) (\<lambda>m.
     let (v, s1) = (if m < int (length (stack s)) then (last (stack s), s\<lparr>stack := butlast (stack s)\<rparr>)
            else let (h, a) = alloc UndefValue (heap s) in (Some a, s\<lparr>heap := h\<rparr>))
     in Inr (v, s1\<lparr>mark_stack := butlast (mark_stack s)\<rparr>))"

text \<open>\<open>stack.resize(frame->top - argcnt)\<close>: a negative size wraps and throws.\<close>

function return_from :: "ptr \<Rightarrow> vm \<Rightarrow> vm vm_result" where
  "return_from v s = (if frame_stack s = [] then Inl Abort
     else let f = last (frame_stack s) in
       if frame_type f = FRAME_TYPE_FUNCTION then
         (if int (top f) < argcnt f then Inl Std_exception
          else Inr (push v (pop_frame (resize_stack (nat (int (top f) - argcnt f))
                 (s\<lparr>pc := return_address f, vm_ops := orig_ops f\<rparr>)))))
       else if frame_type f = FRAME_TYPE_TRY then
         Inr (push v (pop_frame (resize_stack (top f) (s\<lparr>pc := return_address f\<rparr>))))
       else return_from v (pop_frame s))"
  by pat_completeness auto
termination
  by (relation "measure (\<lambda>(v, s). length (frame_stack s))") (auto simp: pop_frame_def)

declare return_from.simps [simp del]

definition pp_return :: "vm \<Rightarrow> vm vm_result" where
  "pp_return s = bnd (return_value s) (\<lambda>(v, s1). return_from v s1)"

definition pp_try :: "vm \<Rightarrow> vm vm_result" where
  "pp_try s = bnd (get_int_operand s) (\<lambda>t. let (f, s') = enter_frame FRAME_TYPE_TRY 0 s
     in Inr ((push_frame (f\<lparr>return_address := sint t - 1\<rparr>) s')
               \<lparr>mark_stack := mark_stack s @ [int (length (stack s))]\<rparr>))"

definition pp_die :: "vm \<Rightarrow> vm vm_result" where
  "pp_die s = bnd (pop s) (\<lambda>(p, s1). Inl (Raise (s1, p)))"

subsection \<open>Packages and classes\<close>

definition pp_package_enter :: "vm \<Rightarrow> vm vm_result" where
  "pp_package_enter s = (let (f, s') = enter_frame FRAME_TYPE_FILE_PACKAGE 0 s in Inr (push_frame f s'))"

definition pp_package_leave :: "vm \<Rightarrow> vm vm_result" where
  "pp_package_leave s = bnd (frame_top s) (\<lambda>f.
     if frame_type f = FRAME_TYPE_FILE_PACKAGE then Inr (pop_frame s) else Inl Abort)"

definition pp_class_enter :: "vm \<Rightarrow> vm vm_result" where
  "pp_class_enter s = bnd (get_int_operand s) (\<lambda>package_id.
     let (h, a) = alloc (new_class package_id) (heap s);
         (f, s1) = enter_frame FRAME_TYPE_CLASS 0 (s\<lparr>heap := h\<rparr>);
         s2 = (push_frame f s1)\<lparr>klass := Some a\<rparr>
     in Inr (push (Some a) (scope_insert package_id (Some a) s2)))"

definition pp_class_leave :: "vm \<Rightarrow> vm vm_result" where
  "pp_class_leave s = bnd (frame_top s) (\<lambda>f.
     if frame_type f = FRAME_TYPE_CLASS then Inr ((pop_frame s)\<lparr>klass := None\<rparr>) else Inl Abort)"

definition pp_set_parent :: "vm \<Rightarrow> vm vm_result" where
  "pp_set_parent s = bnd (get_int_operand s) (\<lambda>i. case map_of (current_scope s) i of
       None \<Rightarrow> (let (s1, n) = vm_id2name i s in vm_throw s1
         (exception_value (''There is no class named '' @ c_str n @ ''.'')))
     | Some super \<Rightarrow> bnd (lift_val s (as_class (heap s) super)) (\<lambda>(sn, _, _).
         bnd (lift_val s (as_class (heap s) (klass s))) (\<lambda>(kn, _, _).
           if sn = kn then vm_throw s (exception_value ''You cannot make itself as superclass.'')
           else bnd (lift_val s (set_superclass (heap s) (klass s) super)) (\<lambda>h. Inr (s\<lparr>heap := h\<rparr>)))))"

end
