(* ===== verification/Tora_Vm_Call.thy ===== *)
theory Tora_Vm_Call
  imports Tora_Vm_Ops
begin

text \<open>
  The instructions that call code, the iteration of foreach, the unwinding of frames by an
  exception and the main loop: \<open>vm.inc\<close>, \<open>tora/vm.cc\<close> and the loop of \<open>tora/vm.gen.pl\<close>.
  Several of them run the machine recursively (\<open>function_call_ex\<close>, default arguments), so they
  take the nested run as the parameter \<open>ex\<close>; \<open>execute\<close> ties the knot with fuel.
\<close>

type_synonym runner = "vm \<Rightarrow> vm vm_result option"

abbreviation ret :: "'a vm_result \<Rightarrow> 'a vm_result option" where
  "ret \<equiv> Some"

subsection \<open>Native functions (VM::call_native_func)\<close>

definition arity_error :: "nat \<Rightarrow> nat \<Rightarrow> vm \<Rightarrow> 'a vm_result" where
  "arity_error wanted n s = vm_throw s (exception_value
     (''ArgumentException: The method requires '' @ show_nat wanted @ '' arguments but you passed '' @
      show_nat n @ ''.''))"

text \<open>The assertion on the value a native returns: no exception, but the end of an iteration
  is allowed where \<open>stop\<close> says so.\<close>

definition push_native_result :: "bool \<Rightarrow> vm \<times> ptr \<Rightarrow> vm vm_result" where
  "push_native_result stop r = (case r of (s, p) \<Rightarrow> bnd (vm_deref s p) (\<lambda>x.
     if is_exception x \<and> \<not> (stop \<and> is_stop_iteration x) then Inl Abort else Inr (push p s)))"

definition call_fixed :: "host \<Rightarrow> bool \<Rightarrow> nat \<Rightarrow> nat \<Rightarrow> nat \<Rightarrow> vm \<Rightarrow> vm vm_result option" where
  "call_fixed H stop wanted f n s =
     (if n \<noteq> wanted then ret (arity_error wanted n s)
      else obnd (ret (pop_n wanted s)) (\<lambda>(args, s1). obnd (native H f s1 args) (\<lambda>r.
        ret (push_native_result stop r))))"

text \<open>A function of type \<open>vm0\<close> does not pop the arguments it is called with.\<close>

definition call_native_func :: "host \<Rightarrow> callback \<Rightarrow> nat \<Rightarrow> vm \<Rightarrow> vm vm_result option" where
  "call_native_func H cb n s = (case cb of
       Func_vmv f \<Rightarrow> obnd (ret (pop_n n s)) (\<lambda>(args, s1). obnd (native H f s1 args) (\<lambda>(s2, p).
         ret (Inr (push p s2))))
     | Func_vm0 f \<Rightarrow> obnd (native H f s []) (\<lambda>r. ret (push_native_result False r))
     | Func_vm1 f \<Rightarrow> call_fixed H True 1 f n s
     | Func_vm2 f \<Rightarrow> call_fixed H False 2 f n s
     | Func_vm3 f \<Rightarrow> call_fixed H False 3 f n s
     | Func_vm4 f \<Rightarrow> call_fixed H False 4 f n s
     | Const_int i \<Rightarrow> obnd (ret (pop_n n s)) (\<lambda>(_, s1). ret (Inr (push_new (IntValue i) s1)))
     | Func_vm_self_v f \<Rightarrow>
         if n < 1 then ret (arity_error 4 n s)
         else obnd (ret (pop_n n s)) (\<lambda>(args, s1). obnd (native H f s1 args) (\<lambda>(s2, p).
           ret (Inr (push p s2)))))"

subsection \<open>Calls\<close>

definition end_ops :: op_array where
  "end_ops = op_push_back (mk_op OP_END) 0 new_op_array"

text \<open>\<open>VM::function_call\<close>\<close>

definition function_call :: "int \<Rightarrow> ptr \<Rightarrow> ptr \<Rightarrow> vm \<Rightarrow> vm vm_result" where
  "function_call n p self_v s = bnd (if p = None then Inl Abort else lift_val s (as_code (heap s) p)) (\<lambda>c.
     let (f, s1) = enter_frame FRAME_TYPE_FUNCTION (nat n) s;
         f' = f\<lparr>orig_ops := vm_ops s, return_address := pc s, argcnt := n, frame_code := p, self := self_v\<rparr>
     in case code_params c of
          Some ps \<Rightarrow> if n \<noteq> int (length ps) then Inl Abort
            else Inr (push_frame f' (s1\<lparr>pc := -1, vm_ops := code_opcodes c,
              mark_stack := mark_stack s @ [int (length (stack s))]\<rparr>))
        | None \<Rightarrow> Inr (push_frame f' (s1\<lparr>pc := -1, vm_ops := code_opcodes c,
              mark_stack := mark_stack s @ [int (length (stack s))]\<rparr>)))"

text \<open>\<open>VM::function_call_ex\<close>: runs the function to its end in a nested loop.\<close>

definition function_call_ex :: "host \<Rightarrow> runner \<Rightarrow> nat \<Rightarrow> ptr \<Rightarrow> ptr \<Rightarrow> vm \<Rightarrow> vm vm_result option" where
  "function_call_ex H ex n p self_v s = obnd (ret (lift_val s (as_code (heap s) p))) (\<lambda>c.
     case callback c of
       Some cb \<Rightarrow> call_native_func H cb n s
     | None \<Rightarrow> obnd (ret (function_call (int n) p self_v s)) (\<lambda>s1.
         let f = last (frame_stack s1);
             s2 = s1\<lparr>frame_stack := butlast (frame_stack s1) @ [f\<lparr>return_address := -1, orig_ops := end_ops\<rparr>],
                     pc := 0\<rparr>
         in obnd (ex s2) (\<lambda>s3. ret (Inr (s3\<lparr>pc := pc s, vm_ops := orig_ops f\<rparr>)))))"

text \<open>
  The body of \<open>VM::call_method\<close> for the class \<open>k\<close> and method \<open>p\<close> that the search has found.
  With a wrong number of arguments it formats a message whose fourth argument is missing,
  which is undefined behaviour.
\<close>

definition invoke_method :: "host \<Rightarrow> ptr \<Rightarrow> ptr \<Rightarrow> vm \<Rightarrow> vm vm_result option" where
  "invoke_method H object p s = obnd (ret (vm_deref s p)) (\<lambda>x. case x of
       CodeValue c \<Rightarrow> obnd (ret (get_int_operand s)) (\<lambda>i. let n = sint i in
         case callback c of
           Some cb \<Rightarrow> call_native_func H cb (nat (n + 1)) (push object s)
         | None \<Rightarrow>
             let (f, s1) = enter_frame FRAME_TYPE_FUNCTION (nat n) s;
                 f' = f\<lparr>orig_ops := vm_ops s, return_address := pc s, argcnt := n, frame_code := p, self := object\<rparr>
             in if code_params c \<noteq> None \<and> n \<noteq> int (length (the (code_params c))) then ret (Inl Undefined)
                else ret (Inr (push_frame f' (s1\<lparr>pc := -1, vm_ops := code_opcodes c,
                       mark_stack := mark_stack s @ [int (length (stack s))]\<rparr>))))
     | _ \<Rightarrow> ret (Inl Abort))"

definition call_method_of :: "host \<Rightarrow> ptr \<Rightarrow> bool \<Rightarrow> ptr \<Rightarrow> ID \<Rightarrow> vm \<Rightarrow> vm vm_result option" where
  "call_method_of H object is_class k fid s =
     (case resolve_method (3 * length (heap s)) (heap s) (builtin_classes s) is_class k fid [] of
        None \<Rightarrow> None
      | Some (Inl e) \<Rightarrow> ret (lift_val s (Inl e))
      | Some (Inr (Some (_, p))) \<Rightarrow> invoke_method H object p s
      | Some (Inr None) \<Rightarrow> obnd (ret (vm_deref s object)) (\<lambda>x.
          obnd (ret (lift_val s (object_package_id (heap s) x))) (\<lambda>cid.
          let (s1, fname) = vm_id2name fid s; (s2, cname) = vm_id2name cid s1
          in ret (vm_die s2 (''Unknown method '' @ c_str fname @ '' for '' @ c_str cname)))))"

definition call_builtin_class_method :: "host \<Rightarrow> ptr \<Rightarrow> obj \<Rightarrow> ID \<Rightarrow> vm \<Rightarrow> vm vm_result option" where
  "call_builtin_class_method H object x fid s = obnd (ret (lift_val s (type_str x))) (\<lambda>t.
     let (s1, i) = vm_get_id t s
     in obnd (ret (lift_val s1 (get_builtin_class (builtin_classes s1) i))) (\<lambda>k.
       call_method_of H object False k fid s1))"

text \<open>\<open>VM::call_method(object, function_id)\<close>\<close>

definition call_method :: "host \<Rightarrow> runner \<Rightarrow> ptr \<Rightarrow> ptr \<Rightarrow> vm \<Rightarrow> vm vm_result option" where
  "call_method H ex object fid_v s = obnd (ret (get_int_operand s)) (\<lambda>i.
     if sint i < 0 \<or> int (length (stack s)) < sint i then ret (Inl Abort)
     else obnd (ret (vm_deref s object)) (\<lambda>x. obnd (ret (vm_deref s fid_v)) (\<lambda>y. case y of
       SymbolValue fid \<Rightarrow>
         (case x of
            UndefValue \<Rightarrow> (let (s1, name) = vm_id2name fid s in ret (vm_throw s1 (exception_value
              (''NullPointerException: Can't call method '' @ c_str name @ '' on an undefined value.''))))
          | ObjectValue k _ _ \<Rightarrow> call_method_of H object False k fid s
          | SymbolValue _ \<Rightarrow> ret (Inl Abort)
          | ClassValue _ _ _ \<Rightarrow> call_method_of H object True object fid s
          | FilePackageValue _ sc \<Rightarrow> (case map_of (scopes s ! sc) fid of
              Some p \<Rightarrow> obnd (ret (vm_deref s p)) (\<lambda>v. case v of
                  CodeValue _ \<Rightarrow> function_call_ex H ex (nat (sint i)) p object s
                | ClassValue _ _ _ \<Rightarrow> ret (Inr (push p s))
                | _ \<Rightarrow> obnd (ret (lift_val s (type_str v))) (\<lambda>t.
                    ret (vm_die s (''Unknown stuff in FilePackage: '' @ t @ ''\<newline>''))))
            | None \<Rightarrow> call_builtin_class_method H object x fid s)
          | _ \<Rightarrow> call_builtin_class_method H object x fid s)
     | _ \<Rightarrow> ret (Inl (if x = UndefValue then Undefined else Abort)))))"

definition pp_method_call :: "host \<Rightarrow> runner \<Rightarrow> vm \<Rightarrow> vm vm_result option" where
  "pp_method_call H ex s = obnd (ret (pop s)) (\<lambda>(object, s1). obnd (ret (pop s1)) (\<lambda>(fid, s2).
     call_method H ex object fid s2))"

text \<open>A tuple on top of the stack stands for the arguments.\<close>

definition spread_arguments :: "int \<Rightarrow> vm \<Rightarrow> (int \<times> vm) vm_result" where
  "spread_arguments n s = (if stack s = [] then Inr (n, s)
     else bnd (vm_deref s (last (stack s))) (\<lambda>x. case x of
       TupleValue ps \<Rightarrow> Inr (int (length ps), extract_tuple ps (s\<lparr>stack := butlast (stack s)\<rparr>))
     | _ \<Rightarrow> Inr (n, s)))"

definition symbol_of :: "vm \<Rightarrow> ptr \<Rightarrow> ID vm_result" where
  "symbol_of s p = bnd (vm_deref s p) (\<lambda>x. case x of SymbolValue i \<Rightarrow> Inr i | _ \<Rightarrow> Inl Undefined)"

definition pp_builtin_funcall :: "host \<Rightarrow> vm \<Rightarrow> vm vm_result option" where
  "pp_builtin_funcall H s = obnd (ret (pop s)) (\<lambda>(fp, s1). obnd (ret (get_int_operand s1)) (\<lambda>i.
     obnd (ret (spread_arguments (sint i) s1)) (\<lambda>(n, s2). obnd (ret (symbol_of s2 fp)) (\<lambda>fid.
     if n < 0 \<or> int (length (stack s2)) < n then
       (let (s3, name) = vm_id2name fid s2 in ret (vm_die s3
          (''[BUG] bad argument: '' @ c_str name @ '' requires '' @ show_int n @ '' arguments but only '' @
           show_nat (length (stack s2)) @ '' items available on stack(OP_BUILTINFUNCALL)\<newline>'')))
     else case map_of (builtin_functions s2) fid of
       None \<Rightarrow> ret (Inl Undefined)
     | Some p \<Rightarrow> obnd (ret (lift_val s2 (as_code (heap s2) p))) (\<lambda>c. case callback c of
         None \<Rightarrow> ret (Inl Abort) | Some cb \<Rightarrow> call_native_func H cb (nat n) s2)))))"

text \<open>
  The arguments a call leaves out: each is computed by running the code of its default, whose
  value is inserted below the arguments given. \<open>k\<close> is the index of the parameter, \<open>n\<close> the
  number of arguments so far, \<open>tp\<close> the top of the frame to be.
\<close>

fun default_arguments :: "runner \<Rightarrow> (vm \<Rightarrow> vm vm_result option) \<Rightarrow> code \<Rightarrow> nat \<Rightarrow> nat \<Rightarrow> nat \<Rightarrow> int \<Rightarrow> nat \<Rightarrow> vm \<Rightarrow>
    (int \<times> nat \<times> vm) vm_result option" where
  "default_arguments ex missing c start 0 k n tp s = ret (Inr (n, tp, s))"
| "default_arguments ex missing c start (Suc r) k n tp s =
     (if int k < n then default_arguments ex missing c start r (Suc k) n tp s
      else case code_defaults c of
        None \<Rightarrow> ret (Inl Undefined)
      | Some ds \<Rightarrow>
          if length ds \<le> k then ret (Inl Std_exception)
          else if 0 \<le> sint (ds ! k) then
            obnd (ex (s\<lparr>pc := sint (ds ! k)\<rparr>)) (\<lambda>s1. obnd (ret (pop s1)) (\<lambda>(v, s2).
            if length (stack s2) < start then ret (Inl Undefined)
            else default_arguments ex missing c start r (Suc k) (n + 1) (Suc tp)
              (s2\<lparr>stack := take start (stack s2) @ v # drop start (stack s2)\<rparr>)))
          else obnd (missing s) (\<lambda>_. None))"

definition missing_argument :: "ID \<Rightarrow> nat \<Rightarrow> int \<Rightarrow> vm \<Rightarrow> vm vm_result option" where
  "missing_argument fid wanted n s = (let (s1, name) = vm_id2name fid s in ret (vm_throw s1 (exception_value
     (''ArgumentException: '' @ c_str name @ '' needs '' @ show_nat wanted @ '' arguments but you passed '' @
      show_int n @ '' arguments.''))))"

text \<open>The part of \<open>OP_FUNCALL\<close> for a function written in the language.\<close>

definition call_user_function :: "runner \<Rightarrow> ID \<Rightarrow> ptr \<Rightarrow> code \<Rightarrow> int \<Rightarrow> frame \<Rightarrow> vm \<Rightarrow> vm vm_result option" where
  "call_user_function ex fid p c n f s =
     (let s0 = s\<lparr>vm_ops := code_opcodes c\<rparr>;
          enter = (\<lambda>m tp s1. Inr (push_frame (f\<lparr>top := tp, argcnt := m, frame_code := p\<rparr>)
            (s1\<lparr>pc := -1, mark_stack := mark_stack s1 @ [int (length (stack s1))]\<rparr>)))
      in case code_params c of
           Some ps \<Rightarrow>
             obnd (default_arguments ex (missing_argument fid (length ps) n) c
                 (length (stack s) - nat n) (length ps) 0 n (top f) s0) (\<lambda>(m, tp, s1). ret (enter m tp s1))
         | None \<Rightarrow> obnd (ret (pop_n (nat n) s0)) (\<lambda>(args, s1).
             let s2 = push_new (ArrayValue args) s1 in ret (enter 1 (length (stack s2)) s2)))"

definition pp_funcall :: "host \<Rightarrow> runner \<Rightarrow> vm \<Rightarrow> vm vm_result option" where
  "pp_funcall H ex s = obnd (ret (pop s)) (\<lambda>(fp, s1). obnd (ret (get_int_operand s1)) (\<lambda>i.
     obnd (ret (spread_arguments (sint (int_high i)) s1)) (\<lambda>(n, s2). obnd (ret (symbol_of s2 fp)) (\<lambda>fid.
     if int (length (stack s2)) < n then
       (let (s3, name) = vm_id2name fid s2 in ret (vm_die s3
          (''[BUG] bad argument: '' @ c_str name @ '' requires '' @ show_int n @ '' arguments but only '' @
           show_nat (length (stack s2)) @ '' items available on stack(OP_FUNCALL)\<newline>'')))
     else case map_of (current_scope s2) fid of
       None \<Rightarrow> (let (s3, name) = vm_id2name fid s2
         in ret (vm_die s3 (''Unknown function '' @ CHR 0x27 # c_str name @ [CHR 0x27])))
     | Some p \<Rightarrow> obnd (ret (vm_deref s2 p)) (\<lambda>x. case x of
         CodeValue c \<Rightarrow>
           (let (f0, s3) = enter_frame FRAME_TYPE_FUNCTION (nat n) s2;
                f = f0\<lparr>orig_ops := vm_ops s2, return_address := pc s2\<rparr>
            in case callback c of
                 Some cb \<Rightarrow> call_native_func H cb (nat n) s3
               | None \<Rightarrow> call_user_function ex fid p c n f s3)
       | _ \<Rightarrow> ret (vm_throw s2 (exception_value ''This is not a funciton.'')))))))"

definition call_without_arguments :: "host \<Rightarrow> ptr \<Rightarrow> vm \<Rightarrow> vm vm_result option" where
  "call_without_arguments H p s = obnd (ret (lift_val s (as_code (heap s) p))) (\<lambda>c. case callback c of
       Some cb \<Rightarrow> call_native_func H cb 0 s
     | None \<Rightarrow> (let (h, a) = alloc UndefValue (heap s)
         in ret (function_call 0 p (Some a) (s\<lparr>heap := h\<rparr>))))"

definition pp_instanciate_identifier :: "host \<Rightarrow> vm \<Rightarrow> vm vm_result option" where
  "pp_instanciate_identifier H s = obnd (ret (get_int_operand s)) (\<lambda>i.
     case map_of (current_scope s) i of
       Some p \<Rightarrow> obnd (ret (vm_deref s p)) (\<lambda>x. case x of
           CodeValue _ \<Rightarrow> call_without_arguments H p s | _ \<Rightarrow> ret (Inr (push p s)))
     | None \<Rightarrow> (case map_of (builtin_classes s) i of
         Some k \<Rightarrow> ret (Inr (push k s))
       | None \<Rightarrow> (case map_of (builtin_functions s) i of
           Some p \<Rightarrow> call_without_arguments H p s
         | None \<Rightarrow> (let (s1, n) = vm_id2name i s in ret (vm_throw s1
             (exception_value (''There is no stuff named '' @ CHR 0x27 # c_str n @ [CHR 0x27])))))))"

end
