(* ===== verification/Tora_Vm_Run.thy ===== *)
theory Tora_Vm_Run
  imports Tora_Vm_Call
begin

text \<open>
  Items of objects, foreach, the unwinding of frames by an exception (\<open>VM::handle_exception\<close>)
  and the main loop (\<open>VM::execute\<close> and the loop that \<open>tora/vm.gen.pl\<close> generates).
\<close>

subsection \<open>Items (tora/value/object.cc, vm.inc)\<close>

text \<open>
  The methods \<open>__getitem__\<close> and \<open>__setitem__\<close> are looked up in the class alone and must be
  native with the right arity; the messages of the other cases read a dangling string.
\<close>

definition object_get_item :: "host \<Rightarrow> ptr \<Rightarrow> ptr \<Rightarrow> ptr \<Rightarrow> vm \<Rightarrow> (vm \<times> ptr) vm_result option" where
  "object_get_item H k this index s = obnd (ret (if k = None then Inl Abort else
       lift_val s (find_method (heap s) k SYMBOL_GET_ITEM))) (\<lambda>m. case m of
       None \<Rightarrow> ret (Inl Undefined)
     | Some p \<Rightarrow> obnd (ret (vm_deref s p)) (\<lambda>x. case x of
         CodeValue c \<Rightarrow> (case callback c of
           Some (Func_vm2 f) \<Rightarrow> native H f s [this, index]
         | Some (Func_vm_self_v _) \<Rightarrow> ret (Inl Abort)
         | Some _ \<Rightarrow> ret (Inl Undefined)
         | None \<Rightarrow> ret (Inl Abort))
       | _ \<Rightarrow> ret (Inl Abort)))"

definition object_set_item :: "host \<Rightarrow> ptr \<Rightarrow> ptr \<Rightarrow> ptr \<Rightarrow> ptr \<Rightarrow> vm \<Rightarrow> (vm \<times> ptr) vm_result option" where
  "object_set_item H k this index v s = obnd (ret (lift_val s (find_method (heap s) k SYMBOL_SET_ITEM))) (\<lambda>m.
     case m of
       None \<Rightarrow> ret (Inl Undefined)
     | Some p \<Rightarrow> obnd (ret (vm_deref s p)) (\<lambda>x. case x of
         CodeValue c \<Rightarrow> (case callback c of
           Some (Func_vm3 f) \<Rightarrow> native H f s [this, index, v]
         | Some (Func_vm_self_v _) \<Rightarrow> ret (Inl Abort)
         | Some _ \<Rightarrow> ret (Inl Undefined)
         | None \<Rightarrow> ret (Inl Abort))
       | _ \<Rightarrow> ret (Inl Abort)))"

text \<open>Objects are handled here, so the container operators get no case for them.\<close>

definition pp_get_item :: "host \<Rightarrow> vm \<Rightarrow> vm vm_result option" where
  "pp_get_item H s = obnd (ret (pop s)) (\<lambda>(index, s1). obnd (ret (stack_top s1)) (\<lambda>container.
     obnd (ret (vm_deref s1 container)) (\<lambda>x. case x of
       ObjectValue k _ _ \<Rightarrow> obnd (object_get_item H k container index s1) (\<lambda>(s2, p). ret (Inr (set_top p s2)))
     | _ \<Rightarrow> obnd (ret (lift_val s1 (op_get_item (\<lambda>_ _ _. Inl Undefined) (heap s1) container index)))
         (\<lambda>(h, p). ret (Inr (set_top p (s1\<lparr>heap := h\<rparr>)))))))"

definition pp_set_item :: "host \<Rightarrow> vm \<Rightarrow> vm vm_result option" where
  "pp_set_item H s = obnd (ret (pop s)) (\<lambda>(index, s1). obnd (ret (pop s1)) (\<lambda>(container, s2).
     obnd (ret (pop s2)) (\<lambda>(rvalue, s3). obnd (ret (vm_deref s3 container)) (\<lambda>x. case x of
       ObjectValue k _ _ \<Rightarrow> obnd (object_set_item H k container index rvalue s3) (\<lambda>(s4, p).
         obnd (ret (vm_deref s4 p)) (\<lambda>y.
           if is_exception y then ret (Inl (Raise (s4, p))) else ret (Inr (push rvalue s4))))
     | _ \<Rightarrow> obnd (ret (lift_val s3 (vm_set_item (\<lambda>_ _ _ _. Inl Undefined) (heap s3) container index rvalue)))
         (\<lambda>(h, _). ret (Inr (push rvalue (s3\<lparr>heap := h\<rparr>))))))))"

subsection \<open>Foreach\<close>

definition new_iterator :: "host \<Rightarrow> ptr \<Rightarrow> obj \<Rightarrow> vm \<Rightarrow> (vm \<times> ptr) vm_result option" where
  "new_iterator H a x s =
     (let new = (\<lambda>it. let (h, b) = alloc it (heap s) in ret (Inr (s\<lparr>heap := h\<rparr>, Some b)))
      in case x of
        ArrayValue _ \<Rightarrow> new (ArrayIterator 0 a)
      | RangeValue l _ \<Rightarrow> obnd (ret (lift_val s (range_end (heap s) l))) (\<lambda>i. new (RangeIterator i a))
      | HashValue m \<Rightarrow> new (HashIterator (hash_begin m) a)
      | ObjectValue k _ _ \<Rightarrow> (let (s0, it) = vm_get_id ''__iter__'' s
          in obnd (ret (lift_val s0 (find_method (heap s0) k it))) (\<lambda>m. case m of
               Some p \<Rightarrow> obnd (ret (lift_val s0 (as_code (heap s0) p))) (\<lambda>c. case callback c of
                   Some cb \<Rightarrow> obnd (call_native_func H cb 1 (push a s0)) (\<lambda>s1.
                     obnd (ret (pop s1)) (\<lambda>(p, s2). ret (Inr (s2, p))))
                 | None \<Rightarrow> ret (Inl Abort))
             | None \<Rightarrow> ret (Inl Undefined)))
      | _ \<Rightarrow> obnd (ret (lift_val s (type_str x))) (\<lambda>t.
          ret (vm_die s (''The object '' @ t @ '' doesn't support iteration\<newline>''))))"

definition pp_enter_foreach :: "host \<Rightarrow> vm \<Rightarrow> vm vm_result option" where
  "pp_enter_foreach H s = obnd (ret (pop s)) (\<lambda>(a, s1). obnd (ret (vm_deref s1 a)) (\<lambda>x.
     obnd (new_iterator H a x s1) (\<lambda>(s2, it). obnd (ret (get_int_operand s2)) (\<lambda>n.
     if sint n < 0 then ret (Inl Std_exception)
     else let (f, s3) = enter_frame FRAME_TYPE_FOREACH (nat (sint n)) s2
          in ret (Inr (push_frame (f\<lparr>iter := it\<rparr>) s3))))))"

definition push_tuple :: "ptr list \<Rightarrow> vm \<Rightarrow> vm" where
  "push_tuple ps s = push_new (TupleValue ps) s"

definition push_stop :: "vm \<Rightarrow> vm" where
  "push_stop s = push_new stop_iteration_exception s"

text \<open>
  The next integer of a range: the cell of the last turn is reused when two pointers hold it,
  otherwise a new one is made.
\<close>

definition range_value :: "host \<Rightarrow> frame \<Rightarrow> i32 \<Rightarrow> vm \<Rightarrow> vm vm_result" where
  "range_value H f i s =
     (let cur = current_value f
      in if cur \<noteq> None \<and> refcnt H s cur = 2 then
           bnd (vm_deref s cur) (\<lambda>x. case x of
             IntValue _ \<Rightarrow> Inr (push cur (s\<lparr>heap := store cur (IntValue i) (heap s)\<rparr>)) | _ \<Rightarrow> Inl Abort)
         else let (h, a) = alloc (IntValue i) (heap s)
           in Inr (push (Some a) (s\<lparr>heap := h,
                frame_stack := butlast (frame_stack s) @ [f\<lparr>current_value := Some a\<rparr>]\<rparr>)))"

definition pp_for_iter :: "host \<Rightarrow> vm \<Rightarrow> vm vm_result option" where
  "pp_for_iter H s = obnd (ret (frame_top s)) (\<lambda>f.
     if frame_type f \<noteq> FRAME_TYPE_FOREACH then ret (Inl Abort)
     else let s1 = resize_stack (top f) s; it = iter f in
       obnd (ret (vm_deref s1 it)) (\<lambda>x. case x of
         ArrayIterator c a \<Rightarrow> obnd (ret (elements s1 a)) (\<lambda>ps.
           if uint c < int (length ps) then
             ret (Inr (push_tuple [ps ! unat c] (s1\<lparr>heap := store it (ArrayIterator (c + 1) a) (heap s1)\<rparr>)))
           else ret (Inr (push_stop s1)))
       | RangeIterator c a \<Rightarrow> obnd (ret (vm_deref s1 a)) (\<lambda>y. case y of
           RangeValue _ r \<Rightarrow> obnd (ret (lift_val s1 (range_end (heap s1) r))) (\<lambda>hi.
             if sint c \<le> sint hi then obnd (ret (range_value H f c s1)) (\<lambda>s2.
               ret (Inr (s2\<lparr>heap := store it (RangeIterator (c + 1) a) (heap s2)\<rparr>)))
             else ret (Inr (push_stop s1)))
         | _ \<Rightarrow> ret (Inl Undefined))
       | HashIterator k a \<Rightarrow> obnd (ret (vm_deref s1 a)) (\<lambda>y. case y of
           HashValue m \<Rightarrow> (case k of
             None \<Rightarrow> ret (Inr (push_stop s1))
           | Some key \<Rightarrow> (case map_of m key of
               None \<Rightarrow> ret (Inl Undefined)
             | Some v \<Rightarrow>
                 let (h, b) = alloc (StrValue key) (heap s1);
                     s2 = s1\<lparr>heap := store it (HashIterator (hash_next key m) a) h\<rparr>
                 in ret (Inr (push_tuple [v, Some b] s2))))
         | _ \<Rightarrow> ret (Inl Undefined))
       | ObjectValue k _ _ \<Rightarrow> (let (s2, nx) = vm_get_id ''__next__'' s1
           in obnd (ret (lift_val s2 (find_method (heap s2) k nx))) (\<lambda>m. case m of
                Some p \<Rightarrow> obnd (ret (lift_val s2 (as_code (heap s2) p))) (\<lambda>c. case callback c of
                    Some cb \<Rightarrow> obnd (call_native_func H cb 1 (push it s2)) (\<lambda>s3.
                      obnd (ret (pop s3)) (\<lambda>(v, s4). obnd (ret (vm_deref s4 v)) (\<lambda>y.
                        if is_exception y \<and> \<not> is_stop_iteration y then ret (Inl (Raise (s4, v)))
                        else ret (Inr (push v s4)))))
                  | None \<Rightarrow> ret (Inl Abort))
              | None \<Rightarrow> ret (Inl Undefined)))
       | _ \<Rightarrow> obnd (ret (lift_val s1 (type_str x))) (\<lambda>t.
           ret (vm_die s1 (''[BUG] TOS is not a iterator object: '' @ t @ ''.'')))))"

definition pp_use :: "host \<Rightarrow> vm \<Rightarrow> vm vm_result option" where
  "pp_use H s = obnd (ret (pop s)) (\<lambda>(mod_name, s1). obnd (ret (pop s1)) (\<lambda>(incl, s2).
     obnd (ret (vm_deref s2 incl)) (\<lambda>x. obnd (use_package H s2 mod_name (x = IntValue 1)) (\<lambda>s3.
     ret (Inr (push_new UndefValue s3))))))"

subsection \<open>One instruction\<close>

definition push_group :: "pushing_op \<Rightarrow> vm \<Rightarrow> vm vm_result" where
  "push_group o' = (case o' of
       I_PUSH_TRUE \<Rightarrow> (\<lambda>s. Inr (push_new (BoolValue True) s))
     | I_PUSH_FALSE \<Rightarrow> (\<lambda>s. Inr (push_new (BoolValue False) s))
     | I_PUSH_SELF \<Rightarrow> get_self
     | I_PUSH_UNDEF \<Rightarrow> (\<lambda>s. Inr (push_new UndefValue s))
     | I_PUSH_INT \<Rightarrow> pp_push_int
     | I_PUSH_DOUBLE \<Rightarrow> pp_push_double
     | I_PUSH_STRING \<Rightarrow> pp_push_value
     | I_GETARG \<Rightarrow> pp_getarg
     | I_SETARG \<Rightarrow> pp_setarg
     | I_PUSH_VALUE \<Rightarrow> pp_push_value
     | I_NEW_RANGE \<Rightarrow> pp_new_range
     | I_FUNCDEF \<Rightarrow> pp_funcdef
     | I_CLOSUREDEF \<Rightarrow> pp_closuredef
     | I_GETCLOSURE \<Rightarrow> pp_getclosure
     | I_SETCLOSURE \<Rightarrow> pp_setclosure)"

definition control_group :: "host \<Rightarrow> runner \<Rightarrow> control_op \<Rightarrow> vm \<Rightarrow> vm vm_result option" where
  "control_group H ex o' s = (case o' of
       I_BUILTIN_FUNCALL \<Rightarrow> pp_builtin_funcall H s
     | I_NEXTSTATE \<Rightarrow> ret (pp_nextstate s)
     | I_FUNCALL \<Rightarrow> pp_funcall H ex s
     | I_METHOD_CALL \<Rightarrow> pp_method_call H ex s
     | I_LAST \<Rightarrow> ret (pp_last s)
     | I_RETURN \<Rightarrow> ret (pp_return s)
     | I_ENTER \<Rightarrow> ret (pp_enter FRAME_TYPE_LEXICAL s)
     | I_ENTER_WHILE \<Rightarrow> ret (pp_enter FRAME_TYPE_WHILE s)
     | I_ENTER_FOR \<Rightarrow> ret (pp_enter FRAME_TYPE_FOR s)
     | I_LEAVE \<Rightarrow> ret (pp_leave s)
     | I_PUSH_IDENTIFIER \<Rightarrow> ret (bnd (get_int_operand s) (\<lambda>i. Inr (push_new (SymbolValue i) s)))
     | I_DUMP \<Rightarrow> ret (Inr s)
     | I_JUMP_IF_FALSE \<Rightarrow> ret (pp_jump_if False s)
     | I_JUMP_IF_TRUE \<Rightarrow> ret (pp_jump_if True s)
     | I_JUMP \<Rightarrow> ret (pp_jump s))"

definition data_group :: "host \<Rightarrow> data_op \<Rightarrow> vm \<Rightarrow> vm vm_result option" where
  "data_group H o' s = (case o' of
       I_SETLOCAL \<Rightarrow> ret (pp_setlocal s)
     | I_SETDYNAMIC \<Rightarrow> ret (pp_setdynamic s)
     | I_GETDYNAMIC \<Rightarrow> ret (pp_getdynamic s)
     | I_GETLOCAL \<Rightarrow> ret (pp_getlocal s)
     | I_GET_ITEM \<Rightarrow> pp_get_item H s
     | I_SET_ITEM \<Rightarrow> pp_set_item H s
     | I_UNARY_NEGATIVE \<Rightarrow> ret (pp_unary_negative s)
     | I_MAKE_HASH \<Rightarrow> ret (pp_make_hash s)
     | I_MAKE_ARRAY \<Rightarrow> ret (pp_make_array s)
     | I_MAKE_TUPLE \<Rightarrow> ret (pp_make_tuple s)
     | I_EXTRACT_TUPLE \<Rightarrow> ret (pp_extract_tuple s)
     | I_PRE_INCREMENT \<Rightarrow> ret (pp_pre_increment s)
     | I_POST_INCREMENT \<Rightarrow> ret (pp_post_increment s)
     | I_PRE_DECREMENT \<Rightarrow> ret (pp_pre_decrement s)
     | I_POST_DECREMENT \<Rightarrow> ret (pp_post_decrement s)
     | I_FILE_TEST \<Rightarrow> ret (pp_file_test H s)
     | I_GETGLOBAL \<Rightarrow> ret (pp_getglobal s)
     | I_POP_TOP \<Rightarrow> ret (bnd (pop s) (\<lambda>(_, s1). Inr s1)))"

definition other_group :: "host \<Rightarrow> other_op \<Rightarrow> vm \<Rightarrow> vm vm_result option" where
  "other_group H o' s = (case o' of
       I_ENTER_FOREACH \<Rightarrow> pp_enter_foreach H s
     | I_FOR_ITER \<Rightarrow> pp_for_iter H s
     | I_JUMP_IF_STOP_EXCEPTION \<Rightarrow> ret (pp_jump_if_stop s)
     | I_DOTDOTDOT \<Rightarrow> ret (Inl Exit)
     | I_TRY \<Rightarrow> ret (pp_try s)
     | I_DIE \<Rightarrow> ret (pp_die s)
     | I_USE \<Rightarrow> pp_use H s
     | I_NOT \<Rightarrow> ret (pp_not s)
     | I_PACKAGE_ENTER \<Rightarrow> ret (pp_package_enter s)
     | I_PACKAGE_LEAVE \<Rightarrow> ret (pp_package_leave s)
     | I_CLASS_ENTER \<Rightarrow> ret (pp_class_enter s)
     | I_CLASS_LEAVE \<Rightarrow> ret (pp_class_leave s)
     | I_DEREF \<Rightarrow> ret (pp_deref s)
     | I_EXTRACT_ARRAY \<Rightarrow> ret (pp_extract_array s)
     | I_SET_PACKAGE_VARIABLE \<Rightarrow> ret (Inl Abort)
     | I_INSTANCIATE_IDENTIFIER \<Rightarrow> pp_instanciate_identifier H s
     | I_GET_PACKAGE_VARIABLE \<Rightarrow> ret (Inl Abort)
     | I_LOCAL \<Rightarrow> ret (Inl Abort)
     | I_SET_PARENT \<Rightarrow> ret (pp_set_parent s)
     | I_END \<Rightarrow> ret (Inr s))"

definition step :: "host \<Rightarrow> runner \<Rightarrow> op_type \<Rightarrow> vm \<Rightarrow> vm vm_result option" where
  "step H ex t s = (case t of
       Push o' \<Rightarrow> ret (push_group o' s)
     | Arith o' \<Rightarrow> ret (binop (arith (host_pow H) o') s)
     | Control o' \<Rightarrow> control_group H ex o' s
     | Compare o' \<Rightarrow> ret (pp_compare o' s)
     | Data o' \<Rightarrow> data_group H o' s
     | Other o' \<Rightarrow> other_group H o' s)"

subsection \<open>Exceptions (VM::handle_exception)\<close>

text \<open>With one frame left the message is printed and the process exits.\<close>

function unwind :: "ptr \<Rightarrow> vm \<Rightarrow> vm vm_result" where
  "unwind x s = (if length (frame_stack s) = 1 then Inl Exit
     else if frame_stack s = [] then Inl Undefined
     else let f = last (frame_stack s) in
       if frame_type f = FRAME_TYPE_FUNCTION then
         unwind x (pop_frame (resize_stack (top f) (s\<lparr>pc := return_address f, vm_ops := orig_ops f\<rparr>)))
       else if frame_type f = FRAME_TYPE_TRY then
         (let s1 = resize_stack (top f) (s\<lparr>pc := return_address f + 1\<rparr>);
              (h, u) = alloc UndefValue (heap s1)
          in Inr (push_new (TupleValue [Some u, x]) (pop_frame (s1\<lparr>heap := h\<rparr>))))
       else unwind x (pop_frame (resize_stack (top f) s)))"
  by pat_completeness auto
termination
  by (relation "measure (\<lambda>(x, s). length (frame_stack s))") (auto simp: pop_frame_def resize_stack_def)

declare unwind.simps [simp del]

text \<open>The line number is read first: \<open>lineno[pc]\<close> must exist.\<close>

definition handle_exception :: "ptr \<Rightarrow> vm \<Rightarrow> vm vm_result" where
  "handle_exception x s = (if frame_stack s = [] then Inl Abort
     else if pc s < 0 then Inl Undefined
     else bnd (get_lineno (vm_ops s) (nat (pc s))) (\<lambda>_. unwind x s))"

subsection \<open>The main loop\<close>

definition cur_op_type :: "vm \<Rightarrow> op_type vm_result" where
  "cur_op_type s = (if 0 \<le> pc s then op_type_at (vm_ops s) (nat (pc s)) else Inl Undefined)"

fun execute :: "host \<Rightarrow> nat \<Rightarrow> vm \<Rightarrow> vm vm_result option" where
  "execute H 0 s = None"
| "execute H (Suc n) s = (case cur_op_type s of
       Inl e \<Rightarrow> Some (Inl e)
     | Inr t \<Rightarrow>
         if t = OP_END then Some (Inr s)
         else (case step H (execute H n) t s of
             None \<Rightarrow> None
           | Some (Inr s') \<Rightarrow> execute H n (s'\<lparr>pc := pc s' + 1\<rparr>)
           | Some (Inl (Raise (s', x))) \<Rightarrow> (case handle_exception x s' of
               Inr s'' \<Rightarrow> execute H n s'' | Inl e \<Rightarrow> Some (Inl e))
           | Some (Inl e) \<Rightarrow> Some (Inl e)))"

subsection \<open>Construction (VM::VM, VM::init_globals)\<close>

definition new_vm :: "op_array \<Rightarrow> symtab \<Rightarrow> vm" where
  "new_vm a t = (let (ps, f) = new_frame FRAME_TYPE_LEXICAL 0 0 [] []
     in \<lparr>heap = [], pads = ps, klass = None, file_scope = 0, scopes = [[]], file_scope_map = [],
        builtin_classes = [], builtin_functions = [], pc = 0, vm_ops = a, global_vars = [],
        symbol_table = t, stack = [], frame_stack = [f], mark_stack = []\<rparr>)"

definition add_global :: "obj \<Rightarrow> vm \<Rightarrow> vm" where
  "add_global x s = (let (h, a) = alloc x (heap s)
     in s\<lparr>heap := h, global_vars := global_vars s @ [Some a]\<rparr>)"

text \<open>\<open>$ARGV\<close>, \<open>$ENV\<close>, \<open>$LIBPATH\<close>, \<open>$REQUIRED\<close>, \<open>$STDIN\<close>, \<open>$STDOUT\<close>, \<open>$STDERR\<close>; \<open>env_class\<close> is
  the number of the class Env.\<close>

definition init_globals :: "ID \<Rightarrow> string list \<Rightarrow> vm \<Rightarrow> vm vm_result" where
  "init_globals env_class args s =
     (let (h, xs) = push_strs args (heap s) [];
          s1 = add_global (ArrayValue xs) (s\<lparr>heap := h\<rparr>)
      in bnd (lift_val s1 (get_builtin_class (builtin_classes s1) env_class)) (\<lambda>k.
         let (h2, u) = alloc UndefValue (heap s1);
             s2 = add_global (ObjectValue k (Some u) False) (s1\<lparr>heap := h2\<rparr>);
             (h3, l) = alloc (StrValue ''lib'') (heap s2)
         in Inr (foldl (\<lambda>s x. add_global x s) (s2\<lparr>heap := h3\<rparr>)
              [ArrayValue [Some l], HashValue [], FileValue (Some 0), FileValue (Some 1), FileValue (Some 2)])))"

end
