(* ===== verification/Tora_Vm_Props.thy ===== *)
theory Tora_Vm_Props
  imports Tora_Vm_Run
begin

text \<open>
  Properties of the machine: what an exception leaves behind, how calls and returns move
  frames, marks and code, what the variable instructions promise, what a turn of foreach
  yields, and that the fuel of the main loop does not influence its result.
\<close>

subsection \<open>Helper facts on frames and the stack\<close>

lemma pop_frame_simps [simp]:
  "frame_stack (pop_frame s) = butlast (frame_stack s)"
  "stack (pop_frame s) = stack s" "pc (pop_frame s) = pc s" "vm_ops (pop_frame s) = vm_ops s"
  "heap (pop_frame s) = heap s" "pads (pop_frame s) = pads s" "mark_stack (pop_frame s) = mark_stack s"
  by (simp_all add: pop_frame_def)

lemma resize_stack_simps [simp]:
  "frame_stack (resize_stack n s) = frame_stack s" "stack (resize_stack n s) = vresize n (stack s)"
  "pc (resize_stack n s) = pc s" "vm_ops (resize_stack n s) = vm_ops s"
  "heap (resize_stack n s) = heap s" "pads (resize_stack n s) = pads s"
  "mark_stack (resize_stack n s) = mark_stack s"
  by (simp_all add: resize_stack_def)

lemma push_simps [simp]:
  "frame_stack (push p s) = frame_stack s" "stack (push p s) = stack s @ [p]"
  "pc (push p s) = pc s" "vm_ops (push p s) = vm_ops s" "heap (push p s) = heap s"
  "pads (push p s) = pads s" "mark_stack (push p s) = mark_stack s"
  by (simp_all add: push_def)

lemma push_new_simps [simp]:
  "frame_stack (push_new x s) = frame_stack s" "stack (push_new x s) = stack s @ [Some (length (heap s))]"
  "pc (push_new x s) = pc s" "vm_ops (push_new x s) = vm_ops s" "heap (push_new x s) = heap s @ [x]"
  "pads (push_new x s) = pads s" "mark_stack (push_new x s) = mark_stack s"
  by (simp_all add: push_new_def alloc_def)

lemma push_frame_simps [simp]:
  "frame_stack (push_frame f s) = frame_stack s @ [f]" "stack (push_frame f s) = stack s"
  "pc (push_frame f s) = pc s" "vm_ops (push_frame f s) = vm_ops s" "heap (push_frame f s) = heap s"
  "pads (push_frame f s) = pads s" "mark_stack (push_frame f s) = mark_stack s"
  by (simp_all add: push_frame_def)

subsection \<open>Unwinding\<close>

text \<open>What unwinding the frames above a try frame does to the code and the stack.\<close>

definition outermost_ops :: "frame list \<Rightarrow> op_array \<Rightarrow> op_array" where
  "outermost_ops gs a = (case find (\<lambda>g. frame_type g = FRAME_TYPE_FUNCTION) gs of
     Some g \<Rightarrow> orig_ops g | None \<Rightarrow> a)"

lemma outermost_ops_snoc: "outermost_ops (gs @ [g]) a =
    outermost_ops gs (if frame_type g = FRAME_TYPE_FUNCTION then orig_ops g else a)"
  by (induction gs) (auto simp: outermost_ops_def)

definition resizes :: "frame list \<Rightarrow> ptr list \<Rightarrow> ptr list" where
  "resizes gs st = foldr (\<lambda>g st. vresize (top g) st) gs st"

lemma unwind_frames:
  assumes "frame_stack s = fs @ t # gs" "fs \<noteq> []" "frame_type t = FRAME_TYPE_TRY"
    and "\<forall>g \<in> set gs. frame_type g \<noteq> FRAME_TYPE_TRY"
  shows "\<exists>s'. unwind x s = Inr s' \<and> frame_stack s' = fs \<and> pc s' = return_address t + 1 \<and>
    vm_ops s' = outermost_ops gs (vm_ops s) \<and> mark_stack s' = mark_stack s \<and> pads s' = pads s \<and>
    stack s' = vresize (top t) (resizes gs (stack s)) @ [Some (Suc (length (heap s)))] \<and>
    heap s' = heap s @ [UndefValue, TupleValue [Some (length (heap s)), x]]"
  using assms
proof (induction gs arbitrary: s rule: rev_induct)
  case Nil
  have l: "length (frame_stack s) \<noteq> 1" "frame_stack s \<noteq> []" "last (frame_stack s) = t"
    using Nil.prems(1,2) by (auto simp: neq_Nil_conv)
  show ?case
    by (subst unwind.simps)
      (use l Nil.prems in \<open>simp add: Let_def alloc_def outermost_ops_def resizes_def\<close>)
next
  case (snoc g gs)
  let ?s = "pop_frame (resize_stack (top g) (if frame_type g = FRAME_TYPE_FUNCTION
      then s\<lparr>pc := return_address g, vm_ops := orig_ops g\<rparr> else s))"
  have l: "length (frame_stack s) \<noteq> 1" "frame_stack s \<noteq> []" "last (frame_stack s) = g"
    using snoc.prems(1,2) by (auto simp: neq_Nil_conv)
  have fs: "frame_stack ?s = fs @ t # gs" using snoc.prems(1) by (simp add: butlast_append)
  have "unwind x s = unwind x ?s"
    by (subst unwind.simps) (use l snoc.prems(4) in \<open>simp add: Let_def\<close>)
  then show ?case
    using snoc.IH [OF fs snoc.prems(2,3)] snoc.prems(4)
    by (auto simp: outermost_ops_snoc resizes_def)
qed

text \<open>C6. An exception is caught by the nearest try frame: unwinding ends, drops that frame and
  all frames above it, resumes after the try, restores the code that was running when the
  first of the dropped functions was called, and leaves the pair of undef and the exception
  on a stack cut back to the height at the try.\<close>

theorem exception_reaches_try:
  assumes "frame_stack s = fs @ t # gs" "fs \<noteq> []" "frame_type t = FRAME_TYPE_TRY"
    and "\<forall>g \<in> set gs. frame_type g \<noteq> FRAME_TYPE_TRY \<and> top t \<le> top g"
    and "top t \<le> length (stack s)"
    and "0 \<le> pc s" "nat (pc s) < length (linenos (vm_ops s))"
  shows "\<exists>s' u. handle_exception x s = Inr s' \<and> frame_stack s' = fs \<and>
    pc s' = return_address t + 1 \<and> vm_ops s' = outermost_ops gs (vm_ops s) \<and>
    stack s' = take (top t) (stack s) @ [Some u] \<and>
    (\<exists>v. deref (heap s') (Some u) = Inr (TupleValue [Some v, x]) \<and> deref (heap s') (Some v) = Inr UndefValue)"
proof -
  have "handle_exception x s = unwind x s"
    using assms(1,6,7) by (simp add: handle_exception_def get_lineno_def)
  moreover have "take (top t) (resizes gs st) = take (top t) st \<and> top t \<le> length (resizes gs st)"
    if "top t \<le> length st" for st
    using assms(4) that
    by (induction gs) (auto simp: resizes_def vresize_def min_def)
  then have "vresize (top t) (resizes gs (stack s)) = take (top t) (stack s)"
    using assms(5) by (simp add: vresize_take)
  ultimately show ?thesis
    using unwind_frames [OF assms(1-3), of x] assms(4)
    by (force simp: nth_append intro: exI [of _ "Suc (length (heap s))"] exI [of _ "length (heap s)"])
qed

theorem exception_reaches_try_witness:
  "\<exists>s' u. handle_exception (Some 0)
     ((new_vm (op_push_back (mk_op OP_DIE) 1 new_op_array) empty_symtab)
        \<lparr>heap := [StrValue ''oops''], stack := [Some 0],
         frame_stack := frame_stack (new_vm new_op_array empty_symtab) @
           [(snd (new_frame FRAME_TYPE_TRY 0 1 [] []))\<lparr>return_address := 7\<rparr>,
            snd (new_frame FRAME_TYPE_LEXICAL 0 1 [] [])]\<rparr>) = Inr s' \<and>
     pc s' = 8 \<and> stack s' = [Some 0, Some u]"
proof -
  let ?t = "(snd (new_frame FRAME_TYPE_TRY 0 1 [] []))\<lparr>return_address := 7\<rparr>"
  let ?g = "snd (new_frame FRAME_TYPE_LEXICAL 0 1 [] [])"
  let ?fs = "frame_stack (new_vm new_op_array empty_symtab)"
  let ?s = "(new_vm (op_push_back (mk_op OP_DIE) 1 new_op_array) empty_symtab)
        \<lparr>heap := [StrValue ''oops''], stack := [Some 0], frame_stack := ?fs @ [?t, ?g]\<rparr>"
  have "frame_stack ?s = ?fs @ ?t # [?g]" "?fs \<noteq> []" "frame_type ?t = FRAME_TYPE_TRY"
    "\<forall>g \<in> set [?g]. frame_type g \<noteq> FRAME_TYPE_TRY \<and> top ?t \<le> top g"
    "top ?t \<le> length (stack ?s)" "0 \<le> pc ?s" "nat (pc ?s) < length (linenos (vm_ops ?s))"
    by (simp_all add: new_vm_def new_frame_def new_pad_def op_push_back_def)
  from exception_reaches_try [OF this, of "Some 0"] show ?thesis
    by (auto simp: new_frame_def new_pad_def)
qed

text \<open>A caught exception does not take back the argument mark that the try pushed, nor the
  marks of the calls it interrupts: after the try the frames are those of before it, but the
  mark stack has grown, and the next argument access goes through a stale mark.\<close>

theorem caught_exception_leaves_marks:
  assumes "pp_try s = Inr s1" "frame_stack s \<noteq> []"
    and "frame_stack s2 = frame_stack s1 @ gs" "\<forall>g \<in> set gs. frame_type g \<noteq> FRAME_TYPE_TRY"
    and "mark_stack s2 = mark_stack s1 @ ms" "unwind x s2 = Inr s3"
  shows "frame_stack s3 = frame_stack s \<and>
    mark_stack s3 = mark_stack s @ int (length (stack s)) # ms"
proof -
  obtain f where f: "frame_stack s1 = frame_stack s @ [f]" "frame_type f = FRAME_TYPE_TRY"
    and m: "mark_stack s1 = mark_stack s @ [int (length (stack s))]"
    using assms(1)
    by (auto simp: pp_try_def bnd_Inr_iff enter_frame_def new_frame_def Let_def split: prod.splits)
  have "frame_stack s2 = frame_stack s @ f # gs" using f(1) assms(3) by simp
  from unwind_frames [OF this assms(2) f(2) assms(4), of x] show ?thesis
    using assms(5,6) m by auto
qed

text \<open>A call of one argument, whose body tries to evaluate a die.\<close>

definition try_sample :: vm where
  "try_sample = (new_vm (op_push_back (mk_op_int OP_TRY 5) 1 new_op_array) empty_symtab)
     \<lparr>heap := [IntValue 1, IntValue 2, StrValue ''oops''], stack := [Some 0, Some 1], mark_stack := [1]\<rparr>"

theorem caught_exception_leaves_marks_witness:
  "\<exists>s1 s3. pp_getarg (try_sample\<lparr>vm_ops := op_push_back (mk_op_int OP_GETARG 0) 1 new_op_array\<rparr>) =
      Inr (push (Some 0) (try_sample\<lparr>vm_ops := op_push_back (mk_op_int OP_GETARG 0) 1 new_op_array\<rparr>)) \<and>
    pp_try try_sample = Inr s1 \<and> unwind (Some 2) s1 = Inr s3 \<and>
    frame_stack s3 = frame_stack try_sample \<and> mark_stack s3 = [1, 2]"
proof -
  have a: "pp_getarg (try_sample\<lparr>vm_ops := op_push_back (mk_op_int OP_GETARG 0) 1 new_op_array\<rparr>) =
      Inr (push (Some 0) (try_sample\<lparr>vm_ops := op_push_back (mk_op_int OP_GETARG 0) 1 new_op_array\<rparr>))"
    by (simp add: pp_getarg_def get_int_operand_def cur_op_def op_at_def op_push_back_def new_op_array_def
        mk_op_int_def int_operand_def try_sample_def new_vm_def new_frame_def new_pad_def mark_top_def)
  obtain s1 where s1: "pp_try try_sample = Inr s1" "frame_stack s1 \<noteq> []"
    "\<exists>f. frame_stack s1 = frame_stack try_sample @ [f] \<and> frame_type f = FRAME_TYPE_TRY"
    by (simp add: pp_try_def get_int_operand_def cur_op_def op_at_def op_push_back_def new_op_array_def
        mk_op_int_def int_operand_def try_sample_def new_vm_def new_frame_def new_pad_def enter_frame_def)
  have ne: "frame_stack try_sample \<noteq> []"
    by (simp add: try_sample_def new_vm_def new_frame_def new_pad_def)
  obtain s3 where s3: "unwind (Some 2) s1 = Inr s3"
    using s1(3) unwind_frames [of s1 "frame_stack try_sample" _ "[]", OF _ ne] by auto
  have "frame_stack s3 = frame_stack try_sample \<and>
      mark_stack s3 = mark_stack try_sample @ int (length (stack try_sample)) # []"
    by (rule caught_exception_leaves_marks [where gs = "[]", OF s1(1) ne _ _ _ s3]) simp_all
  with a s1(1) s3 show ?thesis by (simp add: try_sample_def)
qed

lemma missing_argument_state: "\<exists>s' x. missing_argument fid w n s = Some (Inl (Raise (s', x))) \<and>
    vm_ops s' = vm_ops s \<and> frame_stack s' = frame_stack s \<and> pc s' = pc s"
  by (cases "id2name fid (symbol_table s)")
    (simp add: missing_argument_def vm_id2name_def vm_throw_def alloc_def Let_def)

lemma default_arguments_given: "int (k + r) \<le> n \<Longrightarrow>
    default_arguments ex m c st (r + d) k n tp s = default_arguments ex m c st d (k + r) n tp s"
proof (induction r arbitrary: k)
  case (Suc r)
  have "default_arguments ex m c st (Suc r + d) k n tp s = default_arguments ex m c st (r + d) (Suc k) n tp s"
    using Suc.prems by simp
  also have "\<dots> = default_arguments ex m c st d (Suc k + r) n tp s"
    using Suc.prems by (intro Suc.IH) simp
  finally show ?case by simp
qed simp

text \<open>A call of a user function with too few arguments throws after it has switched to the
  code of the function. A try around the call, in the same function, then resumes at the
  right address but in the code of the callee.\<close>

theorem missing_argument_wrong_code:
  assumes "code_params c = Some ps" "code_defaults c = Some ds" "length ds = length ps"
    and "0 \<le> n" "nat n < length ps" "sint (ds ! nat n) < 0"
    and "frame_stack s = fs @ t # gs" "fs \<noteq> []" "frame_type t = FRAME_TYPE_TRY"
    and "\<forall>g \<in> set gs. frame_type g \<noteq> FRAME_TYPE_TRY \<and> frame_type g \<noteq> FRAME_TYPE_FUNCTION"
    and "0 \<le> pc s" "nat (pc s) < length (linenos (code_opcodes c))"
  shows "\<exists>s' x s''. call_user_function ex fid p c n f s = Some (Inl (Raise (s', x))) \<and>
    handle_exception x s' = Inr s'' \<and> frame_stack s'' = fs \<and>
    pc s'' = return_address t + 1 \<and> vm_ops s'' = code_opcodes c"
proof -
  define raised where "raised = missing_argument fid (length ps) n (s\<lparr>vm_ops := code_opcodes c\<rparr>)"
  obtain s' x where r: "raised = Some (Inl (Raise (s', x)))"
    and s': "vm_ops s' = code_opcodes c" "frame_stack s' = frame_stack s" "pc s' = pc s"
    using missing_argument_state [of fid "length ps" n "s\<lparr>vm_ops := code_opcodes c\<rparr>"]
    unfolding raised_def by auto
  let ?miss = "missing_argument fid (length ps) n"
  obtain d where d: "nat n + Suc d = length ps"
    using assms(5) by (metis less_iff_Suc_add add_Suc_right)
  have "default_arguments ex ?miss c start (length ps) 0 n tp (s\<lparr>vm_ops := code_opcodes c\<rparr>) =
      default_arguments ex ?miss c start (Suc d) (nat n) n tp (s\<lparr>vm_ops := code_opcodes c\<rparr>)" for start tp
    using default_arguments_given [of 0 "nat n" n ex ?miss c start "Suc d" tp] assms(4)
    by (simp only: d) simp
  then have "default_arguments ex ?miss c start (length ps) 0 n tp
      (s\<lparr>vm_ops := code_opcodes c\<rparr>) = obnd raised (\<lambda>_. None)" for start tp
    using assms(2-6) by (simp add: raised_def)
  then have c: "call_user_function ex fid p c n f s = Some (Inl (Raise (s', x)))"
    using assms(1) r by (simp add: call_user_function_def Let_def)
  have h: "handle_exception x s' = unwind x s'"
    using s' assms(7,11,12) by (simp add: handle_exception_def get_lineno_def)
  have o: "outermost_ops gs (vm_ops s') = code_opcodes c"
  proof -
    have "find (\<lambda>g. frame_type g = FRAME_TYPE_FUNCTION) gs = None" using assms(10) by (simp add: find_None_iff)
    then show ?thesis by (simp add: outermost_ops_def s')
  qed
  have "frame_stack s' = fs @ t # gs" "\<forall>g \<in> set gs. frame_type g \<noteq> FRAME_TYPE_TRY"
    using s' assms(7,10) by auto
  from unwind_frames [OF this(1) assms(8,9) this(2), of x] show ?thesis
    using c h o by auto
qed

text \<open>A function of one argument called with none, inside a try.\<close>

definition needs_one :: code where
  "needs_one = (new_code 0 0 [] 1 (Some [''x'']))\<lparr>code_defaults := Some [-1],
     code_opcodes := op_push_back (mk_op OP_RETURN) 9 new_op_array\<rparr>"

theorem missing_argument_wrong_code_witness:
  "\<exists>s' x s''. call_user_function (\<lambda>_. None) 0 None needs_one 0 (snd (new_frame FRAME_TYPE_FUNCTION 0 0 [] []))
       ((new_vm (op_push_back (mk_op OP_FUNCALL) 1 new_op_array) empty_symtab)
          \<lparr>frame_stack := frame_stack (new_vm new_op_array empty_symtab) @
            [(snd (new_frame FRAME_TYPE_TRY 0 0 [] []))\<lparr>return_address := 7\<rparr>]\<rparr>) =
       Some (Inl (Raise (s', x))) \<and>
     handle_exception x s' = Inr s'' \<and> pc s'' = 8 \<and> vm_ops s'' = code_opcodes needs_one"
proof -
  let ?t = "(snd (new_frame FRAME_TYPE_TRY 0 0 [] []))\<lparr>return_address := 7\<rparr>"
  let ?fs = "frame_stack (new_vm new_op_array empty_symtab)"
  let ?s = "(new_vm (op_push_back (mk_op OP_FUNCALL) 1 new_op_array) empty_symtab)
    \<lparr>frame_stack := ?fs @ [?t]\<rparr>"
  have "\<exists>s' x s''. call_user_function (\<lambda>_. None) 0 None needs_one 0 (snd (new_frame FRAME_TYPE_FUNCTION 0 0 [] [])) ?s =
       Some (Inl (Raise (s', x))) \<and> handle_exception x s' = Inr s'' \<and> frame_stack s'' = ?fs \<and>
     pc s'' = return_address ?t + 1 \<and> vm_ops s'' = code_opcodes needs_one"
    by (rule missing_argument_wrong_code [where ps = "[''x'']" and ds = "[-1]" and t = ?t and gs = "[]" and fs = ?fs])
      (simp_all add: needs_one_def new_code_def op_push_back_def new_vm_def new_frame_def new_pad_def)
  then show ?thesis by auto
qed

subsection \<open>Local variables\<close>

lemma getlocal_observe:
  assumes "get_int_operand s = Inr j" "frame_stack s \<noteq> []"
    and "observe (heap s) (frame_get_variable (pads s) (last (frame_stack s)) j) = Inr y"
  shows "\<exists>s' p. pp_getlocal s = Inr s' \<and> stack s' = stack s @ [p] \<and> deref (heap s') p = Inr y"
proof -
  obtain q where q: "frame_get_variable (pads s) (last (frame_stack s)) j = Inr q"
    using assms(3) by (auto simp: observe_def bnd_Inr_iff)
  then have "pp_getlocal s = Inr (case q of None \<Rightarrow> push_new UndefValue s | Some p \<Rightarrow> push p s)"
    using assms(1,2) by (simp add: pp_getlocal_def frame_top_def push_read_def lift_val_def)
  then show ?thesis using assms(3) q by (cases q) (auto simp: observe_def)
qed

lemma assigned_value_plain:
  "deref (heap s) p = Inr x \<Longrightarrow> (\<And>ps. x \<noteq> TupleValue ps) \<Longrightarrow> assigned_value s p = Inr p"
  by (cases x) (auto simp: assigned_value_def vm_deref_def lift_val_def)

text \<open>An assignment to a local variable stores the value on top of the stack, which stays there:
  every later read of that variable in the same frame shows it, and every other local
  variable of the frame reads as before, also one that was never assigned.\<close>

theorem local_assignment:
  assumes "get_int_operand s = Inr i" "frame_stack s \<noteq> []" "f = last (frame_stack s)"
    and "0 \<le> sint i" "nat (sint i) < vars_cnt f" "sint i + 1 < 2 ^ 31"
    and "stack s \<noteq> []" "deref (heap s) (last (stack s)) = Inr x" "\<And>ps. x \<noteq> TupleValue ps"
    and "frame_pad f < length (pads s)" "xs = pad_vars (pads s ! frame_pad f)"
    and "length xs < 2 ^ 31" "live (heap s) xs"
  shows "\<exists>s'. pp_setlocal s = Inr s' \<and> stack s' = stack s \<and> frame_stack s' = frame_stack s \<and>
    (\<forall>j. 0 \<le> sint j \<and> nat (sint j) < vars_cnt f \<longrightarrow>
       observe (heap s') (frame_get_variable (pads s') f j) =
         (if j = i then Inr x else observe (heap s) (frame_get_variable (pads s) f j)))"
proof -
  let ?v = "last (stack s)"
  have nn: "?v \<noteq> None" using assms(8) by (rule deref_nonnull)
  obtain h ys where put: "pad_set (heap s) xs i ?v = Inr (h, ys)"
    using padv.put_eq [OF assms(4,12,8)] by blast
  have set: "pp_setlocal s = Inr (s\<lparr>heap := h,
      pads := (pads s)[frame_pad f := (pads s ! frame_pad f)\<lparr>pad_vars := ys\<rparr>]\<rparr>)"
    using assms(1-7,10) put assigned_value_plain [OF assms(8,9)]
    by (simp add: pp_setlocal_def stack_top_def frame_top_def frame_set_variable_def pad_set_at_def
        pad_at_def write_pads_def lift_val_def assms(11))
  have get: "observe h (pad_get ys j) = (if j = i then Inr x else observe (heap s) (pad_get xs j))"
    if "0 \<le> sint j" for j
    by (rule padv.get_put [OF assms(4,6) that assms(12,13,8) put])
  show ?thesis
    using get assms(10,11) by (simp add: set frame_get_variable_def pad_get_at_def pad_at_def)
qed

theorem local_assignment_witness:
  "\<exists>s' f. let s = (new_vm (op_push_back (mk_op_int OP_SETLOCAL 1) 1 new_op_array) empty_symtab)
        \<lparr>heap := [IntValue 7], stack := [Some 0], frame_stack := [f], pads := [\<lparr>pad_vars = [], next_pad = None\<rparr>]\<rparr>
     in pp_setlocal s = Inr s' \<and> stack s' = [Some 0] \<and>
        observe (heap s') (frame_get_variable (pads s') f 1) = Inr (IntValue 7)"
proof -
  let ?f = "snd (new_frame FRAME_TYPE_LEXICAL 2 0 [] [])"
  let ?s = "(new_vm (op_push_back (mk_op_int OP_SETLOCAL 1) 1 new_op_array) empty_symtab)
        \<lparr>heap := [IntValue 7], stack := [Some 0], frame_stack := [?f], pads := [\<lparr>pad_vars = [], next_pad = None\<rparr>]\<rparr>"
  have "\<exists>s'. pp_setlocal ?s = Inr s' \<and> stack s' = stack ?s \<and> frame_stack s' = frame_stack ?s \<and>
    (\<forall>j. 0 \<le> sint j \<and> nat (sint j) < vars_cnt ?f \<longrightarrow>
       observe (heap s') (frame_get_variable (pads s') ?f j) =
         (if j = 1 then Inr (IntValue 7) else observe (heap ?s) (frame_get_variable (pads ?s) ?f j)))"
    by (rule local_assignment [where xs = "[]"])
      (simp_all add: get_int_operand_def cur_op_def op_at_def op_push_back_def new_op_array_def
        mk_op_int_def int_operand_def new_vm_def new_frame_def new_pad_def live_def)
  then show ?thesis by (force simp: new_frame_def new_pad_def)
qed

text \<open>The increment operators change the integer object, not the variable: the new value is seen
  through every variable, element or argument that holds the same object, while the postfix
  form leaves a fresh object with the old value on the stack.\<close>

theorem increment_shared_object:
  assumes "stack s \<noteq> []" "last (stack s) = Some a" "a < length (heap s)" "heap s ! a = IntValue i"
  shows "\<exists>s1 s2. pp_pre_increment s = Inr s1 \<and> pp_post_increment s = Inr s2 \<and>
      stack s1 = stack s \<and> stack s2 = butlast (stack s) @ [Some (length (heap s))] \<and>
      deref (heap s2) (Some (length (heap s))) = Inr (IntValue i) \<and>
      (\<forall>s' b. s' \<in> {s1, s2} \<and> b < length (heap s) \<longrightarrow>
         deref (heap s') (Some b) = (if b = a then Inr (IntValue (i + 1)) else deref (heap s) (Some b)))"
  using assms append_butlast_last_id [OF assms(1)]
  by (auto simp: pp_pre_increment_def pp_post_increment_def pp_step_int_def pop_def vm_deref_def lift_val_def
      store_def push_new_def alloc_def push_def nth_append deref_def)

theorem increment_shared_object_witness:
  "\<exists>s1. pp_pre_increment ((new_vm new_op_array empty_symtab)\<lparr>heap := [IntValue 7], stack := [Some 0, Some 0]\<rparr>) =
     Inr s1 \<and> stack s1 = [Some 0, Some 0] \<and> deref (heap s1) (Some 0) = Inr (IntValue 8)"
  using increment_shared_object [of "(new_vm new_op_array empty_symtab)\<lparr>heap := [IntValue 7], stack := [Some 0, Some 0]\<rparr>" 0 7]
  by force

subsection \<open>Returning\<close>

lemma return_from_inner:
  assumes "frame_stack s = fs @ f # gs" "\<forall>g \<in> set gs. frame_type g \<notin> {FRAME_TYPE_FUNCTION, FRAME_TYPE_TRY}"
    and "frame_type f = FRAME_TYPE_FUNCTION" "argcnt f \<le> int (top f)"
  shows "\<exists>s'. return_from v s = Inr s' \<and> frame_stack s' = fs \<and> pc s' = return_address f \<and>
    vm_ops s' = orig_ops f \<and> stack s' = vresize (nat (int (top f) - argcnt f)) (stack s) @ [v] \<and>
    heap s' = heap s \<and> mark_stack s' = mark_stack s"
  using assms
proof (induction gs arbitrary: s rule: rev_induct)
  case Nil
  then show ?case by (subst return_from.simps) (simp add: Let_def)
next
  case (snoc g gs)
  have "return_from v s = return_from v (pop_frame s)"
    using snoc.prems by (subst return_from.simps) (simp add: Let_def)
  then show ?case
    using snoc.IH [of "pop_frame s"] snoc.prems by (simp add: butlast_append)
qed

text \<open>C7. A return leaves the call: whatever lexical, loop or class frames are open above the frame of
  the function, they are dropped with it, the caller's code and the address of its call
  instruction are restored, the arguments and everything above them are removed, the value
  returned (the top of the stack, or undef when the body pushed nothing) is pushed, and the
  mark of the call is taken back.\<close>

theorem return_restores_caller:
  assumes "frame_stack s = fs @ f # gs" "\<forall>g \<in> set gs. frame_type g \<notin> {FRAME_TYPE_FUNCTION, FRAME_TYPE_TRY}"
    and "frame_type f = FRAME_TYPE_FUNCTION" "0 \<le> argcnt f" "top f = length base + nat (argcnt f)"
    and "stack s = base @ args @ locals" "length args = nat (argcnt f)"
    and "mark_stack s = ms @ [int (top f)]" "live (heap s) locals"
  shows "\<exists>s' v. pp_return s = Inr s' \<and> frame_stack s' = fs \<and> pc s' = return_address f \<and>
    vm_ops s' = orig_ops f \<and> stack s' = base @ [v] \<and> mark_stack s' = ms \<and>
    deref (heap s') v = (if locals = [] then Inr UndefValue else deref (heap s) (last locals))"
proof -
  have n: "nat (int (top f) - argcnt f) = length base" "argcnt f \<le> int (top f)"
    using assms(4,5) by auto
  show ?thesis
  proof (cases "locals = []")
    case True
    let ?s = "s\<lparr>heap := heap s @ [UndefValue], mark_stack := ms\<rparr>"
    have r: "return_value s = Inr (Some (length (heap s)), ?s)"
      using True assms(5-8) by (simp add: return_value_def alloc_def Let_def)
    have "frame_stack ?s = fs @ f # gs" using assms(1) by simp
    from return_from_inner [OF this assms(2,3) n(2), of "Some (length (heap s))"]
    show ?thesis using True r n(1) assms(6) by (auto simp: pp_return_def vresize_def)
  next
    case False
    let ?s = "s\<lparr>stack := base @ args @ butlast locals, mark_stack := ms\<rparr>"
    have r: "return_value s = Inr (last locals, ?s)"
      using False assms(5-8) by (cases locals rule: rev_cases) (simp_all add: return_value_def butlast_append Let_def)
    have "frame_stack ?s = fs @ f # gs" using assms(1) by simp
    from return_from_inner [OF this assms(2,3) n(2), of "last locals"]
    show ?thesis using False r n(1) by (auto simp: pp_return_def vresize_def)
  qed
qed

theorem return_restores_caller_witness:
  "\<exists>s' v f. pp_return ((new_vm new_op_array empty_symtab)\<lparr>heap := [IntValue 1, IntValue 2, IntValue 3],
       stack := [Some 0, Some 1, Some 2], mark_stack := [2], frame_stack := [f]\<rparr>) = Inr s' \<and>
     stack s' = [Some 0, v] \<and> deref (heap s') v = Inr (IntValue 3) \<and> pc s' = 9"
proof -
  let ?f = "(snd (new_frame FRAME_TYPE_FUNCTION 1 2 [] []))\<lparr>argcnt := 1, return_address := 9\<rparr>"
  let ?s = "(new_vm new_op_array empty_symtab)\<lparr>heap := [IntValue 1, IntValue 2, IntValue 3],
       stack := [Some 0, Some 1, Some 2], mark_stack := [2], frame_stack := [?f]\<rparr>"
  have "\<exists>s' v. pp_return ?s = Inr s' \<and> frame_stack s' = [] \<and> pc s' = return_address ?f \<and>
    vm_ops s' = orig_ops ?f \<and> stack s' = [Some 0] @ [v] \<and> mark_stack s' = [] \<and>
    deref (heap s') v = (if [Some 2] = ([] :: ptr list) then Inr UndefValue else deref (heap ?s) (last [Some 2]))"
    by (rule return_restores_caller [where gs = "[]" and args = "[Some 1]"])
      (simp_all add: new_frame_def new_pad_def live_def)
  then show ?thesis by force
qed

subsection \<open>File tests\<close>

text \<open>The tests -f and -d look at single bits of the mode, so they do not tell the kinds of
  files apart: a socket passes -f and a block device passes -d, a regular file passes only
  -f and a directory only -d.\<close>

theorem file_test_kinds:
  "file_test (Some (mode, sz)) 102 = Inr (BoolValue (bit mode 15)) \<and>
   file_test (Some (mode, sz)) 100 = Inr (BoolValue (bit mode 14)) \<and>
   file_test (Some (0xC1ED, sz)) 102 = Inr (BoolValue True) \<and>
   file_test (Some (0x61B0, sz)) 100 = Inr (BoolValue True) \<and>
   file_test (Some (0x81A4, sz)) 102 = Inr (BoolValue True) \<and>
   file_test (Some (0x81A4, sz)) 100 = Inr (BoolValue False) \<and>
   file_test (Some (0x41ED, sz)) 100 = Inr (BoolValue True) \<and>
   file_test (Some (0x41ED, sz)) 102 = Inr (BoolValue False) \<and>
   file_test None 115 = Inr UndefValue"
proof -
  have "(mode AND 0x8000 = 0) = (\<not> bit mode 15)" "(mode AND 0x4000 = 0) = (\<not> bit mode 14)"
    using and_exp_eq_0_iff_not_bit [of mode 15] and_exp_eq_0_iff_not_bit [of mode 14] by simp_all
  then show ?thesis by (simp add: file_test_def S_IFREG_def S_IFDIR_def)
qed


subsection \<open>Foreach\<close>

lemma deref_store: "deref h (Some b) = Inr y \<Longrightarrow>
    deref (store (Some b) x h) (Some a) = (if a = b then Inr x else deref h (Some a))"
  by (auto simp: deref_def store_def split: if_splits)

text \<open>A turn of foreach over a range cuts the stack back to the top of the loop's frame and pushes
  the next integer, whether or not the cell of the last turn is reused, and moves the
  iterator by one; past the end it pushes the end-of-iteration exception.\<close>

theorem for_iter_range:
  assumes "frame_stack s = fs @ [f]" "frame_type f = FRAME_TYPE_FOREACH" "iter f = Some it"
    and "heap s ! it = RangeIterator c (Some r)" "it < length (heap s)"
    and "heap s ! r = RangeValue lo (Some e)" "r < length (heap s)"
    and "heap s ! e = IntValue hi" "e < length (heap s)"
    and "\<And>a. current_value f = Some a \<Longrightarrow> a < length (heap s) \<and> (\<exists>k. heap s ! a = IntValue k) \<and> a \<noteq> e"
  shows "\<exists>s' p. pp_for_iter H s = Some (Inr s') \<and> stack s' = vresize (top f) (stack s) @ [p] \<and>
    (if sint c \<le> sint hi
     then deref (heap s') p = Inr (IntValue c) \<and> deref (heap s') (Some it) = Inr (RangeIterator (c + 1) (Some r)) \<and>
       deref (heap s') (Some e) = Inr (IntValue hi)
     else deref (heap s') p = Inr stop_iteration_exception)"
proof -
  have it: "pp_for_iter H s = (if sint c \<le> sint hi
      then obnd (Some (range_value H f c (resize_stack (top f) s))) (\<lambda>s2.
             Some (Inr (s2\<lparr>heap := store (Some it) (RangeIterator (c + 1) (Some r)) (heap s2)\<rparr>)))
      else Some (Inr (push_stop (resize_stack (top f) s))))"
    using assms(1-9) by (simp add: pp_for_iter_def frame_top_def vm_deref_def lift_val_def range_end_def Let_def)
  show ?thesis
  proof (cases "sint c \<le> sint hi")
    case False
    then show ?thesis using it by (simp add: push_stop_def)
  next
    case le: True
    show ?thesis
    proof (cases "current_value f \<noteq> None \<and> refcnt H (resize_stack (top f) s) (current_value f) = 2")
      case True
      then obtain a k where a: "current_value f = Some a" "a < length (heap s)" "heap s ! a = IntValue k" "a \<noteq> e"
        using assms(10) by blast
      then have "a \<noteq> it" "it \<noteq> e" using assms(4,8) by auto
      then show ?thesis using le it True a assms(5,8,9)
        by (simp add: range_value_def vm_deref_def lift_val_def store_def Let_def)
    next
      case False
      have "it \<noteq> e" using assms(4,8) by auto
      then show ?thesis using le it False assms(5,8,9)
        by (auto simp add: range_value_def alloc_def store_def Let_def nth_append nth_list_update)
    qed
  qed
qed

theorem for_iter_range_witness:
  "\<forall>H. \<exists>s' p f. pp_for_iter H ((new_vm new_op_array empty_symtab)\<lparr>heap := [IntValue 3, RangeValue (Some 0) (Some 0),
       RangeIterator 3 (Some 1)], stack := [None], frame_stack := [f]\<rparr>) = Some (Inr s') \<and>
     stack s' = [p] \<and> deref (heap s') p = Inr (IntValue 3) \<and>
     deref (heap s') (Some 2) = Inr (RangeIterator 4 (Some 1))"
proof
  fix H
  let ?f = "(snd (new_frame FRAME_TYPE_FOREACH 1 0 [] []))\<lparr>iter := Some 2\<rparr>"
  let ?s = "(new_vm new_op_array empty_symtab)\<lparr>heap := [IntValue 3, RangeValue (Some 0) (Some 0),
       RangeIterator 3 (Some 1)], stack := [None], frame_stack := [?f]\<rparr>"
  have "\<exists>s' p. pp_for_iter H ?s = Some (Inr s') \<and> stack s' = vresize (top ?f) (stack ?s) @ [p] \<and>
    (if sint (3 :: i32) \<le> sint (3 :: i32)
     then deref (heap s') p = Inr (IntValue 3) \<and> deref (heap s') (Some 2) = Inr (RangeIterator (3 + 1) (Some 1)) \<and>
       deref (heap s') (Some 0) = Inr (IntValue 3)
     else deref (heap s') p = Inr stop_iteration_exception)"
    by (rule for_iter_range [where fs = "[]" and f = ?f and lo = "Some 0"])
      (simp_all add: new_frame_def new_pad_def)
  then show "\<exists>s' p f. pp_for_iter H ((new_vm new_op_array empty_symtab)\<lparr>heap := [IntValue 3, RangeValue (Some 0) (Some 0),
       RangeIterator 3 (Some 1)], stack := [None], frame_stack := [f]\<rparr>) = Some (Inr s') \<and>
     stack s' = [p] \<and> deref (heap s') p = Inr (IntValue 3) \<and>
     deref (heap s') (Some 2) = Inr (RangeIterator 4 (Some 1))"
    by (force simp: new_frame_def new_pad_def vresize_def)
qed

subsection \<open>Fuel\<close>

text \<open>One nested run extends another when it gives the same result wherever that one ends.\<close>

definition extends :: "runner \<Rightarrow> runner \<Rightarrow> bool" where
  "extends ex ex' = (\<forall>s r. ex s = Some r \<longrightarrow> ex' s = Some r)"

definition le_opt :: "'a option \<Rightarrow> 'a option \<Rightarrow> bool" where
  "le_opt a b = (a = None \<or> a = b)"

named_theorems le_opt_intros

lemma le_opt_refl [le_opt_intros]: "le_opt a a"
  by (simp add: le_opt_def)

lemma le_opt_None [le_opt_intros]: "le_opt None a"
  by (simp add: le_opt_def)

lemma le_opt_obnd [le_opt_intros]:
  "le_opt m m' \<Longrightarrow> (\<And>a. le_opt (f a) (g a)) \<Longrightarrow> le_opt (obnd m f) (obnd m' g)"
  by (auto simp: le_opt_def obnd_def split: option.splits sum.splits)

lemma le_opt_if [le_opt_intros]: "le_opt a a' \<Longrightarrow> le_opt b b' \<Longrightarrow> le_opt (if c then a else b) (if c then a' else b')"
  by simp

lemma le_opt_extends: "extends ex ex' \<Longrightarrow> le_opt (ex s) (ex' s)"
  by (cases "ex s") (auto simp: le_opt_def extends_def)

lemma le_function_call_ex [le_opt_intros]: 
  assumes e: "extends ex ex'" shows "le_opt (function_call_ex H ex n p v s) (function_call_ex H ex' n p v s)"
  by (auto simp: function_call_ex_def Let_def intro!: le_opt_intros e le_opt_extends [OF e] split: option.split)

lemma le_call_method [le_opt_intros]: 
  assumes e: "extends ex ex'" shows "le_opt (call_method H ex p q s) (call_method H ex' p q s)"
  by (auto simp: call_method_def Let_def intro!: le_opt_intros e le_opt_extends [OF e] split: option.split obj.split)

lemma le_default_arguments [le_opt_intros]: 
  assumes e: "extends ex ex'" shows "le_opt (default_arguments ex m c st r k n tp s) (default_arguments ex' m c st r k n tp s)"
  by (induction r arbitrary: k n tp s)
    (auto intro!: le_opt_intros e le_opt_extends [OF e] split: option.split)

lemma le_call_user_function [le_opt_intros]: 
  assumes e: "extends ex ex'" shows "le_opt (call_user_function ex fid p c n f s) (call_user_function ex' fid p c n f s)"
  by (auto simp: call_user_function_def Let_def intro!: le_opt_intros e le_opt_extends [OF e] split: option.split)

lemma le_pp_funcall [le_opt_intros]: 
  assumes e: "extends ex ex'" shows "le_opt (pp_funcall H ex s) (pp_funcall H ex' s)"
  by (auto simp: pp_funcall_def Let_def intro!: le_opt_intros e le_opt_extends [OF e] split: option.split obj.split prod.split)

lemma le_step:
  assumes e: "extends ex ex'" shows "le_opt (step H ex t s) (step H ex' t s)"
  by (auto simp: step_def control_group_def pp_method_call_def intro!: le_opt_intros e le_opt_extends [OF e]
      split: op_type.split control_op.split)

definition after_step :: "vm vm_result option \<Rightarrow> runner \<Rightarrow> vm vm_result option" where
  "after_step r ex = (case r of
       None \<Rightarrow> None
     | Some (Inr s') \<Rightarrow> ex (s'\<lparr>pc := pc s' + 1\<rparr>)
     | Some (Inl (Raise (s', x))) \<Rightarrow> (case handle_exception x s' of
         Inr s'' \<Rightarrow> ex s'' | Inl e \<Rightarrow> Some (Inl e))
     | Some (Inl e) \<Rightarrow> Some (Inl e))"

lemma execute_Suc_eq: "execute H (Suc n) s = (case cur_op_type s of
    Inl e \<Rightarrow> Some (Inl e)
  | Inr t \<Rightarrow> if t = OP_END then Some (Inr s) else after_step (step H (execute H n) t s) (execute H n))"
  unfolding execute.simps after_step_def by (rule refl)

lemma le_after_step: "le_opt r r' \<Longrightarrow> extends ex ex' \<Longrightarrow> le_opt (after_step r ex) (after_step r' ex')"
  using le_opt_extends [of ex ex']
  by (fastforce simp: le_opt_def after_step_def split: option.splits sum.splits fault.splits)

lemma execute_Suc: "extends (execute H n) (execute H (Suc n))"
proof (induction n)
  case 0
  then show ?case by (simp add: extends_def)
next
  case (Suc n)
  have "le_opt (execute H (Suc n) s) (execute H (Suc (Suc n)) s)" for s
    unfolding execute_Suc_eq [of H n s] execute_Suc_eq [of H "Suc n" s]
    by (auto intro!: le_opt_intros le_after_step le_step Suc simp del: execute.simps split: sum.split)
  then show ?case unfolding extends_def le_opt_def by (metis option.distinct(1))
qed

text \<open>The fuel only bounds the run: a result, be it a final state, a fault or the end of the
  process, is the same for every larger fuel, so a program has at most one result.\<close>

theorem execute_result_unique:
  assumes "execute H n s = Some r" "execute H m s = Some r'"
  shows "r' = r"
proof -
  have mono: "execute H (i + j) s = Some q" if "execute H i s = Some q" for i j q
    using that execute_Suc unfolding extends_def by (induction j) auto
  have "execute H (n + m) s = Some r" "execute H (n + m) s = Some r'"
    using mono [OF assms(1), of m] mono [OF assms(2), of n] by (simp_all add: add.commute)
  then show ?thesis by simp
qed

theorem execute_result_unique_witness:
  "\<forall>H. execute H 5 (new_vm end_ops empty_symtab) = execute H 1 (new_vm end_ops empty_symtab)"
proof
  fix H
  have "cur_op_type (new_vm end_ops empty_symtab) = Inr OP_END"
    by (simp add: cur_op_type_def op_type_at_def end_ops_def op_push_back_def new_op_array_def mk_op_def
        new_vm_def new_frame_def new_pad_def)
  then have e: "execute H (Suc n) (new_vm end_ops empty_symtab) = Some (Inr (new_vm end_ops empty_symtab))" for n
    by simp
  show "execute H 5 (new_vm end_ops empty_symtab) = execute H 1 (new_vm end_ops empty_symtab)"
    using execute_result_unique [OF e [of 0] e [of 4]] e [of 0] e [of 4] by (simp add: eval_nat_numeral)
qed

end
