(* ===== verification/Tora_Node.thy ===== *)
theory Tora_Node
  imports Tora_Value
begin

text \<open>
  The syntax tree (\<open>tora/node.h\<close>; the node types of \<open>tora/nodes.gen.pl\<close>) in the shapes that
  \<open>tora/parser.yy\<close> builds. A node is its line number and its body; the bodies of one shape that
  the compiler treats alike share a constructor that carries the node type. A null child is
  \<open>None\<close>; names that the parser always makes a \<open>StrNode\<close> are strings.
\<close>

subsection \<open>Node types of one shape (tora/nodes.gen.pl)\<close>

datatype plain_node =
    NODE_TRUE
  | NODE_FALSE
  | NODE_UNDEF
  | NODE_SELF
  | NODE_VOID
  | NODE_NEWLINE
  | NODE_DOTDOTDOT
  | NODE_LAST
  | NODE_NEXT
  | NODE_REDO

datatype str_node =
    NODE_STRING
  | NODE_BYTES
  | NODE_IDENTIFIER
  | NODE_INSTANCIATE_IDENTIFIER
  | NODE_GETVARIABLE
  | NODE_GET_PACKAGE_VARIABLE

datatype unary_node =
    NODE_UNARY_NEGATIVE
  | NODE_NOT
  | NODE_POST_DECREMENT
  | NODE_PRE_DECREMENT
  | NODE_POST_INCREMENT
  | NODE_PRE_INCREMENT
  | NODE_DIE
  | NODE_DEREF
  | NODE_EXTRACT_ARRAY

datatype binary_node =
    NODE_ADD
  | NODE_SUB
  | NODE_MUL
  | NODE_MOD
  | NODE_DIV
  | NODE_POW
  | NODE_LT
  | NODE_GT
  | NODE_LE
  | NODE_GE
  | NODE_EQ
  | NODE_NE
  | NODE_BITAND
  | NODE_BITOR
  | NODE_BITXOR
  | NODE_BITLSHIFT
  | NODE_BITRSHIFT

datatype assign_node =
    NODE_ADD_ASSIGN
  | NODE_SUB_ASSIGN
  | NODE_MUL_ASSIGN
  | NODE_DIV_ASSIGN
  | NODE_AND_ASSIGN
  | NODE_OR_ASSIGN
  | NODE_OROR_ASSIGN
  | NODE_XOR_ASSIGN
  | NODE_MOD_ASSIGN

subsection \<open>Nodes (tora/node.h)\<close>

datatype (plugins only: code size) node = Node nat body
and body =
    PlainNode plain_node
  | StrNode str_node string
  | RegexpNode string i32
  | IntNode i32
  | DoubleNode dbl
  | UnaryNode unary_node node
  | BinaryNode binary_node node node
  | AssignNode assign_node node node
  | LogicalAnd node node
  | LogicalOr node node
  | RangeNode node node
  | SetVariable node node
  | SetVariableMulti "node list" node
  | GetItem node node
  | FileTest i32 node
  | UseNode node node
  | Stmts node node
  | StmtsList "node list"
  | TupleNode "node list"
  | MyNode "node list"
  | LocalNode node "node option"
  | ReturnNode "node list"
  | MakeArray "node list"
  | MakeHash "node list"
  | RootNode node
  | BlockNode node
  | TryNode node
  | WhileNode node node
  | ForNode node node node node
  | ForEachNode node "string list option" node
  | IfNode node "node option" "node option"
  | FuncallNode string "node list"
  | MethodCallNode node "node option" "node list"
  | LambdaNode "string list" "node option"
  | FuncdefNode string "(string \<times> node option) list option" node
  | ClassNode string "string option" "node option"

fun lineno :: "node \<Rightarrow> nat" where
  "lineno (Node l b) = l"

fun body_of :: "node \<Rightarrow> body" where
  "body_of (Node l b) = b"

text \<open>\<open>node->upcast<StrNode>()->str_value\<close> reads memory that is not there on another node.\<close>

definition str_value :: "node \<Rightarrow> string val_result" where
  "str_value n = (case body_of n of StrNode _ s \<Rightarrow> Inr s | _ \<Rightarrow> Inl Undefined)"

definition is_getvariable :: "node \<Rightarrow> bool" where
  "is_getvariable n = (case body_of n of StrNode t _ \<Rightarrow> t = NODE_GETVARIABLE | _ \<Rightarrow> False)"

definition is_get_item :: "node \<Rightarrow> bool" where
  "is_get_item n = (case body_of n of GetItem _ _ \<Rightarrow> True | _ \<Rightarrow> False)"

text \<open>
  \<open>count_variable_declare\<close>: the declarations below a node, those of nested scopes and functions
  included. Compiling an array literal or a method call removes its arguments from the tree
  (\<open>args->pop_back()\<close>), so the count depends on how many times \<open>t\<close> the node has been compiled.
\<close>

fun count_variable_declare :: "nat \<Rightarrow> node \<Rightarrow> nat" where
  "count_variable_declare t (Node l b) = (case b of
       PlainNode _ \<Rightarrow> 0
     | StrNode _ _ \<Rightarrow> 0
     | RegexpNode _ _ \<Rightarrow> 0
     | IntNode _ \<Rightarrow> 0
     | DoubleNode _ \<Rightarrow> 0
     | UnaryNode _ n \<Rightarrow> count_variable_declare t n
     | BinaryNode _ n m \<Rightarrow> count_variable_declare t n + count_variable_declare t m
     | AssignNode _ n m \<Rightarrow> count_variable_declare t n + count_variable_declare t m
     | LogicalAnd n m \<Rightarrow> count_variable_declare t n + count_variable_declare t m
     | LogicalOr n m \<Rightarrow> count_variable_declare t n + count_variable_declare t m
     | RangeNode n m \<Rightarrow> count_variable_declare t n + count_variable_declare t m
     | SetVariable n m \<Rightarrow> count_variable_declare t n + count_variable_declare t m
     | SetVariableMulti ns m \<Rightarrow> sum_list (map (count_variable_declare t) ns) + count_variable_declare t m
     | GetItem n m \<Rightarrow> count_variable_declare t n + count_variable_declare t m
     | FileTest _ n \<Rightarrow> count_variable_declare t n
     | UseNode n m \<Rightarrow> count_variable_declare t n + count_variable_declare t m
     | Stmts n m \<Rightarrow> count_variable_declare t n + count_variable_declare t m
     | StmtsList ns \<Rightarrow> sum_list (map (count_variable_declare t) ns)
     | TupleNode ns \<Rightarrow> sum_list (map (count_variable_declare t) ns)
     | MyNode ns \<Rightarrow> length ns
     | LocalNode _ _ \<Rightarrow> 1
     | ReturnNode ns \<Rightarrow> sum_list (map (count_variable_declare t) ns)
     | MakeArray ns \<Rightarrow> if t = 0 then sum_list (map (count_variable_declare t) ns) else 0
     | MakeHash ns \<Rightarrow> sum_list (map (count_variable_declare t) ns)
     | RootNode n \<Rightarrow> count_variable_declare t n
     | BlockNode n \<Rightarrow> count_variable_declare t n
     | TryNode n \<Rightarrow> count_variable_declare t n
     | WhileNode n m \<Rightarrow> count_variable_declare t n + count_variable_declare t m
     | ForNode i c p n \<Rightarrow> count_variable_declare t i + count_variable_declare t c +
         count_variable_declare t p + count_variable_declare t n
     | ForEachNode n _ m \<Rightarrow> count_variable_declare t n + count_variable_declare t m
     | IfNode n m k \<Rightarrow> count_variable_declare t n +
         (case m of None \<Rightarrow> 0 | Some x \<Rightarrow> count_variable_declare t x) +
         (case k of None \<Rightarrow> 0 | Some x \<Rightarrow> count_variable_declare t x)
     | FuncallNode _ ns \<Rightarrow> sum_list (map (count_variable_declare t) ns)
     | MethodCallNode n m ns \<Rightarrow> count_variable_declare t n +
         (case m of None \<Rightarrow> 0 | Some x \<Rightarrow> count_variable_declare t x) +
         (if t = 0 then sum_list (map (count_variable_declare t) ns) else 0)
     | LambdaNode _ m \<Rightarrow> (case m of None \<Rightarrow> 0 | Some x \<Rightarrow> count_variable_declare t x)
     | FuncdefNode _ ps n \<Rightarrow> (case ps of None \<Rightarrow> 0
         | Some qs \<Rightarrow> sum_list (map (\<lambda>(_, d). case d of None \<Rightarrow> 0 | Some x \<Rightarrow> count_variable_declare t x) qs)) +
         count_variable_declare t n
     | ClassNode _ _ m \<Rightarrow> (case m of None \<Rightarrow> 0 | Some x \<Rightarrow> count_variable_declare t x))"

declare count_variable_declare.simps [simp del]

end
