(* ===== verification/Tora_Compiler.thy ===== *)
theory Tora_Compiler
  imports Tora_Node Tora_Symbol
begin

text \<open>
  The code generator (\<open>tora/compiler.h\<close>, \<open>tora/compiler.cc\<close>), with \<open>PERLISH_CLOSURE\<close> not
  defined. The state is the object \<open>Compiler\<close>; the messages it prints are left out, the
  count of errors is kept. One generator \<open>cg_*\<close> per case of the switch in
  \<open>Compiler::compile\<close> takes the generators of the children; \<open>compile\<close> composes them over the
  tree. A pointer into an instruction that is patched later is the index of the instruction.
\<close>

subsection \<open>State (tora/compiler.h)\<close>

datatype block_type =
    BLOCK_TYPE_BLOCK
  | BLOCK_TYPE_SUB
  | BLOCK_TYPE_FILE
  | BLOCK_TYPE_TRY
  | BLOCK_TYPE_FUNCDEF
  | BLOCK_TYPE_CLASS

record block =
  block_type :: block_type
  vars :: "string list"

text \<open>
  \<open>current_line\<close> is the line of \<open>current_node\<close>, null before the first node. The values that
  instructions hold are allocated in \<open>values\<close>, which a compiler shares with the compilers of
  the functions inside, like the symbol table.
\<close>

record compiler =
  package :: string
  comp_filename :: string
  comp_ops :: op_array
  blocks :: "block list"
  global_var_names :: "string list"
  closure_vars :: "string list"
  comp_symtab :: symtab
  error :: nat
  in_try_block :: bool
  in_class_context :: bool
  in_loop_context :: bool
  last_labels :: "nat list"
  current_line :: "nat option"
  "values" :: heap

type_synonym gen = "compiler \<Rightarrow> compiler val_result"

definition new_compiler :: "symtab \<Rightarrow> heap \<Rightarrow> string \<Rightarrow> compiler" where
  "new_compiler t h file =
     \<lparr>package = ''main'', comp_filename = file, comp_ops = new_op_array, blocks = [],
      global_var_names = [], closure_vars = [], comp_symtab = t, error = 0, in_try_block = False,
      in_class_context = False, in_loop_context = False, last_labels = [], current_line = None,
      values = h\<rparr>"

definition nop :: gen where
  "nop c = Inr c"

definition seq :: "gen \<Rightarrow> gen \<Rightarrow> gen" where
  "seq f g c = bnd (f c) g"

fun gen_all :: "gen list \<Rightarrow> gen" where
  "gen_all [] = nop"
| "gen_all (g # gs) = seq g (gen_all gs)"

definition push_op :: "op \<Rightarrow> gen" where
  "push_op o' c = (case current_line c of None \<Rightarrow> Inl Abort
     | Some l \<Rightarrow> Inr (c\<lparr>comp_ops := op_push_back o' l (comp_ops c)\<rparr>))"

definition fail :: gen where
  "fail c = (if current_line c = None then Inl Undefined else Inr (c\<lparr>error := error c + 1\<rparr>))"

definition add_error :: gen where
  "add_error c = Inr (c\<lparr>error := error c + 1\<rparr>)"

definition abort :: gen where
  "abort c = Inl Abort"

definition at_line :: "nat \<Rightarrow> gen" where
  "at_line l c = Inr (c\<lparr>current_line := Some l\<rparr>)"

text \<open>The position of the next instruction, and patching one by its position.\<close>

definition here :: "compiler \<Rightarrow> nat" where
  "here c = op_array_size (comp_ops c)"

definition patch :: "nat \<Rightarrow> nat \<Rightarrow> gen" where
  "patch i v c = Inr (c\<lparr>comp_ops := patch_operand i (word_of_nat v) (comp_ops c)\<rparr>)"

text \<open>\<open>label f\<close> remembers the position of the next instruction.\<close>

definition label :: "(nat \<Rightarrow> gen) \<Rightarrow> gen" where
  "label f c = f (here c) c"

definition with_package :: "(string \<Rightarrow> gen) \<Rightarrow> gen" where
  "with_package f c = f (package c) c"

definition with_id :: "string \<Rightarrow> (ID \<Rightarrow> gen) \<Rightarrow> gen" where
  "with_id s f c = (let (t, i) = get_id s (comp_symtab c) in f i (c\<lparr>comp_symtab := t\<rparr>))"

definition with_value :: "obj \<Rightarrow> (ptr \<Rightarrow> gen) \<Rightarrow> gen" where
  "with_value x f c = (let (h, a) = alloc x (values c) in f (Some a) (c\<lparr>values := h\<rparr>))"

definition push_block :: "block_type \<Rightarrow> gen" where
  "push_block t c = Inr (c\<lparr>blocks := blocks c @ [\<lparr>block_type = t, vars = []\<rparr>]\<rparr>)"

definition pop_block :: gen where
  "pop_block c = (if blocks c = [] then Inl Undefined else Inr (c\<lparr>blocks := butlast (blocks c)\<rparr>))"

text \<open>\<open>this->blocks->back().vars.size()\<close>\<close>

definition patch_vars_size :: "nat \<Rightarrow> gen" where
  "patch_vars_size i c = (if blocks c = [] then Inl Undefined
     else patch i (length (vars (last (blocks c)))) c)"

subsection \<open>Variables\<close>

definition define_global_var :: "string \<Rightarrow> gen" where
  "define_global_var name c = (if name \<in> set (global_var_names c) then Inl Abort
     else Inr (c\<lparr>global_var_names := global_var_names c @ [name]\<rparr>))"

definition comp_init_globals :: gen where
  "comp_init_globals = gen_all (map define_global_var
     [''$ARGV'', ''$ENV'', ''$LIBPATH'', ''$REQUIRED'', ''$STDIN'', ''$STDOUT'', ''$STDERR''])"

fun index_of :: "string \<Rightarrow> string list \<Rightarrow> nat option" where
  "index_of s [] = None"
| "index_of s (x # xs) = (if x = s then Some 0 else map_option Suc (index_of s xs))"

definition find_global_var :: "string \<Rightarrow> compiler \<Rightarrow> nat option" where
  "find_global_var name c = index_of name (global_var_names c)"

definition define_localvar :: "string \<Rightarrow> gen" where
  "define_localvar name c = (if blocks c = [] then Inl Undefined
     else let b = last (blocks c) in
       if name \<in> set (vars b) then fail c
       else Inr (c\<lparr>blocks := butlast (blocks c) @ [b\<lparr>vars := vars b @ [name]\<rparr>]\<rparr>))"

text \<open>
  \<open>find_localvar\<close> searches from the innermost block outwards. Its outputs: the index, the
  level, the level of the innermost function block when the variable lies outside it
  (\<open>need_closure\<close>), and whether the variable is a parameter.
\<close>

record binding =
  var_no :: nat
  level :: nat
  funcdef_level :: "nat option"
  is_arg :: bool

fun find_from :: "string \<Rightarrow> nat \<Rightarrow> nat option \<Rightarrow> block list \<Rightarrow> binding option" where
  "find_from name lv seen [] = None"
| "find_from name lv seen (b # bs) =
     (let seen' = (if block_type b = BLOCK_TYPE_FUNCDEF \<and> seen = None then Some lv else seen)
      in case index_of name (vars b) of
           Some i \<Rightarrow> Some \<lparr>var_no = i, level = lv,
             funcdef_level = (case seen' of Some f \<Rightarrow> if f < lv then Some f else None | None \<Rightarrow> None),
             is_arg = (block_type b = BLOCK_TYPE_FUNCDEF)\<rparr>
         | None \<Rightarrow> find_from name (Suc lv) seen' bs)"

definition find_localvar :: "string \<Rightarrow> compiler \<Rightarrow> binding option" where
  "find_localvar name c = find_from name 0 None (rev (blocks c))"

abbreviation w32 :: "nat \<Rightarrow> i32" where
  "w32 \<equiv> word_of_nat"

definition add_closure_var :: "string \<Rightarrow> gen" where
  "add_closure_var s c = Inr (c\<lparr>closure_vars := closure_vars c @ [s]\<rparr>)"

definition with_binding :: "string \<Rightarrow> gen \<Rightarrow> (binding \<Rightarrow> gen) \<Rightarrow> gen" where
  "with_binding v missing found c = (case find_localvar v c of None \<Rightarrow> missing c | Some r \<Rightarrow> found r c)"

definition cg_package_variable :: "op_type \<Rightarrow> string \<Rightarrow> string \<Rightarrow> gen" where
  "cg_package_variable o' pkg detail = with_id pkg (\<lambda>i. seq (push_op (mk_op_int OP_PUSH_IDENTIFIER i))
     (with_id (CHR ''$'' # detail) (\<lambda>j. push_op (mk_op_int o' j))))"

definition set_variable :: "string \<Rightarrow> gen" where
  "set_variable v = (case split_package_varname v of
       Some (pkg, detail) \<Rightarrow> cg_package_variable OP_SET_PACKAGE_VARIABLE pkg detail
     | None \<Rightarrow> with_binding v add_error (\<lambda>r. case funcdef_level r of
         Some f \<Rightarrow> seq (push_op (mk_op_high_low OP_SETCLOSURE (w32 (level r - f)) (w32 (var_no r))))
           (add_closure_var v)
       | None \<Rightarrow>
           if is_arg r then push_op (mk_op_int OP_SETARG (w32 (var_no r)))
           else if level r = 0 then push_op (mk_op_int OP_SETLOCAL (w32 (var_no r)))
           else push_op (mk_op_high_low OP_SETDYNAMIC (w32 (level r)) (w32 (var_no r)))))"

text \<open>Globals shadow package variables and lexical variables, but only when they are read.\<close>

definition cg_getvariable :: "string \<Rightarrow> gen" where
  "cg_getvariable v c = (case find_global_var v c of
       Some g \<Rightarrow> push_op (mk_op_int OP_GETGLOBAL (w32 g)) c
     | None \<Rightarrow> (case split_package_varname v of
         Some (pkg, detail) \<Rightarrow> cg_package_variable OP_GET_PACKAGE_VARIABLE pkg detail c
       | None \<Rightarrow> with_binding v fail (\<lambda>r. case funcdef_level r of
           Some f \<Rightarrow> seq (add_closure_var v)
             (push_op (mk_op_high_low OP_GETCLOSURE (w32 (level r - f)) (w32 (var_no r))))
         | None \<Rightarrow>
             if is_arg r then push_op (mk_op_int OP_GETARG (w32 (var_no r)))
             else if level r = 0 then push_op (mk_op_int OP_GETLOCAL (w32 (var_no r)))
             else push_op (mk_op_high_low OP_GETDYNAMIC (w32 (level r)) (w32 (var_no r)))) c))"

text \<open>
  \<open>define_my\<close>: a declaration without a value, for the children of a node. It stops at the first
  that is neither a variable nor a tuple; an enclosing tuple then goes on with its next child.
\<close>

fun define_my :: "node list \<Rightarrow> gen" where
  "define_my [] = nop"
| "define_my (Node l b # ns) = (case b of
       TupleNode ms \<Rightarrow> seq (define_my ms) (define_my ns)
     | StrNode NODE_GETVARIABLE s \<Rightarrow>
         seq (seq (define_localvar s) (seq (push_op (mk_op OP_PUSH_UNDEF)) (set_variable s))) (define_my ns)
     | _ \<Rightarrow> fail)"

subsection \<open>Guards and scopes\<close>

text \<open>The guards \<open>TryGuard\<close> and \<open>LoopContext\<close> restore the flag they change.\<close>

definition try_guard :: "bool \<Rightarrow> gen \<Rightarrow> gen" where
  "try_guard b g c = bnd (g (c\<lparr>in_try_block := b\<rparr>)) (\<lambda>c'. Inr (c'\<lparr>in_try_block := in_try_block c\<rparr>))"

definition loop_context :: "bool \<Rightarrow> gen \<Rightarrow> gen" where
  "loop_context b g c = bnd (g (c\<lparr>in_loop_context := b\<rparr>)) (\<lambda>c'. Inr (c'\<lparr>in_loop_context := in_loop_context c\<rparr>))"

text \<open>\<open>OptimizableEnterScope\<close> opens a scope only where something is declared.\<close>

definition enter_scope :: "nat \<Rightarrow> gen \<Rightarrow> gen" where
  "enter_scope decls g = (if decls = 0 then g
     else label (\<lambda>enter. seq (push_op (mk_op OP_ENTER)) (seq (push_block BLOCK_TYPE_BLOCK) (seq g
       (seq (push_op (mk_op OP_LEAVE)) (seq (patch_vars_size enter) pop_block))))))"

subsection \<open>Assignment (Compiler::set_lvalue)\<close>

definition is_builtin :: "string \<Rightarrow> bool" where
  "is_builtin s = (s \<in> set [''say'', ''__PACKAGE__'', ''p'', ''require'', ''eval'', ''do'', ''print'', ''self'',
     ''opendir'', ''typeof'', ''rand'', ''open'', ''exit'', ''dump_stack'', ''caller'', ''callee'', ''getcwd'',
     ''getpid'', ''getppid'', ''system'', ''abs'', ''atan2'', ''cos'', ''exp'', ''hex'', ''int'', ''log'', ''oct'',
     ''rand'', ''sin'', ''sqrt'', ''srand'', ''sprintf'', ''printf''])"

definition cg_string :: "string \<Rightarrow> gen" where
  "cg_string s = with_value (StrValue s) (\<lambda>p. push_op (mk_value_op OP_PUSH_STRING p))"

text \<open>\<open>STRING_IF_BAREWORD\<close>: a bareword compiles as the string; \<open>g\<close> is the generator of the node.\<close>

definition string_if_bareword :: "node \<Rightarrow> gen \<Rightarrow> gen" where
  "string_if_bareword n g = (case n of Node l b \<Rightarrow> (case b of
       StrNode NODE_INSTANCIATE_IDENTIFIER s \<Rightarrow> seq (at_line l) (cg_string s) | _ \<Rightarrow> g))"

definition cg_set_item :: "gen \<Rightarrow> gen \<Rightarrow> gen" where
  "cg_set_item container index = seq container (seq index (push_op (mk_op OP_SET_ITEM)))"

text \<open>A tuple on the left: \<open>sets\<close> assigns to one element each.\<close>

definition cg_set_tuple :: "gen list \<Rightarrow> gen" where
  "cg_set_tuple sets = seq (push_op (mk_op_int OP_EXTRACT_TUPLE (w32 (length sets))))
     (gen_all (map (\<lambda>g. seq g (push_op (mk_op OP_POP_TOP))) sets))"

fun names_of :: "node list \<Rightarrow> string list val_result" where
  "names_of [] = Inr []"
| "names_of (n # ns) = bnd (str_value n) (\<lambda>s. bnd (names_of ns) (\<lambda>ss. Inr (s # ss)))"

fun my_names :: "node list \<Rightarrow> string list val_result" where
  "my_names [] = Inr []"
| "my_names (n # ns) = bnd (case body_of n of TupleNode ms \<Rightarrow> names_of ms | _ \<Rightarrow> names_of [n])
     (\<lambda>ss. bnd (my_names ns) (\<lambda>ts. Inr (ss @ ts)))"

text \<open>\<open>sets\<close> are the assignments to the children.\<close>

definition cg_set_my :: "node list \<Rightarrow> gen list \<Rightarrow> gen" where
  "cg_set_my ns sets c = bnd (my_names ns) (\<lambda>names.
     seq (gen_all (map define_localvar names))
       (case sets of [g] \<Rightarrow> g | _ \<Rightarrow> add_error) c)"

text \<open>The variables of a foreach: one is assigned to, several are a tuple, \<open>$_\<close> when there is none.\<close>

definition set_foreach_vars :: "string list option \<Rightarrow> gen" where
  "set_foreach_vars vs = (let names = (case vs of None \<Rightarrow> [''$_''] | Some ss \<Rightarrow> ss)
     in seq (gen_all (map define_localvar names))
       (case names of [s] \<Rightarrow> set_variable s | _ \<Rightarrow> cg_set_tuple (map set_variable names)))"

subsection \<open>The cases of Compiler::compile\<close>

definition cg_op :: "op_type \<Rightarrow> gen" where
  "cg_op o' = push_op (mk_op o')"

definition cg_value :: "op_type \<Rightarrow> obj \<Rightarrow> gen" where
  "cg_value o' x = with_value x (\<lambda>p. push_op (mk_value_op o' p))"

definition cg_root :: "gen \<Rightarrow> gen" where
  "cg_root g = seq (push_block BLOCK_TYPE_FILE) (with_package (\<lambda>pkg. with_id pkg (\<lambda>i.
     seq (push_op (mk_op_int OP_PACKAGE_ENTER i)) (seq (push_block BLOCK_TYPE_BLOCK) (label (\<lambda>enter.
       seq (cg_op OP_ENTER) (seq g (seq (cg_op OP_END)
         (seq (patch_vars_size enter) (seq pop_block
           (seq (cg_op OP_PACKAGE_LEAVE) pop_block)))))))))))"

text \<open>\<open>rest\<close> compiles the initial value and assigns it, or compiles the variable.\<close>

definition cg_local :: "node \<Rightarrow> gen \<Rightarrow> gen" where
  "cg_local n rest c = (case body_of n of
       StrNode t s \<Rightarrow>
         if t \<noteq> NODE_GET_PACKAGE_VARIABLE \<and> t \<noteq> NODE_GETVARIABLE then fail c
         else if find_localvar s c \<noteq> None then fail c
         else seq (cg_string s) (seq (cg_op OP_LOCAL) rest) c
     | _ \<Rightarrow> fail c)"

text \<open>
  In a try block \<open>return\<close> inserts an undef in front of its values, into the tree; \<open>t\<close> is the
  number of times it has done so before. The line number of the new node is not initialised.
\<close>

definition cg_return :: "nat \<Rightarrow> gen list \<Rightarrow> gen" where
  "cg_return t gs c = (let es = (if in_try_block c
         then replicate (Suc t) (seq (at_line 0) (cg_op OP_PUSH_UNDEF)) @ gs else gs)
     in if length es = 1 then seq (hd es) (cg_op OP_RETURN) c
        else if es = [] then seq (cg_op OP_PUSH_UNDEF) (cg_op OP_RETURN) c
        else seq (gen_all es) (seq (push_op (mk_op_int OP_MAKE_TUPLE (w32 (length es))))
          (cg_op OP_RETURN)) c)"

text \<open>
  The compiler of a function starts from a copy of the blocks and shares the symbol table and
  the values. \<open>finish\<close> goes on in the outer compiler with the inner one at its end.
\<close>

definition sub_compiler ::
    "string \<Rightarrow> (compiler \<Rightarrow> (i32 list \<times> compiler) val_result) \<Rightarrow> (i32 list \<Rightarrow> compiler \<Rightarrow> gen) \<Rightarrow> gen" where
  "sub_compiler pkg g finish c =
     bnd (comp_init_globals (new_compiler (comp_symtab c) (values c) (comp_filename c))) (\<lambda>f0.
     bnd (g (f0\<lparr>package := pkg, blocks := blocks c\<rparr>)) (\<lambda>(ds, f).
     finish ds f (c\<lparr>comp_symtab := comp_symtab f, values := values f\<rparr>)))"

definition with_defaults :: "i32 list \<Rightarrow> gen \<Rightarrow> compiler \<Rightarrow> (i32 list \<times> compiler) val_result" where
  "with_defaults ds g c = bnd (g c) (\<lambda>c'. Inr (ds, c'))"

text \<open>The arguments of a constructor call are evaluated from left to right.\<close>

definition with_code ::
    "string \<Rightarrow> string \<Rightarrow> nat \<Rightarrow> string list option \<Rightarrow> i32 list option \<Rightarrow> compiler \<Rightarrow> (ptr \<Rightarrow> gen) \<Rightarrow> gen" where
  "with_code pkg name line params ds f k = with_id pkg (\<lambda>i. with_id name (\<lambda>j c.
     with_value (CodeValue ((new_code i j (comp_filename c) (w32 line) params)
       \<lparr>code_defaults := ds, code_opcodes := comp_ops f, closure_var_names := closure_vars f\<rparr>)) k c))"

definition closure_def :: "compiler \<Rightarrow> gen" where
  "closure_def f = push_op (mk_op_int OP_CLOSUREDEF (w32 (length (closure_vars f))))"

text \<open>The errors counted in the body of a lambda are not added to those of the compiler.\<close>

definition cg_lambda :: "nat \<Rightarrow> string list \<Rightarrow> gen \<Rightarrow> gen" where
  "cg_lambda line params body = (let ps = (if params = [] then [''$_''] else params)
     in try_guard False (seq (push_block BLOCK_TYPE_FUNCDEF) (seq (gen_all (map define_localvar ps))
       (with_package (\<lambda>pkg. sub_compiler pkg (with_defaults [] (seq body (cg_op OP_RETURN)))
         (\<lambda>_ f. seq pop_block (with_code ''<lambda>'' ''<lambda>'' line (Some ps) None f (\<lambda>p.
           seq (push_op (mk_value_op OP_PUSH_VALUE p)) (closure_def f)))))))))"

text \<open>
  The defaults of the parameters come first in the code of the function, behind a jump; \<open>ds\<close>
  are their addresses, -1 for none.
\<close>

fun cg_defaults :: "gen option list \<Rightarrow> compiler \<Rightarrow> (i32 list \<times> compiler) val_result" where
  "cg_defaults [] c = Inr ([], c)"
| "cg_defaults (None # gs) c = bnd (cg_defaults gs c) (\<lambda>(ds, c'). Inr (-1 # ds, c'))"
| "cg_defaults (Some g # gs) c = bnd (seq g (cg_op OP_END) c) (\<lambda>c1.
     bnd (cg_defaults gs c1) (\<lambda>(ds, c'). Inr (w32 (here c) # ds, c')))"

definition cg_params :: "nat \<Rightarrow> gen option list \<Rightarrow> compiler \<Rightarrow> (i32 list \<times> compiler) val_result" where
  "cg_params line gs c = bnd (seq (at_line line) (cg_op OP_JUMP) c) (\<lambda>c1.
     bnd (cg_defaults gs c1) (\<lambda>(ds, c2). with_defaults ds (label (\<lambda>skip. patch (here c) skip)) c2))"

definition add_errors :: "nat \<Rightarrow> gen" where
  "add_errors n c = Inr (c\<lparr>error := error c + n\<rparr>)"

definition cg_funcdef ::
    "nat \<Rightarrow> string \<Rightarrow> string list option \<Rightarrow> gen option list \<Rightarrow> gen \<Rightarrow> gen" where
  "cg_funcdef line name params defs body = try_guard False (seq (push_block BLOCK_TYPE_FUNCDEF)
     (seq (gen_all (map define_localvar (case params of Some ps \<Rightarrow> ps | None \<Rightarrow> [''$_''])))
     (with_package (\<lambda>this_pkg.
        let (pkg, fn) = (case split_package_funname name of Some q \<Rightarrow> q | None \<Rightarrow> (this_pkg, name))
        in sub_compiler pkg (\<lambda>f1. bnd (case params of Some _ \<Rightarrow> cg_params line defs f1 | None \<Rightarrow> Inr ([], f1))
             (\<lambda>(ds, f2). with_defaults ds (seq body (cg_op OP_RETURN)) f2))
           (\<lambda>ds f. seq pop_block (seq (add_errors (error f)) (with_code pkg fn line params (Some ds) f (\<lambda>p.
             seq (push_op (mk_value_op OP_PUSH_VALUE p))
               (if closure_vars f \<noteq> [] then closure_def f else cg_op OP_FUNCDEF)))))))))"

definition cg_funcall :: "string \<Rightarrow> gen list \<Rightarrow> gen" where
  "cg_funcall name args = loop_context False (seq (gen_all (rev args))
     (if is_builtin name then
        with_id name (\<lambda>i. seq (cg_value OP_PUSH_VALUE (SymbolValue i))
          (push_op (mk_op_int OP_BUILTIN_FUNCALL (w32 (length args)))))
      else
        let split = split_package_funname name;
            fn = (case split of Some (_, d) \<Rightarrow> d | None \<Rightarrow> name)
        in with_id fn (\<lambda>i. seq (cg_value OP_PUSH_VALUE (SymbolValue i)) (with_package (\<lambda>pkg.
             with_id (case split of Some (p, _) \<Rightarrow> p | None \<Rightarrow> pkg) (\<lambda>j.
               push_op (mk_op_high_low OP_FUNCALL (w32 (length args)) j)))))))"

definition cg_binary :: "gen \<Rightarrow> gen \<Rightarrow> op_type \<Rightarrow> gen" where
  "cg_binary l r o' = seq l (seq r (cg_op o'))"

definition cg_stmts :: "gen \<Rightarrow> gen \<Rightarrow> gen" where
  "cg_stmts l r = seq (cg_op OP_NEXTSTATE) (seq l (seq (cg_op OP_NEXTSTATE) r))"

definition cg_stmts_list :: "gen list \<Rightarrow> gen" where
  "cg_stmts_list gs = gen_all (map (\<lambda>g. seq (cg_op OP_NEXTSTATE) g) gs)"

text \<open>A jump whose target is set when the code it skips is known.\<close>

definition jump_over :: "op_type \<Rightarrow> gen \<Rightarrow> gen" where
  "jump_over o' g = label (\<lambda>jump. seq (cg_op o') (seq g (label (\<lambda>target. patch jump target))))"

text \<open>The jump over the else part is inside the part that the first jump skips.\<close>

definition cg_if :: "nat \<Rightarrow> gen \<Rightarrow> gen \<Rightarrow> gen \<Rightarrow> gen" where
  "cg_if decls cond if_body else_body = enter_scope decls (seq cond (label (\<lambda>jump_else.
     seq (cg_op OP_JUMP_IF_FALSE) (seq if_body (label (\<lambda>jump_end.
       seq (cg_op OP_JUMP) (seq (label (\<lambda>else_label. patch jump_else else_label)) (seq else_body
         (label (\<lambda>end_label. patch jump_end end_label))))))))))"

text \<open>The pending \<open>last\<close> instructions get the address \<open>v\<close>, those of outer loops too.\<close>

fun patch_all :: "nat list \<Rightarrow> i32 \<Rightarrow> op_array \<Rightarrow> op_array" where
  "patch_all [] v a = a"
| "patch_all (n # ns) v a = patch_all ns v (patch_operand n v a)"

definition close_last_labels :: "i32 \<Rightarrow> gen" where
  "close_last_labels v c = Inr (c\<lparr>comp_ops := patch_all (last_labels c) v (comp_ops c), last_labels := []\<rparr>)"

definition cg_while :: "gen \<Rightarrow> gen \<Rightarrow> gen" where
  "cg_while cond body = label (\<lambda>label1. seq cond (loop_context True (label (\<lambda>jump_if_false.
     seq (cg_op OP_JUMP_IF_FALSE) (label (\<lambda>enter.
       seq (cg_op OP_ENTER_WHILE) (seq (push_block BLOCK_TYPE_BLOCK) (seq body
         (seq (cg_op OP_LEAVE) (seq (patch_vars_size enter) (seq pop_block
           (seq (push_op (mk_op_int OP_JUMP (w32 label1))) (label (\<lambda>label2.
             seq (patch jump_if_false label2) (close_last_labels (w32 label2 - 1))))))))))))))))"

definition cg_for :: "gen \<Rightarrow> gen \<Rightarrow> gen \<Rightarrow> gen \<Rightarrow> gen" where
  "cg_for init cond postfix body = label (\<lambda>enter.
     seq (cg_op OP_ENTER_FOR) (seq (push_block BLOCK_TYPE_BLOCK) (seq init (label (\<lambda>label1.
     seq cond (label (\<lambda>jump_label2.
       seq (cg_op OP_JUMP_IF_FALSE) (seq (loop_context True body) (seq postfix
         (seq (push_op (mk_op_int OP_JUMP (w32 label1))) (label (\<lambda>label2.
           seq (patch jump_label2 label2) (seq (cg_op OP_LEAVE) (seq (patch_vars_size enter)
             (seq pop_block (close_last_labels (w32 label2)))))))))))))))))"

definition cg_foreach :: "gen \<Rightarrow> string list option \<Rightarrow> gen \<Rightarrow> gen" where
  "cg_foreach source vs body = loop_context True (seq source (seq (push_block BLOCK_TYPE_BLOCK) (label (\<lambda>enter.
     seq (cg_op OP_ENTER_FOREACH) (label (\<lambda>label1.
       seq (cg_op OP_FOR_ITER) (label (\<lambda>jump_label2.
         seq (cg_op OP_JUMP_IF_STOP_EXCEPTION) (seq (set_foreach_vars vs) (seq body
           (seq (push_op (mk_op_int OP_JUMP (w32 label1))) (label (\<lambda>label2.
             seq (patch jump_label2 label2) (seq (patch_vars_size enter) (seq pop_block
               (seq (cg_op OP_LEAVE) (close_last_labels (w32 label2))))))))))))))))))"

definition cg_make_array :: "gen list \<Rightarrow> gen" where
  "cg_make_array gs = seq (gen_all (rev gs)) (push_op (mk_op_int OP_MAKE_ARRAY (w32 (length gs))))"

text \<open>\<open>args->at(i+1)\<close> throws when a key has no value.\<close>

fun cg_pairs :: "(node \<times> gen) list \<Rightarrow> gen" where
  "cg_pairs [] = nop"
| "cg_pairs [_] = (\<lambda>c. Inl Std_exception)"
| "cg_pairs ((n, k) # (_, v) # gs) = seq v (seq (string_if_bareword n k) (cg_pairs gs))"

definition cg_make_hash :: "(node \<times> gen) list \<Rightarrow> gen" where
  "cg_make_hash gs = seq (cg_pairs gs) (push_op (mk_op_int OP_MAKE_HASH (w32 (length gs))))"

definition cg_get_item :: "gen \<Rightarrow> gen \<Rightarrow> gen" where
  "cg_get_item container index = seq container (seq index (cg_op OP_GET_ITEM))"

definition cg_method_call :: "node option \<Rightarrow> gen \<Rightarrow> gen list \<Rightarrow> gen" where
  "cg_method_call method object args = loop_context False (seq (gen_all (rev args))
     (let call = (\<lambda>name. with_id name (\<lambda>i. seq (cg_value OP_PUSH_VALUE (SymbolValue i)) (seq object
            (push_op (mk_op_int OP_METHOD_CALL (w32 (length args)))))))
      in case method of
           None \<Rightarrow> call ''()''
         | Some m \<Rightarrow> (case body_of m of StrNode NODE_IDENTIFIER s \<Rightarrow> call s | _ \<Rightarrow> add_error)))"

definition cg_tuple :: "gen list \<Rightarrow> gen" where
  "cg_tuple gs = seq (gen_all gs) (push_op (mk_op_int OP_MAKE_TUPLE (w32 (length gs))))"

definition cg_try :: "gen \<Rightarrow> gen" where
  "cg_try g = loop_context False (try_guard True (label (\<lambda>try_op.
     seq (cg_op OP_TRY) (seq (push_block BLOCK_TYPE_TRY) (label (\<lambda>enter.
       seq (cg_op OP_ENTER) (seq g (seq (cg_op OP_PUSH_UNDEF) (seq (cg_op OP_PUSH_UNDEF)
         (seq (push_op (mk_op_int OP_MAKE_TUPLE 2)) (seq (cg_op OP_RETURN)
           (seq (patch_vars_size enter) (seq pop_block (label (\<lambda>after. patch try_op after)))))))))))))))"

text \<open>A class in a class is reported and then aborts; the name of the class is the package inside.\<close>

definition in_class :: "string \<Rightarrow> gen \<Rightarrow> gen" where
  "in_class name g c = (if in_class_context c then Inl Abort
     else bnd (g (c\<lparr>in_class_context := True, package := name\<rparr>)) (\<lambda>c'.
       Inr (c'\<lparr>package := package c, in_class_context := False\<rparr>)))"

definition cg_class :: "string \<Rightarrow> string option \<Rightarrow> gen \<Rightarrow> gen" where
  "cg_class name parent body = in_class name (seq (push_block BLOCK_TYPE_CLASS) (with_id name (\<lambda>i.
     seq (push_op (mk_op_int OP_CLASS_ENTER i))
       (seq (case parent of None \<Rightarrow> nop | Some p \<Rightarrow> with_id p (\<lambda>j. push_op (mk_op_int OP_SET_PARENT j)))
         (seq body (seq (cg_op OP_CLASS_LEAVE) pop_block))))))"

definition cg_last :: gen where
  "cg_last c = (if \<not> in_loop_context c then fail c
     else seq (label (\<lambda>p c. Inr (c\<lparr>last_labels := last_labels c @ [p]\<rparr>))) (cg_op OP_LAST) c)"

text \<open>\<open>&&\<close> and \<open>||\<close>: the value of the left side stays when it decides.\<close>

definition cg_logical :: "op_type \<Rightarrow> gen \<Rightarrow> gen \<Rightarrow> gen" where
  "cg_logical o' l r = seq l (jump_over o' (seq (cg_op OP_POP_TOP) r))"

subsection \<open>Compiler::compile and Compiler::set_lvalue\<close>

fun binary_op_type :: "binary_node \<Rightarrow> op_type" where
  "binary_op_type NODE_ADD = OP_ADD"
| "binary_op_type NODE_SUB = OP_SUB"
| "binary_op_type NODE_MUL = OP_MUL"
| "binary_op_type NODE_MOD = OP_MOD"
| "binary_op_type NODE_DIV = OP_DIV"
| "binary_op_type NODE_POW = OP_POW"
| "binary_op_type NODE_LT = OP_LT"
| "binary_op_type NODE_GT = OP_GT"
| "binary_op_type NODE_LE = OP_LE"
| "binary_op_type NODE_GE = OP_GE"
| "binary_op_type NODE_EQ = OP_EQ"
| "binary_op_type NODE_NE = OP_NE"
| "binary_op_type NODE_BITAND = OP_BITAND"
| "binary_op_type NODE_BITOR = OP_BITOR"
| "binary_op_type NODE_BITXOR = OP_BITXOR"
| "binary_op_type NODE_BITLSHIFT = OP_BITLSHIFT"
| "binary_op_type NODE_BITRSHIFT = OP_BITRSHIFT"

fun unary_op_type :: "unary_node \<Rightarrow> op_type" where
  "unary_op_type NODE_UNARY_NEGATIVE = OP_UNARY_NEGATIVE"
| "unary_op_type NODE_NOT = OP_NOT"
| "unary_op_type NODE_POST_DECREMENT = OP_POST_DECREMENT"
| "unary_op_type NODE_PRE_DECREMENT = OP_PRE_DECREMENT"
| "unary_op_type NODE_POST_INCREMENT = OP_POST_INCREMENT"
| "unary_op_type NODE_PRE_INCREMENT = OP_PRE_INCREMENT"
| "unary_op_type NODE_DIE = OP_DIE"
| "unary_op_type NODE_DEREF = OP_DEREF"
| "unary_op_type NODE_EXTRACT_ARRAY = OP_EXTRACT_ARRAY"

text \<open>The operator of a compound assignment.\<close>

fun cg_compound :: "assign_node \<Rightarrow> gen \<Rightarrow> gen \<Rightarrow> gen" where
  "cg_compound NODE_ADD_ASSIGN l r = cg_binary l r OP_ADD"
| "cg_compound NODE_SUB_ASSIGN l r = cg_binary l r OP_SUB"
| "cg_compound NODE_MUL_ASSIGN l r = cg_binary l r OP_MUL"
| "cg_compound NODE_DIV_ASSIGN l r = cg_binary l r OP_DIV"
| "cg_compound NODE_AND_ASSIGN l r = cg_binary l r OP_BITAND"
| "cg_compound NODE_OR_ASSIGN l r = cg_binary l r OP_BITOR"
| "cg_compound NODE_OROR_ASSIGN l r = cg_logical OP_JUMP_IF_TRUE l r"
| "cg_compound NODE_XOR_ASSIGN l r = cg_binary l r OP_BITXOR"
| "cg_compound NODE_MOD_ASSIGN l r = cg_binary l r OP_MOD"

fun cg_plain :: "plain_node \<Rightarrow> gen" where
  "cg_plain NODE_TRUE = cg_op OP_PUSH_TRUE"
| "cg_plain NODE_FALSE = cg_op OP_PUSH_FALSE"
| "cg_plain NODE_UNDEF = cg_op OP_PUSH_UNDEF"
| "cg_plain NODE_SELF = cg_op OP_PUSH_SELF"
| "cg_plain NODE_VOID = nop"
| "cg_plain NODE_NEWLINE = nop"
| "cg_plain NODE_DOTDOTDOT = cg_op OP_DOTDOTDOT"
| "cg_plain NODE_LAST = cg_last"
| "cg_plain NODE_NEXT = abort"
| "cg_plain NODE_REDO = abort"

fun cg_str :: "str_node \<Rightarrow> string \<Rightarrow> gen" where
  "cg_str NODE_STRING s = cg_string s"
| "cg_str NODE_BYTES s = cg_value OP_PUSH_VALUE (BytesValue s)"
| "cg_str NODE_IDENTIFIER s = with_id s (\<lambda>i. push_op (mk_op_int OP_PUSH_IDENTIFIER i))"
| "cg_str NODE_INSTANCIATE_IDENTIFIER s = with_id s (\<lambda>i. push_op (mk_op_int OP_INSTANCIATE_IDENTIFIER i))"
| "cg_str NODE_GETVARIABLE s = cg_getvariable s"
| "cg_str NODE_GET_PACKAGE_VARIABLE s = abort"

definition cg_regexp :: "(string \<Rightarrow> i32 \<Rightarrow> bool) \<Rightarrow> string \<Rightarrow> i32 \<Rightarrow> gen" where
  "cg_regexp ok s f = (if ok s f then cg_value OP_PUSH_VALUE (RegexpValue s f) else fail)"

text \<open>
  \<open>re\<close> says whether RE2 accepts an expression with its flags. \<open>t\<close> is the number of times the
  node has been compiled before: a compound assignment compiles its left side twice, first to
  read it and then to assign to it, and array literals and method calls lose their arguments
  when they are compiled.
\<close>

fun compile :: "(string \<Rightarrow> i32 \<Rightarrow> bool) \<Rightarrow> nat \<Rightarrow> node \<Rightarrow> gen"
and set_lvalue :: "(string \<Rightarrow> i32 \<Rightarrow> bool) \<Rightarrow> nat \<Rightarrow> node \<Rightarrow> gen" where
  "compile re t (Node l b) = seq (at_line l) (case b of
       PlainNode p \<Rightarrow> cg_plain p
     | StrNode p s \<Rightarrow> cg_str p s
     | RegexpNode s f \<Rightarrow> cg_regexp re s f
     | IntNode i \<Rightarrow> push_op (mk_op_int OP_PUSH_INT i)
     | DoubleNode d \<Rightarrow> push_op \<lparr>op_type = OP_PUSH_DOUBLE, operand = DoubleOperand d, op_value = None\<rparr>
     | UnaryNode u n \<Rightarrow> seq (compile re t n) (cg_op (unary_op_type u))
     | BinaryNode o' n m \<Rightarrow> cg_binary (compile re t n) (compile re t m) (binary_op_type o')
     | AssignNode a n m \<Rightarrow> seq (cg_compound a (compile re (2 * t) n) (compile re t m)) (set_lvalue re (2 * t + 1) n)
     | LogicalAnd n m \<Rightarrow> cg_logical OP_JUMP_IF_FALSE (compile re t n) (compile re t m)
     | LogicalOr n m \<Rightarrow> cg_logical OP_JUMP_IF_TRUE (compile re t n) (compile re t m)
     | RangeNode n m \<Rightarrow> cg_binary (compile re t m) (compile re t n) OP_NEW_RANGE
     | SetVariable n m \<Rightarrow> seq (compile re t m) (set_lvalue re t n)
     | SetVariableMulti ns m \<Rightarrow> seq (compile re t m) (cg_set_tuple (map (\<lambda>n.
         if is_getvariable n \<or> is_get_item n then set_lvalue re t n else add_error) ns))
     | GetItem n m \<Rightarrow> cg_get_item (compile re t n) (string_if_bareword m (compile re t m))
     | FileTest i n \<Rightarrow> seq (compile re t n) (push_op (mk_op_int OP_FILE_TEST i))
     | UseNode n m \<Rightarrow> cg_binary (compile re t m) (compile re t n) OP_USE
     | Stmts n m \<Rightarrow> cg_stmts (compile re t n) (compile re t m)
     | StmtsList ns \<Rightarrow> cg_stmts_list (map (compile re t) ns)
     | TupleNode ns \<Rightarrow> cg_tuple (map (compile re t) ns)
     | MyNode ns \<Rightarrow> define_my ns
     | LocalNode n e \<Rightarrow> cg_local n (case e of Some m \<Rightarrow> seq (compile re t m) (set_lvalue re t n)
         | None \<Rightarrow> compile re t n)
     | ReturnNode ns \<Rightarrow> cg_return t (map (compile re t) ns)
     | MakeArray ns \<Rightarrow> cg_make_array (if t = 0 then map (compile re t) ns else [])
     | MakeHash ns \<Rightarrow> cg_make_hash (map (\<lambda>n. (n, compile re t n)) ns)
     | RootNode n \<Rightarrow> cg_root (compile re t n)
     | BlockNode n \<Rightarrow> enter_scope (count_variable_declare t n) (compile re t n)
     | TryNode n \<Rightarrow> cg_try (compile re t n)
     | WhileNode n m \<Rightarrow> cg_while (compile re t n) (compile re t m)
     | ForNode n m k j \<Rightarrow> cg_for (compile re t n) (compile re t m) (compile re t k) (compile re t j)
     | ForEachNode n vs m \<Rightarrow> cg_foreach (compile re t n) vs (compile re t m)
     | IfNode n m k \<Rightarrow> cg_if (count_variable_declare t n) (compile re t n)
         (case m of Some x \<Rightarrow> compile re t x | None \<Rightarrow> nop) (case k of Some x \<Rightarrow> compile re t x | None \<Rightarrow> nop)
     | FuncallNode s ns \<Rightarrow> cg_funcall s (map (compile re t) ns)
     | MethodCallNode n m ns \<Rightarrow> cg_method_call m (compile re t n) (if t = 0 then map (compile re t) ns else [])
     | LambdaNode ps m \<Rightarrow> cg_lambda l ps (case m of Some x \<Rightarrow> compile re t x | None \<Rightarrow> nop)
     | FuncdefNode s ps n \<Rightarrow> cg_funcdef l s (map_option (map fst) ps)
         (case ps of Some qs \<Rightarrow> map (\<lambda>(_, d). case d of Some x \<Rightarrow> Some (compile re t x) | None \<Rightarrow> None) qs
          | None \<Rightarrow> []) (compile re t n)
     | ClassNode s p m \<Rightarrow> cg_class s p (case m of Some x \<Rightarrow> compile re t x | None \<Rightarrow> nop))"
| "set_lvalue re t (Node l b) = (case b of
       StrNode NODE_GETVARIABLE s \<Rightarrow> set_variable s
     | GetItem n m \<Rightarrow> cg_set_item (compile re t n) (string_if_bareword m (compile re t m))
     | TupleNode ns \<Rightarrow> cg_set_tuple (map (\<lambda>n.
         if is_getvariable n \<or> is_get_item n then set_lvalue re t n else add_error) ns)
     | MyNode ns \<Rightarrow> cg_set_my ns (map (set_lvalue re t) ns)
     | LocalNode _ _ \<Rightarrow> fail
     | _ \<Rightarrow> add_error)"

declare compile.simps [simp del] set_lvalue.simps [simp del]

end
