(* ===== verification/Tora_Triples.thy ===== *)
theory Tora_Triples
  imports Tora_Compiler
begin

text \<open>
  Reasoning about the code generator: an interface of laws, one per primitive, under which
  every case of \<open>compile\<close> and \<open>set_lvalue\<close> is proved once, and its instances: the context
  that a node leaves as it was, the nesting of blocks, and the code that only grows.
\<close>

subsection \<open>Reasoning about generators\<close>

text \<open>
  A triple \<open>T P g Q\<close> says that a generator leads from the assertion \<open>P\<close> to \<open>Q\<close>. The interface
  asks for one law per primitive of the code generator; \<open>up P\<close> is \<open>P\<close> inside a new block, and
  \<open>pos P i\<close> allows the instruction at \<open>i\<close> to be patched. What is proved of \<open>compile\<close> under these
  laws holds for every instance.
\<close>


locale generator_triples =
  fixes T :: "'p \<Rightarrow> gen \<Rightarrow> 'p \<Rightarrow> bool" and up :: "'p \<Rightarrow> 'p" and pos :: "'p \<Rightarrow> nat \<Rightarrow> bool"
  assumes t_seq: "T P f Q \<Longrightarrow> T Q g R \<Longrightarrow> T P (seq f g) R"
    and t_read: "(\<And>c. T P (rd c) Q) \<Longrightarrow> T P (\<lambda>c. rd c c) Q"
    and t_label: "(\<And>p. pos P p \<Longrightarrow> T P (h p) Q) \<Longrightarrow> T P (label h) Q"
    and t_id: "(\<And>i. T P (k i) Q) \<Longrightarrow> T P (with_id s k) Q"
    and t_value: "(\<And>q. T P (v q) Q) \<Longrightarrow> T P (with_value x v) Q"
    and t_nop: "T P nop P"
    and t_abort: "T P (\<lambda>c. Inl e) Q"
    and t_error: "T P (add_errors n) P"
    and t_line: "T P (at_line l) P"
    and t_push_op: "T P (push_op o') P"
    and t_patch: "pos P i \<Longrightarrow> T P (patch i j) P"
    and t_push_block: "T P (push_block b) (up P)"
    and t_pop_block: "T (up P) pop_block P"
    and t_pos_up: "pos (up P) i = pos P i"
    and t_define: "T P (define_localvar s) P"
    and t_closure: "T P (add_closure_var s) P"
    and t_last: "T P cg_last P"
    and t_close: "T P (close_last_labels w) P"
    and t_try: "T P g Q \<Longrightarrow> T P (try_guard y g) Q"
    and t_loop: "T P g Q \<Longrightarrow> T P (loop_context y g) Q"
    and t_class: "T P g Q \<Longrightarrow> T P (in_class s g) Q"
    and t_sub: "(\<And>ds f. T P (fin ds f) Q) \<Longrightarrow> T P (sub_compiler s body fin) Q"
begin

lemma t_all: "(\<And>g. g \<in> set gs \<Longrightarrow> T P g P) \<Longrightarrow> T P (gen_all gs) P"
  by (induction gs) (auto intro: t_nop t_seq)

lemma t_push_scope: "T (up P) g Q \<Longrightarrow> T P (seq (push_block b) g) Q"
  by (rule t_seq [OF t_push_block])

lemma t_pop_scope: "T P g Q \<Longrightarrow> T (up P) (seq pop_block g) Q"
  by (rule t_seq [OF t_pop_block])

lemma t_step: "T P f P \<Longrightarrow> T P g Q \<Longrightarrow> T P (seq f g) Q"
  by (rule t_seq)

lemma t_if: "(b \<Longrightarrow> T P f Q) \<Longrightarrow> (\<not> b \<Longrightarrow> T P g Q) \<Longrightarrow> T P (if b then f else g) Q"
  by simp

lemma t_package: "(\<And>s. T P (f s) Q) \<Longrightarrow> T P (with_package f) Q"
  using t_read [where rd = "\<lambda>c. f (package c)"] by (simp add: with_package_def [abs_def])

lemma t_add_error: "T P add_error P"
  using t_error [of P 1] by (simp add: add_errors_def [abs_def] add_error_def [abs_def])

lemma t_reading:
  assumes "\<And>c. g c = rd c c" "\<And>c. T P (rd c) Q"
  shows "T P g Q"
proof -
  have "g = (\<lambda>c. rd c c)" using assms(1) by (simp add: fun_eq_iff)
  then show ?thesis using t_read [of P rd Q, OF assms(2)] by simp
qed

lemma t_fail: "T P fail P"
  by (rule t_reading [where rd = "\<lambda>c. if current_line c = None then (\<lambda>c. Inl Undefined) else add_error"])
    (simp_all add: fail_def add_error_def t_abort t_add_error)

lemma t_patch_vars: "pos P i \<Longrightarrow> T P (patch_vars_size i) P"
  by (rule t_reading [where rd = "\<lambda>c. if blocks c = [] then (\<lambda>c. Inl Undefined)
      else patch i (length (vars (last (blocks c))))"])
    (simp_all add: patch_vars_size_def t_abort t_patch)

lemma t_op: "T P (cg_op o') P"
  by (simp add: cg_op_def t_push_op)

lemma t_cg_value: "T P (cg_value o' x) P"
  by (simp add: cg_value_def t_value t_push_op)

lemma t_string: "T P (cg_string s) P"
  by (simp add: cg_string_def t_value t_push_op)

lemma t_binding: "T P g Q \<Longrightarrow> (\<And>r. T P (f r) Q) \<Longrightarrow> T P (with_binding v g f) Q"
  by (rule t_reading [where rd = "\<lambda>c. case find_localvar v c of None \<Rightarrow> g | Some r \<Rightarrow> f r"])
    (auto simp: with_binding_def split: option.split)

lemmas t_rules = t_push_scope t_pop_scope t_pop_block t_step t_all t_if t_package t_add_error t_fail
  t_patch_vars t_op t_cg_value t_string t_label t_id t_value t_nop t_error t_line t_push_op t_patch
  t_define t_closure t_last t_close t_try t_loop t_class t_sub t_binding t_abort t_pos_up [THEN iffD2]

lemma t_package_variable: "T P (cg_package_variable o' s s') P"
  unfolding cg_package_variable_def by (intro t_rules)

lemma t_set_variable: "T P (set_variable v) P"
  unfolding set_variable_def
  by (simp split: option.split prod.split; intro conjI allI impI t_rules t_package_variable;
      simp split: option.split; intro conjI allI impI t_rules)

lemma t_getvariable: "T P (cg_getvariable v) P"
  apply (rule t_reading [where rd = "\<lambda>c. case find_global_var v c of
       Some g \<Rightarrow> push_op (mk_op_int OP_GETGLOBAL (w32 g))
     | None \<Rightarrow> (case split_package_varname v of
         Some (pkg, detail) \<Rightarrow> cg_package_variable OP_GET_PACKAGE_VARIABLE pkg detail
       | None \<Rightarrow> with_binding v fail (\<lambda>r. case funcdef_level r of
           Some f \<Rightarrow> seq (add_closure_var v)
             (push_op (mk_op_high_low OP_GETCLOSURE (w32 (level r - f)) (w32 (var_no r))))
         | None \<Rightarrow>
             if is_arg r then push_op (mk_op_int OP_GETARG (w32 (var_no r)))
             else if level r = 0 then push_op (mk_op_int OP_GETLOCAL (w32 (var_no r)))
             else push_op (mk_op_high_low OP_GETDYNAMIC (w32 (level r)) (w32 (var_no r)))))"])
   apply (simp add: cg_getvariable_def split: option.split prod.split)
  by (simp split: option.split prod.split; intro conjI allI impI t_rules t_package_variable;
      simp split: option.split; intro conjI allI impI t_rules)

lemma t_define_my: "T P (define_my ns) P"
  by (induction ns rule: define_my.induct; simp split: body.split str_node.split;
      intro conjI allI impI t_rules t_set_variable; simp)

lemma t_with_code: "(\<And>q. T P (k q) Q) \<Longrightarrow> T P (with_code s s' l ps ds f k) Q"
proof -
  assume k: "\<And>q. T P (k q) Q"
  have "T P (\<lambda>c. with_value (CodeValue ((new_code i j (comp_filename c) (w32 l) ps)
       \<lparr>code_defaults := ds, code_opcodes := comp_ops f, closure_var_names := closure_vars f\<rparr>)) k c) Q" for i j
    by (rule t_read [where rd = "\<lambda>c. with_value (CodeValue ((new_code i j (comp_filename c) (w32 l) ps)
       \<lparr>code_defaults := ds, code_opcodes := comp_ops f, closure_var_names := closure_vars f\<rparr>)) k"])
      (intro t_value k)
  then show ?thesis unfolding with_code_def by (intro t_id)
qed

lemma t_enter_scope: "T P g P \<Longrightarrow> T (up P) g (up P) \<Longrightarrow> T P (enter_scope n g) P"
  unfolding enter_scope_def by (intro t_rules)

text \<open>A generator that keeps every assertion.\<close>

definition keeps :: "gen \<Rightarrow> bool" where
  "keeps g = (\<forall>P. T P g P)"

lemma keepsI: "(\<And>P. T P g P) \<Longrightarrow> keeps g"
  by (simp add: keeps_def)

lemma keepsD: "keeps g \<Longrightarrow> T P g P"
  by (simp add: keeps_def)

lemma keeps_all: "\<forall>g \<in> set gs. keeps g \<Longrightarrow> T P (gen_all gs) P"
  by (intro t_all keepsD) simp

lemma k_enter_scope: "keeps g \<Longrightarrow> keeps (enter_scope n g)"
  by (rule keepsI, intro t_enter_scope keepsD)

lemma k_seq: "keeps f \<Longrightarrow> keeps g \<Longrightarrow> keeps (seq f g)"
  by (rule keepsI, intro t_step keepsD)

lemma k_binary: "keeps l \<Longrightarrow> keeps r \<Longrightarrow> keeps (cg_binary l r o')"
  unfolding cg_binary_def by (rule keepsI, intro t_rules keepsD)

lemma k_jump_over: "keeps g \<Longrightarrow> keeps (jump_over o' g)"
  unfolding jump_over_def by (rule keepsI, intro t_rules keepsD)

lemma k_logical: "keeps l \<Longrightarrow> keeps r \<Longrightarrow> keeps (cg_logical o' l r)"
  unfolding cg_logical_def by (intro k_seq k_jump_over) (simp_all add: keeps_def t_op)

lemma k_compound: "keeps l \<Longrightarrow> keeps r \<Longrightarrow> keeps (cg_compound a l r)"
  by (cases a) (simp_all add: k_binary k_logical)

lemma k_root: "keeps g \<Longrightarrow> keeps (cg_root g)"
  unfolding cg_root_def by (rule keepsI, intro t_rules keepsD) (simp_all add: t_pos_up)

lemma k_local: "keeps g \<Longrightarrow> keeps (cg_local n g)"
proof (rule keepsI)
  fix P assume g: "keeps g"
  show "T P (cg_local n g) P"
    by (rule t_reading [where rd = "\<lambda>c. case body_of n of
       StrNode t s \<Rightarrow>
         if t \<noteq> NODE_GET_PACKAGE_VARIABLE \<and> t \<noteq> NODE_GETVARIABLE then fail
         else if find_localvar s c \<noteq> None then fail
         else seq (cg_string s) (seq (cg_op OP_LOCAL) g)
     | _ \<Rightarrow> fail"])
      (auto simp: cg_local_def intro!: t_rules keepsD [OF g] split: body.split)
qed

lemma k_return: "\<forall>g \<in> set gs. keeps g \<Longrightarrow> keeps (cg_return t gs)"
proof (rule keepsI)
  fix P assume g: "\<forall>g \<in> set gs. keeps g"
  have u: "T P (seq (at_line 0) (cg_op OP_PUSH_UNDEF)) P" by (intro t_rules)
  show "T P (cg_return t gs) P"
    by (rule t_reading [where rd = "\<lambda>c. let es = (if in_try_block c
         then replicate (Suc t) (seq (at_line 0) (cg_op OP_PUSH_UNDEF)) @ gs else gs)
     in if length es = 1 then seq (hd es) (cg_op OP_RETURN)
        else if es = [] then seq (cg_op OP_PUSH_UNDEF) (cg_op OP_RETURN)
        else seq (gen_all es) (seq (push_op (mk_op_int OP_MAKE_TUPLE (w32 (length es))))
          (cg_op OP_RETURN))"])
      (use g u in \<open>auto simp: cg_return_def Let_def keeps_def hd_append length_Suc_conv
         intro!: t_step t_op t_push_op t_all t_string\<close>)
qed

lemma k_lambda: "keeps (cg_lambda l ps g)"
  unfolding cg_lambda_def Let_def closure_def_def by (rule keepsI, intro t_rules t_with_code) (auto simp: t_define)

lemma k_funcdef: "keeps (cg_funcdef l s ps ds g)"
proof (rule keepsI)
  fix P
  have fin: "T (up P) (seq pop_block (seq (add_errors n) (with_code pkg fn l ps qs f (\<lambda>p.
      seq (push_op (mk_value_op OP_PUSH_VALUE p)) (if b then push_op o' else cg_op OP_FUNCDEF))))) P"
    for n pkg fn qs f b o' by (intro t_rules t_with_code)
  show "T P (cg_funcdef l s ps ds g) P"
    unfolding cg_funcdef_def Let_def closure_def_def
    by (intro t_rules) (auto split: prod.splits intro!: t_sub fin t_define)
qed

lemma k_funcall: "\<forall>g \<in> set gs. keeps g \<Longrightarrow> keeps (cg_funcall s gs)"
  unfolding cg_funcall_def Let_def
  by (rule keepsI, intro t_rules) (auto intro: keepsD)

lemma k_method_call: "keeps g \<Longrightarrow> \<forall>g \<in> set gs. keeps g \<Longrightarrow> keeps (cg_method_call m g gs)"
  unfolding cg_method_call_def Let_def
  by (rule keepsI, intro t_rules)
    (auto intro!: t_rules intro: keepsD split: option.split body.split str_node.split)

lemma k_stmts: "keeps l \<Longrightarrow> keeps r \<Longrightarrow> keeps (cg_stmts l r)"
  unfolding cg_stmts_def by (rule keepsI, intro t_rules keepsD)

lemma k_stmts_list: "\<forall>g \<in> set gs. keeps g \<Longrightarrow> keeps (cg_stmts_list gs)"
  unfolding cg_stmts_list_def by (rule keepsI, intro t_all) (auto intro: t_step t_op keepsD)

lemma k_if: "keeps a \<Longrightarrow> keeps b \<Longrightarrow> keeps c \<Longrightarrow> keeps (cg_if n a b c)"
  unfolding cg_if_def by (rule k_enter_scope, rule keepsI, intro t_rules keepsD)

lemma k_while: "keeps a \<Longrightarrow> keeps b \<Longrightarrow> keeps (cg_while a b)"
  unfolding cg_while_def by (rule keepsI, intro t_rules keepsD) (simp_all add: t_pos_up)

lemma k_for: "keeps a \<Longrightarrow> keeps b \<Longrightarrow> keeps c \<Longrightarrow> keeps d \<Longrightarrow> keeps (cg_for a b c d)"
  unfolding cg_for_def by (rule keepsI, intro t_rules keepsD) (simp_all add: t_pos_up)

lemma t_set_tuple: "\<forall>g \<in> set gs. T P g P \<Longrightarrow> T P (cg_set_tuple gs) P"
  unfolding cg_set_tuple_def by (intro t_rules) (auto intro: t_step t_push_op)

lemma k_set_tuple: "\<forall>g \<in> set gs. keeps g \<Longrightarrow> keeps (cg_set_tuple gs)"
  by (rule keepsI, rule t_set_tuple) (simp add: keepsD)

lemma t_foreach_vars: "T P (set_foreach_vars vs) P"
proof -
  have d: "T P (gen_all (map define_localvar ss)) P" for ss by (intro t_all) (auto simp: t_define)
  have s: "T P (cg_set_tuple (map set_variable ss)) P" for ss by (intro t_set_tuple) (auto simp: t_set_variable)
  have v: "T P (case ss of [s] \<Rightarrow> set_variable s | _ \<Rightarrow> cg_set_tuple (map set_variable ss)) P" for ss
    using s [of ss] t_set_variable by (auto split: list.split)
  show ?thesis unfolding set_foreach_vars_def Let_def by (intro t_step d v)
qed

lemma k_foreach: "keeps a \<Longrightarrow> keeps b \<Longrightarrow> keeps (cg_foreach a vs b)"
  unfolding cg_foreach_def
  by (rule keepsI, intro t_rules keepsD t_foreach_vars) (simp_all add: t_pos_up)

lemma k_try: "keeps g \<Longrightarrow> keeps (cg_try g)"
  unfolding cg_try_def by (rule keepsI, intro t_rules keepsD) (simp_all add: t_pos_up)

lemma k_class: "keeps g \<Longrightarrow> keeps (cg_class s p g)"
proof (rule keepsI)
  fix P assume "keeps g"
  have p: "T P (case p of None \<Rightarrow> nop | Some q \<Rightarrow> with_id q (\<lambda>j. push_op (mk_op_int OP_SET_PARENT j))) P" for P
    by (cases p) (auto intro: t_nop t_id t_push_op)
  show "T P (cg_class s p g) P"
    unfolding cg_class_def by (intro t_rules p keepsD [OF \<open>keeps g\<close>])
qed

lemma k_make_array: "\<forall>g \<in> set gs. keeps g \<Longrightarrow> keeps (cg_make_array gs)"
  unfolding cg_make_array_def by (rule keepsI, intro t_rules) (auto intro: keepsD)

lemma k_tuple: "\<forall>g \<in> set gs. keeps g \<Longrightarrow> keeps (cg_tuple gs)"
  unfolding cg_tuple_def by (rule keepsI, intro t_rules) (auto intro: keepsD)

lemma k_bareword: "keeps g \<Longrightarrow> keeps (string_if_bareword n g)"
  unfolding string_if_bareword_def
  by (cases n, rule keepsI) (auto intro!: t_step t_line t_string intro: keepsD split: body.split str_node.split)

lemma k_make_hash: "\<forall>(n, g) \<in> set gs. keeps g \<Longrightarrow> keeps (cg_make_hash gs)"
proof -
  assume k: "\<forall>(n, g) \<in> set gs. keeps g"
  have e: "keeps nop" "keeps (\<lambda>c. Inl e)" for e by (simp_all add: keeps_def t_nop t_abort)
  have "keeps (cg_pairs gs)" using k
    by (induction gs rule: cg_pairs.induct) (auto intro!: k_seq k_bareword e)
  then show ?thesis unfolding cg_make_hash_def by (rule k_seq) (simp add: keeps_def t_push_op)
qed

lemma k_get_item: "keeps a \<Longrightarrow> keeps b \<Longrightarrow> keeps (cg_get_item a b)"
  unfolding cg_get_item_def by (rule keepsI, intro t_rules keepsD)

lemma k_set_item: "keeps a \<Longrightarrow> keeps b \<Longrightarrow> keeps (cg_set_item a b)"
  unfolding cg_set_item_def by (rule keepsI, intro t_rules keepsD)

lemma k_set_my: "\<forall>g \<in> set gs. keeps g \<Longrightarrow> keeps (cg_set_my ns gs)"
proof (rule keepsI)
  fix P assume g: "\<forall>g \<in> set gs. keeps g"
  have s: "T P (case gs of [g] \<Rightarrow> g | _ \<Rightarrow> add_error) P"
    using g by (auto intro: t_add_error keepsD split: list.split)
  show "T P (cg_set_my ns gs) P"
    by (rule t_reading [where rd = "\<lambda>c. case my_names ns of Inl e \<Rightarrow> (\<lambda>c. Inl e)
      | Inr names \<Rightarrow> seq (gen_all (map define_localvar names)) (case gs of [g] \<Rightarrow> g | _ \<Rightarrow> add_error)"])
      (auto simp: cg_set_my_def bnd_def t_abort t_define intro!: t_step t_all s split: sum.split)
qed

lemma k_plain: "keeps (cg_plain p)"
  by (cases p) (simp_all add: keeps_def t_op t_nop t_last abort_def [abs_def] t_abort)

lemma k_str: "keeps (cg_str p s)"
  by (cases p) (auto simp: keeps_def t_string t_cg_value t_getvariable abort_def [abs_def] t_abort t_push_op
      intro!: t_id)

lemma k_regexp: "keeps (cg_regexp re s f)"
  by (simp add: cg_regexp_def keeps_def t_cg_value t_fail)

lemmas k_rules = k_seq k_enter_scope k_binary k_logical k_compound k_root k_local k_return k_lambda
  k_funcdef k_funcall k_method_call k_stmts k_stmts_list k_if k_while k_for k_set_tuple k_foreach
  k_try k_class k_make_array k_tuple k_bareword k_make_hash k_get_item k_set_item k_set_my
  k_plain k_str k_regexp

lemma k_simple: "keeps (push_op o')" "keeps (cg_op t)" "keeps nop" "keeps fail" "keeps add_error"
  "keeps (at_line l)" "keeps (define_my ns)" "keeps (set_variable v)"
  by (simp_all add: keeps_def t_push_op t_op t_nop t_fail t_add_error t_line t_define_my t_set_variable)

lemma compile_keeps: "keeps (compile re t n)" "keeps (set_lvalue re t n)"
proof (induction re t n and re t n rule: compile_set_lvalue.induct)
  case (1 re t l b)
  show ?case unfolding compile.simps
    by (rule k_seq [OF k_simple(6)])
      (use 1 in \<open>cases b; auto intro!: k_rules k_simple split: option.split\<close>)
next
  case (2 re t l b)
  then show ?case unfolding set_lvalue.simps
    by (cases b) (auto intro!: k_rules k_simple split: str_node.split)
qed

end

subsection \<open>Instances: context, blocks, code\<close>

definition flags_of :: "compiler \<Rightarrow> bool \<times> bool \<times> bool \<times> string \<times> string \<times> string list" where
  "flags_of c = (in_try_block c, in_loop_context c, in_class_context c, package c, comp_filename c,
     global_var_names c)"

definition steady :: "gen \<Rightarrow> bool" where
  "steady g = (\<forall>c c'. g c = Inr c' \<longrightarrow> flags_of c' = flags_of c \<and> error c \<le> error c')"

interpretation ctx: generator_triples "\<lambda>(P :: unit) g Q. steady g" id "\<lambda>_ _. True"
proof (unfold_locales, goal_cases)
  case (1 P f Q g R)
  then show ?case unfolding steady_def seq_def by (auto simp: bnd_Inr_iff) (metis order_trans)+
qed (auto simp: steady_def label_def sub_compiler_def with_id_def with_value_def alloc_def nop_def add_errors_def at_line_def
      push_op_def patch_def push_block_def pop_block_def define_localvar_def add_closure_var_def Let_def fail_def
      cg_last_def seq_def cg_op_def close_last_labels_def try_guard_def loop_context_def in_class_def
      bnd_Inr_iff flags_of_def split: if_splits option.splits prod.splits, fastforce+)

text \<open>
  Most instances are assertions \<open>A P\<close> on the state before and after, which do not look at the
  symbol table, the values, the flags, the package, the errors and the closure variables.
\<close>

definition hoare :: "('p \<Rightarrow> compiler \<Rightarrow> bool) \<Rightarrow> 'p \<Rightarrow> gen \<Rightarrow> 'p \<Rightarrow> bool" where
  "hoare A P g Q = (\<forall>c c'. g c = Inr c' \<longrightarrow> A P c \<longrightarrow> A Q c')"

lemma hoareI: "(\<And>c c'. g c = Inr c' \<Longrightarrow> A P c \<Longrightarrow> A Q c') \<Longrightarrow> hoare A P g Q"
  by (simp add: hoare_def)

lemma hoareD: "hoare A P g Q \<Longrightarrow> g c = Inr c' \<Longrightarrow> A P c \<Longrightarrow> A Q c'"
  by (simp add: hoare_def)

locale state_assertion =
  fixes A :: "'p \<Rightarrow> compiler \<Rightarrow> bool" and up :: "'p \<Rightarrow> 'p" and pos :: "'p \<Rightarrow> nat \<Rightarrow> bool"
  assumes a_symtab [simp]: "A P (c\<lparr>comp_symtab := t\<rparr>) = A P c"
    and a_values [simp]: "A P (c\<lparr>values := h\<rparr>) = A P c"
    and a_error [simp]: "A P (c\<lparr>error := n\<rparr>) = A P c"
    and a_line [simp]: "A P (c\<lparr>current_line := l\<rparr>) = A P c"
    and a_closure [simp]: "A P (c\<lparr>closure_vars := vs\<rparr>) = A P c"
    and a_try [simp]: "A P (c\<lparr>in_try_block := b\<rparr>) = A P c"
    and a_loop [simp]: "A P (c\<lparr>in_loop_context := b\<rparr>) = A P c"
    and a_class [simp]: "A P (c\<lparr>in_class_context := b\<rparr>) = A P c"
    and a_package [simp]: "A P (c\<lparr>package := s\<rparr>) = A P c"
    and a_push_op: "A P c \<Longrightarrow> A P (c\<lparr>comp_ops := op_push_back o' m (comp_ops c)\<rparr>)"
    and a_patch: "pos P i \<Longrightarrow> A P c \<Longrightarrow> A P (c\<lparr>comp_ops := patch_operand i w (comp_ops c)\<rparr>)"
    and a_here: "A P c \<Longrightarrow> pos P (here c)"
    and a_push_block: "A P c \<Longrightarrow> A (up P) (c\<lparr>blocks := blocks c @ [\<lparr>block_type = bt, vars = []\<rparr>]\<rparr>)"
    and a_pop_block: "A (up P) c \<Longrightarrow> blocks c \<noteq> [] \<Longrightarrow> A P (c\<lparr>blocks := butlast (blocks c)\<rparr>)"
    and a_pos_up: "pos (up P) i = pos P i"
    and a_define: "A P c \<Longrightarrow> blocks c \<noteq> [] \<Longrightarrow> s \<notin> set (vars (last (blocks c))) \<Longrightarrow>
      A P (c\<lparr>blocks := butlast (blocks c) @ [(last (blocks c))\<lparr>vars := vars (last (blocks c)) @ [s]\<rparr>]\<rparr>)"
    and a_label: "A P c \<Longrightarrow> A P (c\<lparr>last_labels := last_labels c @ [here c]\<rparr>)"
    and a_close: "A P c \<Longrightarrow>
      A P (c\<lparr>comp_ops := patch_all (last_labels c) w (comp_ops c), last_labels := []\<rparr>)"
begin

lemma a_last: "A P c \<Longrightarrow> A P (c\<lparr>last_labels := last_labels c @ [here c], comp_ops := op_push_back o' m (comp_ops c)\<rparr>)"
  using a_push_op [OF a_label, of P c o' m] by simp

lemma h_seq: "hoare A P f Q \<Longrightarrow> hoare A Q g R \<Longrightarrow> hoare A P (seq f g) R"
  by (auto simp: hoare_def seq_def bnd_Inr_iff)

lemma h_read: "(\<And>c. hoare A P (rd c) Q) \<Longrightarrow> hoare A P (\<lambda>c. rd c c) Q"
  unfolding hoare_def by blast

lemma h_label: "(\<And>p. pos P p \<Longrightarrow> hoare A P (h p) Q) \<Longrightarrow> hoare A P (label h) Q"
  unfolding hoare_def label_def using a_here by blast

lemma h_id: "(\<And>i. hoare A P (k i) Q) \<Longrightarrow> hoare A P (with_id s k) Q"
  by (rule hoareI) (force simp: with_id_def split: prod.splits elim: hoareD)

lemma h_value: "(\<And>q. hoare A P (v q) Q) \<Longrightarrow> hoare A P (with_value x v) Q"
  by (rule hoareI) (force simp: with_value_def alloc_def elim: hoareD)

lemma h_guards:
  assumes "hoare A P g Q"
  shows "hoare A P (try_guard y g) Q" "hoare A P (loop_context y g) Q" "hoare A P (in_class s g) Q"
  by (rule hoareI; force simp: try_guard_def loop_context_def in_class_def bnd_Inr_iff split: if_splits
      elim: hoareD [OF assms])+

lemma h_sub: "(\<And>ds f. hoare A P (fin ds f) Q) \<Longrightarrow> hoare A P (sub_compiler s body fin) Q"
  by (rule hoareI) (force simp: sub_compiler_def bnd_Inr_iff elim: hoareD)

lemma h_primitives:
  "hoare A P nop P" "hoare A P (\<lambda>c. Inl e) Q" "hoare A P (add_errors n) P" "hoare A P (at_line l) P"
  "hoare A P (push_op o') P" "pos P i \<Longrightarrow> hoare A P (patch i j) P" "hoare A P (push_block b) (up P)"
  "hoare A (up P) pop_block P" "hoare A P (define_localvar s) P" "hoare A P (add_closure_var s) P"
  "hoare A P cg_last P" "hoare A P (close_last_labels w) P"
  by (auto intro!: hoareI simp: nop_def add_errors_def at_line_def push_op_def patch_def push_block_def
      pop_block_def define_localvar_def add_closure_var_def cg_last_def close_last_labels_def Let_def
      fail_def seq_def label_def cg_op_def bnd_Inr_iff a_push_op a_patch a_push_block a_pop_block a_define
      a_last a_close split: if_splits option.splits)

end

sublocale state_assertion \<subseteq> generator_triples "hoare A" up pos
proof (unfold_locales, goal_cases)
  case (2 P rd Q)
  then show ?case by (rule h_read)
qed (simp_all add: a_pos_up h_primitives h_seq h_label h_id h_value h_guards h_sub)

text \<open>
  \<open>depth B n bs\<close>: \<open>n\<close> blocks have been opened over \<open>B\<close>, whose innermost block may have got new
  variables at its end.
\<close>

definition grown_block :: "block list \<Rightarrow> block list \<Rightarrow> bool" where
  "grown_block B B' = (length B' = length B \<and> butlast B' = butlast B \<and>
     (B \<noteq> [] \<longrightarrow> block_type (last B') = block_type (last B) \<and>
        (\<exists>vs. vars (last B') = vars (last B) @ vs)))"

lemma grown_block_refl [simp]: "grown_block B B"
  by (simp add: grown_block_def)

lemma grown_block_trans: "grown_block A B \<Longrightarrow> grown_block B C \<Longrightarrow> grown_block A C"
  by (auto simp: grown_block_def)

definition depth :: "block list \<Rightarrow> nat \<Rightarrow> block list \<Rightarrow> bool" where
  "depth B n bs = (length bs = length B + n \<and> grown_block B (take (length B) bs))"

lemma depth_push: "depth B n bs \<Longrightarrow> depth B (Suc n) (bs @ [b])"
  by (simp add: depth_def)

lemma depth_pop: "depth B (Suc n) bs \<Longrightarrow> depth B n (butlast bs)"
  by (simp add: depth_def take_butlast)

lemma depth_define:
  assumes "depth B n bs" "bs \<noteq> []"
  shows "depth B n (butlast bs @ [(last bs)\<lparr>vars := vars (last bs) @ [s]\<rparr>])" (is "depth B n ?bs")
proof (cases n)
  case 0
  then have l: "length bs = length B" and g: "grown_block B bs" using assms by (auto simp: depth_def)
  have "grown_block bs ?bs" using assms(2) by (simp add: grown_block_def)
  moreover have "length ?bs = length B" using l assms(2) by (cases bs rule: rev_cases) simp_all
  ultimately show ?thesis using 0 g by (auto simp: depth_def intro: grown_block_trans)
next
  case (Suc m)
  then have "length B \<le> length (butlast bs)" "length B < length bs" using assms by (simp_all add: depth_def)
  then show ?thesis using assms by (simp add: depth_def take_butlast)
qed

interpretation nesting: state_assertion "\<lambda>(B, n) c. depth B n (blocks c)" "\<lambda>(B, n). (B, Suc n)" "\<lambda>_ _. True"
  by unfold_locales (auto simp: depth_push depth_pop depth_define)

text \<open>
  \<open>code_extends c0 c\<close>: the code of \<open>c\<close> is that of \<open>c0\<close> with instructions added at the end; of the
  old ones only pending \<open>last\<close> instructions may have changed. What is pending is old or new.
\<close>

definition code_extends :: "compiler \<Rightarrow> compiler \<Rightarrow> bool" where
  "code_extends c0 c = (op_array_ok (comp_ops c) \<and> here c0 \<le> here c \<and>
     take (here c0) (op_types (comp_ops c)) = op_types (comp_ops c0) \<and>
     (\<forall>i < here c0. i \<notin> set (last_labels c0) \<longrightarrow> ops (comp_ops c) ! i = ops (comp_ops c0) ! i) \<and>
     (\<forall>l \<in> set (last_labels c). l \<in> set (last_labels c0) \<or> here c0 \<le> l))"

lemma code_extends_push: "code_extends c0 c \<Longrightarrow>
    code_extends c0 (c\<lparr>comp_ops := op_push_back o' l (comp_ops c)\<rparr>)"
  by (auto simp: code_extends_def here_def op_array_size_def op_push_back_def op_array_ok_def nth_append)

lemma code_extends_patch: "code_extends c0 c \<Longrightarrow> here c0 \<le> i \<or> i \<in> set (last_labels c0) \<Longrightarrow>
    code_extends c0 (c\<lparr>comp_ops := patch_operand i v (comp_ops c)\<rparr>)"
proof -
  assume c: "code_extends c0 c" and i: "here c0 \<le> i \<or> i \<in> set (last_labels c0)"
  have "ops (patch_operand i v (comp_ops c)) ! j = ops (comp_ops c) ! j" if "j \<noteq> i" for j
    using that by (simp add: patch_operand_def)
  moreover have "j \<noteq> i" if "j < here c0" "j \<notin> set (last_labels c0)" for j using that i by auto
  moreover have "op_types (patch_operand i v a) = op_types a" "op_array_size (patch_operand i v a) = op_array_size a" for a
    by (simp_all add: patch_operand_def op_array_size_def)
  ultimately show ?thesis
    using c op_array_ok_patch [of "comp_ops c" i v] by (simp add: code_extends_def here_def)
qed

lemma code_extends_patch_all: "code_extends c0 c \<Longrightarrow> \<forall>i \<in> set ns. here c0 \<le> i \<or> i \<in> set (last_labels c0) \<Longrightarrow>
    code_extends c0 (c\<lparr>comp_ops := patch_all ns v (comp_ops c)\<rparr>)"
proof (induction ns arbitrary: c)
  case (Cons n ns)
  from code_extends_patch [OF Cons.prems(1), of n v] Cons.prems(2)
  have "code_extends c0 (c\<lparr>comp_ops := patch_operand n v (comp_ops c)\<rparr>)" by simp
  from Cons.IH [OF this] Cons.prems(2) show ?case by simp
qed simp

lemma code_extends_other [simp]:
  "code_extends c0 (c\<lparr>blocks := bs\<rparr>) = code_extends c0 c"
  "code_extends c0 (c\<lparr>closure_vars := vs\<rparr>) = code_extends c0 c"
  "code_extends c0 (c\<lparr>comp_symtab := t\<rparr>) = code_extends c0 c"
  "code_extends c0 (c\<lparr>values := h\<rparr>) = code_extends c0 c"
  "code_extends c0 (c\<lparr>error := e\<rparr>) = code_extends c0 c"
  "code_extends c0 (c\<lparr>current_line := l\<rparr>) = code_extends c0 c"
  "code_extends c0 (c\<lparr>in_try_block := b\<rparr>) = code_extends c0 c"
  "code_extends c0 (c\<lparr>in_loop_context := b\<rparr>) = code_extends c0 c"
  "code_extends c0 (c\<lparr>in_class_context := b\<rparr>) = code_extends c0 c"
  "code_extends c0 (c\<lparr>package := p\<rparr>) = code_extends c0 c"
  by (simp_all add: code_extends_def here_def)

lemma code_extends_close: "code_extends c0 c \<Longrightarrow>
    code_extends c0 (c\<lparr>comp_ops := patch_all (last_labels c) v (comp_ops c), last_labels := []\<rparr>)"
proof -
  assume c: "code_extends c0 c"
  then have "code_extends c0 (c\<lparr>comp_ops := patch_all (last_labels c) v (comp_ops c)\<rparr>)"
    by (rule code_extends_patch_all) (use c in \<open>auto simp: code_extends_def\<close>)
  then show ?thesis by (simp add: code_extends_def here_def)
qed

interpretation code: state_assertion code_extends id "\<lambda>c0 i. here c0 \<le> i"
  by unfold_locales (auto simp: code_extends_push code_extends_patch code_extends_close, auto simp: code_extends_def here_def)

end
