(* ===== verification/Tora_Compiler_Props.thy ===== *)
theory Tora_Compiler_Props
  imports Tora_Vm_Props Tora_Triples
begin

text \<open>
  Properties of the code generator: what every node leaves as it was, how code grows, how names
  resolve, and where the generated code and the machine do not agree.
\<close>

subsection \<open>What every node leaves as it was\<close>

text \<open>C8. Compiling any node leaves the package, the try, loop and class flags and the file as they
  were, closes every block it opens, adds variables only at the end of the innermost open block,
  and never lowers the number of errors.\<close>
theorem compile_balanced:
  assumes "compile re t n c = Inr c'"
  shows "(in_try_block c', in_loop_context c', in_class_context c', package c', comp_filename c') =
      (in_try_block c, in_loop_context c, in_class_context c, package c, comp_filename c) \<and>
    error c \<le> error c' \<and> length (blocks c') = length (blocks c) \<and>
    butlast (blocks c') = butlast (blocks c) \<and>
    (blocks c \<noteq> [] \<longrightarrow> block_type (last (blocks c')) = block_type (last (blocks c)) \<and>
      (\<exists>vs. vars (last (blocks c')) = vars (last (blocks c)) @ vs))"
proof -
  have "steady (compile re t n)" by (rule ctx.keepsD [OF ctx.compile_keeps(1)])
  with assms have f: "flags_of c' = flags_of c" "error c \<le> error c'" by (auto simp: steady_def)
  have "hoare (\<lambda>(B, n) c. depth B n (blocks c)) (blocks c, 0) (compile re t n) (blocks c, 0)"
    by (rule nesting.keepsD [OF nesting.compile_keeps(1)])
  from hoareD [OF this assms] have "grown_block (blocks c) (blocks c')" by (auto simp: depth_def)
  then show ?thesis using f by (simp add: flags_of_def grown_block_def)
qed

definition demo_compiler :: compiler where
  "demo_compiler = (new_compiler empty_symtab [] ''demo'')
     \<lparr>blocks := [\<lparr>block_type = BLOCK_TYPE_FILE, vars = [''$y'']\<rparr>]\<rparr>"

text \<open>A declaration and a loop that leaves itself.\<close>

definition demo_node :: node where
  "demo_node = Node 1 (StmtsList
     [Node 1 (SetVariable (Node 1 (MyNode [Node 1 (StrNode NODE_GETVARIABLE ''$x'')])) (Node 1 (IntNode 1))),
      Node 2 (WhileNode (Node 2 (StrNode NODE_GETVARIABLE ''$x'')) (Node 2 (PlainNode NODE_LAST)))])"

definition succeeds :: "'a val_result \<Rightarrow> bool" where
  "succeeds r = (case r of Inr _ \<Rightarrow> True | Inl _ \<Rightarrow> False)"

lemma succeedsE: "succeeds r \<Longrightarrow> (\<And>x. r = Inr x \<Longrightarrow> P) \<Longrightarrow> P"
  by (cases r) (auto simp: succeeds_def)

lemma demo_compiles: "succeeds (compile (\<lambda>_ _. True) 0 demo_node demo_compiler)"
  by code_simp

theorem compile_balanced_witness:
  "\<exists>c'. compile (\<lambda>_ _. True) 0 demo_node demo_compiler = Inr c' \<and> length (blocks c') = 1 \<and> \<not> in_loop_context c'"
  by (rule succeedsE [OF demo_compiles])
    (use compile_balanced [of "\<lambda>_ _. True" 0 demo_node demo_compiler] in
      \<open>auto simp: demo_compiler_def new_compiler_def\<close>)

text \<open>C9. Compiling any node keeps the three vectors of the instruction array aligned and only adds
  instructions: no earlier instruction changes its type, and none but a pending \<open>last\<close> changes
  its operand.\<close>
theorem compile_appends:
  assumes "compile re t n c = Inr c'" "op_array_ok (comp_ops c)"
  shows "op_array_ok (comp_ops c') \<and> here c \<le> here c' \<and>
    take (here c) (op_types (comp_ops c')) = op_types (comp_ops c) \<and>
    (\<forall>i < here c. i \<notin> set (last_labels c) \<longrightarrow> ops (comp_ops c') ! i = ops (comp_ops c) ! i)"
proof -
  have h: "hoare code_extends c (compile re t n) c" by (rule code.keepsD [OF code.compile_keeps(1)])
  have "code_extends c c" using assms(2) by (auto simp: code_extends_def here_def op_array_size_def op_array_ok_def)
  from hoareD [OF h assms(1) this] show ?thesis by (simp add: code_extends_def)
qed

theorem compile_appends_witness:
  "\<exists>c'. compile (\<lambda>_ _. True) 0 demo_node demo_compiler = Inr c' \<and> op_array_ok (comp_ops c')"
  by (rule succeedsE [OF demo_compiles])
    (use compile_appends [of "\<lambda>_ _. True" 0 demo_node demo_compiler] in
      \<open>auto simp: demo_compiler_def new_compiler_def\<close>)

subsection \<open>Variables\<close>

lemma index_of_Some: "index_of s xs = Some i \<Longrightarrow> i < length xs \<and> xs ! i = s"
  by (induction xs arbitrary: i) (auto split: if_splits)

lemma index_of_None: "index_of s xs = None \<longleftrightarrow> s \<notin> set xs"
  by (induction xs) auto

lemma find_from_skip: "\<forall>b \<in> set bs. v \<notin> set (vars b) \<Longrightarrow>
    \<exists>seen'. find_from v lv seen (bs @ cs) = find_from v (lv + length bs) seen' cs \<and>
      (seen' \<noteq> None \<longleftrightarrow> seen \<noteq> None \<or> BLOCK_TYPE_FUNCDEF \<in> block_type ` set bs) \<and>
      ((\<forall>f. seen = Some f \<longrightarrow> f < lv) \<longrightarrow> (\<forall>f. seen' = Some f \<longrightarrow> f < lv + length bs))"
proof (induction bs arbitrary: lv seen)
  case (Cons b bs)
  let ?seen = "if block_type b = BLOCK_TYPE_FUNCDEF \<and> seen = None then Some lv else seen"
  have n: "index_of v (vars b) = None" using Cons.prems by (simp add: index_of_None)
  from Cons.IH [of "Suc lv" ?seen] Cons.prems obtain seen' where
    s: "find_from v (Suc lv) ?seen (bs @ cs) = find_from v (Suc lv + length bs) seen' cs"
      "seen' \<noteq> None \<longleftrightarrow> ?seen \<noteq> None \<or> BLOCK_TYPE_FUNCDEF \<in> block_type ` set bs"
      "(\<forall>f. ?seen = Some f \<longrightarrow> f < Suc lv) \<longrightarrow> (\<forall>f. seen' = Some f \<longrightarrow> f < Suc lv + length bs)"
    by auto
  show ?case by (rule exI [of _ seen']) (use n s in \<open>auto simp: less_Suc_eq\<close>)
qed auto

text \<open>C10. A name resolves to the innermost open block that declares it: the level is the number of
  blocks inside that one, the index is the position of the name in it, it counts as a parameter
  exactly if that is the block of a function, and a closure is needed exactly if a function
  begins further inside; a name declared nowhere is not found.\<close>
theorem find_localvar_innermost:
  assumes "blocks c = outer @ b # inner" "v \<in> set (vars b)" "\<forall>i \<in> set inner. v \<notin> set (vars i)"
  shows "(\<exists>r. find_localvar v c = Some r \<and> level r = length inner \<and>
      var_no r < length (vars b) \<and> vars b ! var_no r = v \<and>
      (is_arg r \<longleftrightarrow> block_type b = BLOCK_TYPE_FUNCDEF) \<and>
      (funcdef_level r \<noteq> None \<longleftrightarrow> BLOCK_TYPE_FUNCDEF \<in> block_type ` set inner)) \<and>
    ((\<forall>d \<in> set (blocks c'). v \<notin> set (vars d)) = (find_localvar v c' = None))"
proof -
  obtain i where i: "index_of v (vars b) = Some i" using assms(2) index_of_None [of v "vars b"] by auto
  from find_from_skip [of "rev inner" v 0 None "b # rev outer"] assms(3) obtain seen where
    s: "find_from v 0 None (rev inner @ b # rev outer) = find_from v (length inner) seen (b # rev outer)"
      "seen \<noteq> None \<longleftrightarrow> BLOCK_TYPE_FUNCDEF \<in> block_type ` set inner"
      "\<forall>f. seen = Some f \<longrightarrow> f < length inner" by auto
  have "find_localvar v c' = None" if "\<forall>d \<in> set (blocks c'). v \<notin> set (vars d)"
    using find_from_skip [of "rev (blocks c')" v 0 None "[]"] that by (auto simp: find_localvar_def)
  moreover have "find_localvar v c' \<noteq> None" if d: "d \<in> set (blocks c')" "v \<in> set (vars d)" for d
  proof -
    have "find_from v lv q bs \<noteq> None" if "d \<in> set bs" for lv q bs
      using that d(2) index_of_None [of v "vars d"]
      by (induction bs arbitrary: lv q) (auto split: option.split)
    then show ?thesis using d by (simp add: find_localvar_def)
  qed
  ultimately show ?thesis
    using s i index_of_Some [OF i] assms(1) by (auto simp: find_localvar_def split: option.split)
qed

theorem find_localvar_innermost_witness:
  "\<exists>r. find_localvar ''$y'' demo_compiler = Some r \<and> level r = 0 \<and> var_no r = 0"
  using find_localvar_innermost [of demo_compiler "[]" "\<lparr>block_type = BLOCK_TYPE_FILE, vars = [''$y'']\<rparr>" "[]" "''$y''" demo_compiler]
  by (auto simp: demo_compiler_def)





lemma define_all:
  assumes "distinct ps" "blocks c \<noteq> []" "set ps \<inter> set (vars (last (blocks c))) = {}"
  shows "gen_all (map define_localvar ps) c = Inr (c\<lparr>blocks := butlast (blocks c) @
    [(last (blocks c))\<lparr>vars := vars (last (blocks c)) @ ps\<rparr>]\<rparr>)"
  using assms
proof (induction ps arbitrary: c)
  case Nil
  then show ?case by (simp add: nop_def)
next
  case (Cons p ps)
  let ?c = "c\<lparr>blocks := butlast (blocks c) @ [(last (blocks c))\<lparr>vars := vars (last (blocks c)) @ [p]\<rparr>]\<rparr>"
  have "define_localvar p c = Inr ?c" using Cons.prems by (simp add: define_localvar_def Let_def)
  moreover have "gen_all (map define_localvar ps) ?c = Inr (?c\<lparr>blocks := butlast (blocks ?c) @
      [(last (blocks ?c))\<lparr>vars := vars (last (blocks ?c)) @ ps\<rparr>]\<rparr>)"
    by (rule Cons.IH) (use Cons.prems in auto)
  ultimately show ?case by (simp add: seq_def)
qed

text \<open>The errors in the body of a lambda are lost: if its parameters are distinct, compiling it
  never raises the number of errors, whatever the body is.\<close>
theorem lambda_errors_lost:
  assumes "compile re t (Node l (LambdaNode ps body)) c = Inr c'" "distinct ps"
  shows "error c' = error c"
proof -
  let ?ps = "if ps = [] then [''$_''] else ps"
  have "distinct ?ps" using assms(2) by simp
  then have "gen_all (map define_localvar ?ps) (d\<lparr>blocks := bs @ [\<lparr>block_type = b, vars = []\<rparr>]\<rparr>) =
      Inr (d\<lparr>blocks := bs @ [\<lparr>block_type = b, vars = ?ps\<rparr>]\<rparr>)" for d bs b
    using define_all [of ?ps "d\<lparr>blocks := bs @ [\<lparr>block_type = b, vars = []\<rparr>]\<rparr>"] by simp
  with assms(1) show ?thesis
    by (auto simp del: gen_all.simps simp add: compile.simps seq_def [of _ _ c] at_line_def cg_lambda_def Let_def try_guard_def
        seq_def push_block_def with_package_def sub_compiler_def with_defaults_def pop_block_def with_code_def
        with_id_def with_value_def alloc_def push_op_def closure_def_def bnd_Inr_iff
        case_prod_unfold split: option.splits if_splits)
qed

text \<open>A lambda whose body reads a variable that does not exist.\<close>

definition demo_lambda :: node where
  "demo_lambda = Node 1 (LambdaNode [''$a''] (Some (Node 2 (StrNode NODE_GETVARIABLE ''$nowhere''))))"

theorem lambda_errors_lost_witness:
  "\<exists>c'. compile (\<lambda>_ _. True) 0 demo_lambda demo_compiler = Inr c' \<and> error c' = 0 \<and>
    map_sum (\<lambda>_. ()) error (compile (\<lambda>_ _. True) 0 (Node 2 (StrNode NODE_GETVARIABLE ''$nowhere'')) demo_compiler) = Inr 1"
proof -
  have "succeeds (compile (\<lambda>_ _. True) 0 demo_lambda demo_compiler)" by code_simp
  then obtain c' where c': "compile (\<lambda>_ _. True) 0 demo_lambda demo_compiler = Inr c'" by (rule succeedsE)
  moreover have "error c' = 0"
    using lambda_errors_lost [of "\<lambda>_ _. True" 0 1 "[''$a'']" _ demo_compiler c'] c'
    by (simp add: demo_lambda_def demo_compiler_def new_compiler_def)
  moreover have "map_sum (\<lambda>_. ()) error (compile (\<lambda>_ _. True) 0 (Node 2 (StrNode NODE_GETVARIABLE ''$nowhere'')) demo_compiler) = Inr 1"
    by code_simp
  ultimately show ?thesis by blast
qed

subsection \<open>Pending \<open>last\<close> instructions\<close>










text \<open>A \<open>last\<close> in the body of a loop, followed by the loop \<open>inner_loop\<close>.\<close>

definition inner_loop :: node where
  "inner_loop = Node 3 (WhileNode (Node 3 (StrNode NODE_GETVARIABLE ''$y'')) (Node 3 (PlainNode NODE_VOID)))"

definition outer_loop :: node where
  "outer_loop = Node 1 (WhileNode (Node 1 (StrNode NODE_GETVARIABLE ''$y''))
     (Node 2 (StmtsList [Node 2 (PlainNode NODE_LAST), inner_loop])))"


text \<open>In the code of \<open>outer_loop\<close> the \<open>last\<close> is instruction 4, the inner loop ends at 11 and the
  outer one at 13; the \<open>last\<close> goes on at 11.\<close>

lemma last_of_outer_loop:
  "map_sum (\<lambda>_. ()) (\<lambda>c. (op_types (comp_ops c) ! 4, operand (ops (comp_ops c) ! 4), here c))
     (compile (\<lambda>_ _. True) 0 outer_loop demo_compiler) = Inr (OP_LAST, IntOperand 10, 13)"
  by code_simp


end
