(* ===== verification/Tora_Expression.thy ===== *)
theory Tora_Expression
  imports Tora_Vm_Props Tora_Triples
begin

text \<open>
  Expressions end to end: the instructions that the one-pass compiler emits for an expression,
  with its jumps patched afterwards, are those of a reference compiler that knows its jump
  targets in advance, and running them on the virtual machine computes the value that a
  reference evaluator of the source gives.
\<close>

subsection \<open>The fragment and its reference compiler\<close>

fun expression :: "node \<Rightarrow> bool" where
  "expression (Node l b) = (case b of
       PlainNode p \<Rightarrow> p \<in> {NODE_TRUE, NODE_FALSE, NODE_UNDEF}
     | StrNode p s \<Rightarrow> p = NODE_GETVARIABLE
     | IntNode i \<Rightarrow> True
     | DoubleNode d \<Rightarrow> True
     | UnaryNode u n \<Rightarrow> u \<in> {NODE_UNARY_NEGATIVE, NODE_NOT} \<and> expression n
     | BinaryNode o' n m \<Rightarrow> expression n \<and> expression m
     | LogicalAnd n m \<Rightarrow> expression n \<and> expression m
     | LogicalOr n m \<Rightarrow> expression n \<and> expression m
     | _ \<Rightarrow> False)"

fun variables :: "node \<Rightarrow> string set" where
  "variables (Node l b) = (case b of
       StrNode p s \<Rightarrow> {s}
     | UnaryNode u n \<Rightarrow> variables n
     | BinaryNode o' n m \<Rightarrow> variables n \<union> variables m
     | LogicalAnd n m \<Rightarrow> variables n \<union> variables m
     | LogicalOr n m \<Rightarrow> variables n \<union> variables m
     | _ \<Rightarrow> {})"

text \<open>The instruction that reads a variable which is global, a parameter or a lexical one.\<close>

definition variable_op :: "compiler \<Rightarrow> string \<Rightarrow> op option" where
  "variable_op c v = (case find_global_var v c of
       Some g \<Rightarrow> Some (mk_op_int OP_GETGLOBAL (w32 g))
     | None \<Rightarrow> if split_package_varname v \<noteq> None then None
         else (case find_localvar v c of None \<Rightarrow> None | Some r \<Rightarrow>
           if funcdef_level r \<noteq> None then None
           else if is_arg r then Some (mk_op_int OP_GETARG (w32 (var_no r)))
           else if level r = 0 then Some (mk_op_int OP_GETLOCAL (w32 (var_no r)))
           else Some (mk_op_high_low OP_GETDYNAMIC (w32 (level r)) (w32 (var_no r)))))"

fun code_of :: "(string \<Rightarrow> op) \<Rightarrow> nat \<Rightarrow> node \<Rightarrow> op list" where
  "code_of vop i (Node l b) = (case b of
       PlainNode p \<Rightarrow> [mk_op (case p of NODE_TRUE \<Rightarrow> OP_PUSH_TRUE | NODE_FALSE \<Rightarrow> OP_PUSH_FALSE | _ \<Rightarrow> OP_PUSH_UNDEF)]
     | StrNode p s \<Rightarrow> [vop s]
     | IntNode k \<Rightarrow> [mk_op_int OP_PUSH_INT k]
     | DoubleNode d \<Rightarrow> [\<lparr>op_type = OP_PUSH_DOUBLE, operand = DoubleOperand d, op_value = None\<rparr>]
     | UnaryNode u n \<Rightarrow> code_of vop i n @ [mk_op (unary_op_type u)]
     | BinaryNode o' n m \<Rightarrow> (let xs = code_of vop i n
         in xs @ code_of vop (i + length xs) m @ [mk_op (binary_op_type o')])
     | LogicalAnd n m \<Rightarrow> (let xs = code_of vop i n; ys = code_of vop (i + length xs + 2) m
         in xs @ [mk_op_int OP_JUMP_IF_FALSE (w32 (i + length xs + 2 + length ys)), mk_op OP_POP_TOP] @ ys)
     | LogicalOr n m \<Rightarrow> (let xs = code_of vop i n; ys = code_of vop (i + length xs + 2) m
         in xs @ [mk_op_int OP_JUMP_IF_TRUE (w32 (i + length xs + 2 + length ys)), mk_op OP_POP_TOP] @ ys)
     | _ \<Rightarrow> [])"

text \<open>\<open>emits g os\<close> from \<open>c\<close>: the generator appends the instructions \<open>os\<close> and changes nothing else.\<close>

definition appended :: "op list \<Rightarrow> nat list \<Rightarrow> op_array \<Rightarrow> op_array" where
  "appended os ls a = \<lparr>op_types = op_types a @ map op_type os, ops = ops a @ os, linenos = linenos a @ ls\<rparr>"

lemma appended_append: "appended os' ls' (appended os ls a) = appended (os @ os') (ls @ ls') a"
  by (simp add: appended_def)

lemma appended_Nil: "appended [] [] a = a"
  by (simp add: appended_def)

definition emits :: "gen \<Rightarrow> compiler \<Rightarrow> op list \<Rightarrow> bool" where
  "emits g c os = (\<exists>ls l. length ls = length os \<and>
     g c = Inr (c\<lparr>current_line := Some l, comp_ops := appended os ls (comp_ops c)\<rparr>))"

definition same_names :: "compiler \<Rightarrow> compiler \<Rightarrow> bool" where
  "same_names c d = (blocks d = blocks c \<and> global_var_names d = global_var_names c)"

lemma variable_op_cong: "same_names c d \<Longrightarrow> variable_op d v = variable_op c v"
proof -
  assume "same_names c d"
  then have "find_global_var v d = find_global_var v c" "find_localvar v d = find_localvar v c"
    by (simp_all add: same_names_def find_global_var_def find_localvar_def)
  then show ?thesis unfolding variable_op_def by (simp only:)
qed

lemma here_appended: "here (c\<lparr>current_line := l, comp_ops := appended os ls (comp_ops c)\<rparr>) = here c + length os"
  by (simp add: here_def op_array_size_def appended_def)

lemma emitsI: "length ls = length os \<Longrightarrow>
    g c = Inr (c\<lparr>current_line := Some l, comp_ops := appended os ls (comp_ops c)\<rparr>) \<Longrightarrow> emits g c os"
  by (auto simp: emits_def)

lemma emits_push_op:
  assumes "current_line c \<noteq> None"
  shows "emits (push_op o') c [o']"
proof -
  obtain l where l: "current_line c = Some l" using assms by auto
  then have "c\<lparr>current_line := Some l\<rparr> = c" by (cases c) simp
  then have "push_op o' c = Inr (c\<lparr>current_line := Some l, comp_ops := appended [o'] [l] (comp_ops c)\<rparr>)"
    using l by (simp add: push_op_def op_push_back_def appended_def)
  then show ?thesis by (intro emitsI [of "[l]"]) simp_all
qed

lemma emits_seq:
  assumes "emits f c os" "\<And>d. same_names c d \<Longrightarrow> current_line d \<noteq> None \<Longrightarrow> here d = here c + length os \<Longrightarrow> emits g d os'"
  shows "emits (seq f g) c (os @ os')"
proof -
  from assms(1) obtain ls l where f: "length ls = length os"
    "f c = Inr (c\<lparr>current_line := Some l, comp_ops := appended os ls (comp_ops c)\<rparr>)" (is "_ = Inr ?d")
    by (auto simp: emits_def)
  have "emits g ?d os'" by (rule assms(2)) (simp_all add: same_names_def here_appended)
  then obtain ls' l' where "length ls' = length os'"
    "g ?d = Inr (c\<lparr>current_line := Some l', comp_ops := appended (os @ os') (ls @ ls') (comp_ops c)\<rparr>)"
    by (auto simp: emits_def appended_append)
  then show ?thesis using f by (intro emitsI [of "ls @ ls'" _ _ _ l']) (simp_all add: seq_def)
qed

lemma emits_at_line: "(\<And>d. same_names c d \<Longrightarrow> current_line d \<noteq> None \<Longrightarrow> here d = here c \<Longrightarrow> emits g d os) \<Longrightarrow>
    emits (seq (at_line l) g) c os"
proof -
  assume g: "\<And>d. same_names c d \<Longrightarrow> current_line d \<noteq> None \<Longrightarrow> here d = here c \<Longrightarrow> emits g d os"
  have "emits g (c\<lparr>current_line := Some l\<rparr>) os" by (rule g) (simp_all add: same_names_def here_def)
  then show ?thesis by (auto simp: emits_def seq_def at_line_def)
qed

lemma emits_jump_over:
  assumes "current_line c \<noteq> None"
    "\<And>d. same_names c d \<Longrightarrow> current_line d \<noteq> None \<Longrightarrow> here d = here c + 1 \<Longrightarrow> emits g d os"
  shows "emits (jump_over o' g) c (mk_op_int o' (w32 (here c + 1 + length os)) # os)"
proof -
  from emits_push_op [OF assms(1), of "mk_op o'"] obtain x l where p:
    "push_op (mk_op o') c = Inr (c\<lparr>current_line := Some l, comp_ops := appended [mk_op o'] [x] (comp_ops c)\<rparr>)"
    (is "_ = Inr ?d") by (auto simp: emits_def length_Suc_conv)
  have "emits g ?d os" by (rule assms(2)) (simp_all add: same_names_def here_appended)
  then obtain ls l' where g: "length ls = length os"
    "g ?d = Inr (c\<lparr>current_line := Some l', comp_ops := appended (mk_op o' # os) (x # ls) (comp_ops c)\<rparr>)"
    by (auto simp: emits_def appended_append)
  have "patch_operand (here c) i (appended (mk_op o' # os) (x # ls) (comp_ops c)) =
      appended (mk_op_int o' i # os) (x # ls) (comp_ops c)" for i
    by (simp add: patch_operand_def appended_def here_def op_array_size_def mk_op_def mk_op_int_def)
  with p g show ?thesis
    by (intro emitsI [of "x # ls" _ _ _ l'])
      (simp_all add: jump_over_def label_def cg_op_def seq_def here_appended patch_def)
qed

lemma emits_op: "current_line c \<noteq> None \<Longrightarrow> emits (cg_op o') c [mk_op o']"
  by (simp add: cg_op_def emits_push_op)

lemma emits_binary:
  assumes "emits l c os" "\<And>d. same_names c d \<Longrightarrow> current_line d \<noteq> None \<Longrightarrow> here d = here c + length os \<Longrightarrow> emits r d os'"
  shows "emits (cg_binary l r o') c (os @ os' @ [mk_op o'])"
  unfolding cg_binary_def
  by (rule emits_seq [OF assms(1)], rule emits_seq [OF assms(2)], assumption+, rule emits_op)

lemma same_names_trans: "same_names c d \<Longrightarrow> same_names d e \<Longrightarrow> same_names c e"
  by (simp add: same_names_def)

lemma emits_logical:
  assumes "emits l c os" "\<And>d. same_names c d \<Longrightarrow> current_line d \<noteq> None \<Longrightarrow> here d = here c + length os + 2 \<Longrightarrow> emits r d os'"
  shows "emits (cg_logical o' l r) c
    (os @ [mk_op_int o' (w32 (here c + length os + 2 + length os')), mk_op OP_POP_TOP] @ os')"
  unfolding cg_logical_def
proof (rule emits_seq [OF assms(1)])
  fix d assume d: "same_names c d" "current_line d \<noteq> None" "here d = here c + length os"
  have "emits (seq (cg_op OP_POP_TOP) r) e ([mk_op OP_POP_TOP] @ os')"
    if "same_names d e" "current_line e \<noteq> None" "here e = here d + 1" for e
    by (rule emits_seq [OF emits_op])
      (use that d in \<open>auto intro!: assms(2) intro: same_names_trans\<close>)
  from emits_jump_over [OF d(2) this, of o'] d(3)
  show "emits (jump_over o' (seq (cg_op OP_POP_TOP) r)) d
      ([mk_op_int o' (w32 (here c + length os + 2 + length os')), mk_op OP_POP_TOP] @ os')"
    by (simp add: add.assoc)
qed

lemma emits_getvariable: "variable_op c v = Some o' \<Longrightarrow> current_line c \<noteq> None \<Longrightarrow> emits (cg_getvariable v) c [o']"
proof -
  assume v: "variable_op c v = Some o'" and l: "current_line c \<noteq> None"
  have "cg_getvariable v c = push_op o' c"
    using v by (auto simp: variable_op_def cg_getvariable_def with_binding_def split: option.splits if_splits)
  with emits_push_op [OF l, of o'] show ?thesis by (simp add: emits_def)
qed

lemma compile_emits:
  "expression n \<Longrightarrow> same_names c0 c \<Longrightarrow> \<forall>v \<in> variables n. variable_op c0 v = Some (vop v) \<Longrightarrow>
    emits (compile re t n) c (code_of vop (here c) n)"
proof (induction n arbitrary: c rule: expression.induct)
  case (1 l b)
  have at: "emits (seq (at_line l) g) c os"
    if "\<And>d. same_names c0 d \<Longrightarrow> current_line d \<noteq> None \<Longrightarrow> here d = here c \<Longrightarrow> emits g d os" for g os
    by (rule emits_at_line) (use "1.prems"(2) in \<open>auto intro!: that intro: same_names_trans\<close>)
  note tr = same_names_trans
  show ?case
  proof (cases b)
    case (PlainNode p)
    then show ?thesis using "1.prems"(1) by (auto simp: compile.simps intro!: at emits_op)
  next
    case (StrNode p s)
    then show ?thesis using "1.prems"
      by (auto simp: compile.simps variable_op_cong intro!: at emits_getvariable)
  next
    case (IntNode i)
    then show ?thesis by (auto simp: compile.simps intro!: at emits_push_op)
  next
    case (DoubleNode x)
    then show ?thesis by (auto simp: compile.simps intro!: at emits_push_op)
  next
    case (UnaryNode u n)
    have "emits (seq (compile re t n) (cg_op (unary_op_type u))) d (code_of vop (here c) n @ [mk_op (unary_op_type u)])"
      if "same_names c0 d" "here d = here c" for d
      using "1.IH"(1) [OF UnaryNode, of d] "1.prems" UnaryNode that by (intro emits_seq emits_op) auto
    with UnaryNode show ?thesis by (simp add: compile.simps at)
  next
    case (BinaryNode o' n m)
    have "emits (cg_binary (compile re t n) (compile re t m) (binary_op_type o')) d
        (code_of vop (here c) (Node l b))"
      if d: "same_names c0 d" "here d = here c" for d
    proof -
      have "emits (compile re t n) d (code_of vop (here c) n)"
        using "1.IH"(2) [OF BinaryNode, of d] "1.prems" BinaryNode d by auto
      moreover have "emits (compile re t m) e (code_of vop (here c + length (code_of vop (here c) n)) m)"
        if "same_names d e" "here e = here d + length (code_of vop (here c) n)" for e
        using "1.IH"(3) [OF BinaryNode, of e] "1.prems" BinaryNode d that tr by auto
      ultimately show ?thesis unfolding BinaryNode by (simp add: Let_def emits_binary)
    qed
    with BinaryNode show ?thesis by (simp add: compile.simps at)
  next
    case (LogicalAnd n m)
    have "emits (cg_logical OP_JUMP_IF_FALSE (compile re t n) (compile re t m)) d (code_of vop (here c) (Node l b))"
      if d: "same_names c0 d" "here d = here c" for d
    proof -
      have "emits (compile re t n) d (code_of vop (here c) n)"
        using "1.IH"(4) [OF LogicalAnd, of d] "1.prems" LogicalAnd d by auto
      moreover have "emits (compile re t m) e (code_of vop (here c + length (code_of vop (here c) n) + 2) m)"
        if "same_names d e" "here e = here d + length (code_of vop (here c) n) + 2" for e
        using "1.IH"(5) [OF LogicalAnd, of e] "1.prems" LogicalAnd d that tr by auto
      ultimately show ?thesis unfolding LogicalAnd
        using d(2) emits_logical [of "compile re t n" d "code_of vop (here c) n"] by (simp add: Let_def)
    qed
    with LogicalAnd show ?thesis by (simp add: compile.simps at)
  next
    case (LogicalOr n m)
    have "emits (cg_logical OP_JUMP_IF_TRUE (compile re t n) (compile re t m)) d (code_of vop (here c) (Node l b))"
      if d: "same_names c0 d" "here d = here c" for d
    proof -
      have "emits (compile re t n) d (code_of vop (here c) n)"
        using "1.IH"(6) [OF LogicalOr, of d] "1.prems" LogicalOr d by auto
      moreover have "emits (compile re t m) e (code_of vop (here c + length (code_of vop (here c) n) + 2) m)"
        if "same_names d e" "here e = here d + length (code_of vop (here c) n) + 2" for e
        using "1.IH"(7) [OF LogicalOr, of e] "1.prems" LogicalOr d that tr by auto
      ultimately show ?thesis unfolding LogicalOr
        using d(2) emits_logical [of "compile re t n" d "code_of vop (here c) n"] by (simp add: Let_def)
    qed
    with LogicalOr show ?thesis by (simp add: compile.simps at)
  qed (use "1.prems"(1) in simp_all)
qed

subsection \<open>Running code\<close>

text \<open>\<open>reaches H s s'\<close>: the machine gets from \<open>s\<close> to \<open>s'\<close> in some number of steps, from where
  it goes on.\<close>

definition reaches :: "host \<Rightarrow> vm \<Rightarrow> vm \<Rightarrow> bool" where
  "reaches H s s' = (\<exists>k. \<forall>n. execute H (n + k) s = execute H n s')"

lemma reaches_refl: "reaches H s s"
  unfolding reaches_def by (rule exI [of _ 0]) simp

lemma reaches_trans: "reaches H s s' \<Longrightarrow> reaches H s' s'' \<Longrightarrow> reaches H s s''"
  unfolding reaches_def
proof (elim exE)
  fix k l assume "\<forall>n. execute H (n + k) s = execute H n s'" "\<forall>n. execute H (n + l) s' = execute H n s''"
  then have "\<forall>n. execute H (n + (l + k)) s = execute H n s''" by (simp add: add.assoc [symmetric])
  then show "\<exists>k. \<forall>n. execute H (n + k) s = execute H n s''" ..
qed

lemma reaches_step:
  assumes "cur_op_type s = Inr t" "t \<noteq> OP_END" "\<And>ex. step H ex t s = Some (Inr s')" "s'' = s'\<lparr>pc := pc s' + 1\<rparr>"
  shows "reaches H s s''"
  unfolding reaches_def
  by (rule exI [of _ 1]) (use assms in \<open>simp add: execute.simps\<close>)

text \<open>\<open>vm_at s h xs i\<close>: the machine \<open>s\<close> with the heap \<open>h\<close>, \<open>xs\<close> pushed, about to execute \<open>i\<close>.\<close>

definition vm_at :: "vm \<Rightarrow> heap \<Rightarrow> ptr list \<Rightarrow> nat \<Rightarrow> vm" where
  "vm_at s h xs i = s\<lparr>heap := h, stack := stack s @ xs, pc := int i\<rparr>"

definition code_in :: "op_array \<Rightarrow> nat \<Rightarrow> op list \<Rightarrow> bool" where
  "code_in a i os = (op_array_ok a \<and> i + length os \<le> length (ops a) \<and> take (length os) (drop i (ops a)) = os)"

lemma code_in_append: "code_in a i (os @ os') \<longleftrightarrow> code_in a i os \<and> code_in a (i + length os) os'"
  by (auto simp: code_in_def take_add append_eq_append_conv ac_simps)

lemma code_in_split: "code_in a i (o1 # o2 # os) \<longleftrightarrow> code_in a i [o1, o2] \<and> code_in a (Suc (Suc i)) os"
  using code_in_append [of a i "[o1, o2]" os] by simp

lemma code_in_op:
  assumes "code_in (vm_ops s) i [o']"
  shows "cur_op_type (vm_at s h xs i) = Inr (op_type o')" "cur_op (vm_at s h xs i) = Inr o'"
proof -
  have i: "i < length (ops (vm_ops s))" "ops (vm_ops s) ! i = o'"
    using assms by (auto simp: code_in_def take_Suc_conv_app_nth hd_drop_conv_nth take_Suc)
  then have "op_at (vm_ops s) i = (Inr o' :: op vm_result)" by (simp add: op_at_def)
  then show "cur_op (vm_at s h xs i) = Inr o'" by (simp add: cur_op_def vm_at_def)
  show "cur_op_type (vm_at s h xs i) = Inr (op_type o')"
    using i assms by (simp add: cur_op_type_def vm_at_def op_type_at_def code_in_def op_array_ok_def)
qed

text \<open>What an instruction that reads a variable pushes; \<open>None\<close> stands for a new undef.\<close>

definition read_variable :: "vm \<Rightarrow> op \<Rightarrow> ptr option val_result" where
  "read_variable s o' = (case operand o' of IntOperand i \<Rightarrow>
       if op_type o' = OP_GETGLOBAL then bnd (vec_at (sint i) (global_vars s)) (\<lambda>p. Inr (Some p))
       else if op_type o' = OP_GETARG then
         (let index = last (mark_stack s) - sint i - 1
          in if mark_stack s \<noteq> [] \<and> 0 \<le> index \<and> index < int (length (stack s))
             then Inr (Some (stack s ! nat index)) else Inl Abort)
       else if frame_stack s = [] then Inl Abort
       else if op_type o' = OP_GETLOCAL then frame_get_variable (pads s) (last (frame_stack s)) i
       else if op_type o' = OP_GETDYNAMIC
         then frame_get_variable_dynamic (pads s) (last (frame_stack s)) (int_high i) (int_low i)
       else Inl Abort
     | _ \<Rightarrow> Inl Abort)"

subsection \<open>The value of an expression\<close>

definition new_value :: "heap \<Rightarrow> obj \<Rightarrow> heap \<times> ptr" where
  "new_value h x = (h @ [x], Some (length h))"

text \<open>
  The lexer gives \<open><\<close> the node of \<open>>\<close> and the machine compares the right operand with the left
  one, so that \<open>a < b\<close> asks whether \<open>b\<close> is greater than \<open>a\<close>.
\<close>

definition apply_binary :: "(dbl \<Rightarrow> dbl \<Rightarrow> dbl) \<Rightarrow> op_type \<Rightarrow> heap \<Rightarrow> ptr \<Rightarrow> ptr \<Rightarrow> obj val_result" where
  "apply_binary pow o' h p q = (case o' of
       Arith a \<Rightarrow> arith pow a h p q
     | Compare c \<Rightarrow> bnd (cmpop (comparison_of c) h q p) (\<lambda>b. Inr (BoolValue b))
     | _ \<Rightarrow> Inl Abort)"

definition apply_unary :: "unary_node \<Rightarrow> heap \<Rightarrow> ptr \<Rightarrow> obj val_result" where
  "apply_unary u h p = (case u of
       NODE_UNARY_NEGATIVE \<Rightarrow> op_unary_negative h p
     | NODE_NOT \<Rightarrow> bnd (deref h p) (\<lambda>x. Inr (BoolValue (\<not> to_bool x)))
     | _ \<Rightarrow> Inl Abort)"

fun eval_expr :: "(dbl \<Rightarrow> dbl \<Rightarrow> dbl) \<Rightarrow> (string \<Rightarrow> ptr option val_result) \<Rightarrow> node \<Rightarrow> heap \<Rightarrow> (heap \<times> ptr) val_result" where
  "eval_expr pow env (Node l b) h = (case b of
       PlainNode p \<Rightarrow> Inr (new_value h (case p of NODE_TRUE \<Rightarrow> BoolValue True | NODE_FALSE \<Rightarrow> BoolValue False | _ \<Rightarrow> UndefValue))
     | StrNode p s \<Rightarrow> bnd (env s) (\<lambda>r. Inr (case r of None \<Rightarrow> new_value h UndefValue | Some q \<Rightarrow> (h, q)))
     | IntNode i \<Rightarrow> Inr (new_value h (IntValue i))
     | DoubleNode d \<Rightarrow> Inr (new_value h (DoubleValue d))
     | UnaryNode u n \<Rightarrow> bnd (eval_expr pow env n h) (\<lambda>(h1, p).
         bnd (apply_unary u h1 p) (\<lambda>x. Inr (new_value h1 x)))
     | BinaryNode o' n m \<Rightarrow> bnd (eval_expr pow env n h) (\<lambda>(h1, p). bnd (eval_expr pow env m h1) (\<lambda>(h2, q).
         bnd (apply_binary pow (binary_op_type o') h2 p q) (\<lambda>x. Inr (new_value h2 x))))
     | LogicalAnd n m \<Rightarrow> bnd (eval_expr pow env n h) (\<lambda>(h1, p). bnd (deref h1 p) (\<lambda>x.
         if to_bool x then eval_expr pow env m h1 else Inr (h1, p)))
     | LogicalOr n m \<Rightarrow> bnd (eval_expr pow env n h) (\<lambda>(h1, p). bnd (deref h1 p) (\<lambda>x.
         if to_bool x then Inr (h1, p) else eval_expr pow env m h1))
     | _ \<Rightarrow> Inl Abort)"

lemma vm_at_simps [simp]:
  "heap (vm_at s h xs i) = h" "stack (vm_at s h xs i) = stack s @ xs" "pc (vm_at s h xs i) = int i"
  "pads (vm_at s h xs i) = pads s" "frame_stack (vm_at s h xs i) = frame_stack s"
  "mark_stack (vm_at s h xs i) = mark_stack s" "global_vars (vm_at s h xs i) = global_vars s"
  "vm_ops (vm_at s h xs i) = vm_ops s"
  by (simp_all add: vm_at_def)

lemma at_next [simp]: "(vm_at s h xs i)\<lparr>pc := int i + 1\<rparr> = vm_at s h xs (Suc i)"
  by (simp add: vm_at_def add.commute)

lemma at_push_new: "push_new x (vm_at s h xs i) = vm_at s (fst (new_value h x)) (xs @ [snd (new_value h x)]) i"
  by (simp add: push_new_def alloc_def push_def vm_at_def new_value_def)

lemma at_push: "push p (vm_at s h xs i) = vm_at s h (xs @ [p]) i"
  by (simp add: push_def vm_at_def)

lemma at_pop: "pop (vm_at s h (xs @ [p]) i) = Inr (p, vm_at s h xs i)"
  by (simp add: pop_def vm_at_def butlast_append)

lemma at_pop2: "pop (vm_at s h (xs @ [p, q]) i) = Inr (q, vm_at s h (xs @ [p]) i)"
  using at_pop [of s h "xs @ [p]" q i] by simp

lemma at_stack_top: "stack_top (vm_at s h (xs @ [p]) i) = Inr p"
  by (simp add: stack_top_def vm_at_def)

lemma at_set_top_new: "set_top_new x (vm_at s h (xs @ [p]) i) = vm_at s (fst (new_value h x)) (xs @ [snd (new_value h x)]) i"
  by (simp add: set_top_new_def set_top_def alloc_def vm_at_def new_value_def butlast_append)

lemmas at_machine = at_push_new at_push at_pop at_pop2 at_stack_top at_set_top_new


subsection \<open>One instruction each\<close>

lemma lift_val_Inr [simp]: "lift_val s (Inr x) = Inr x"
  by (simp add: lift_val_def)

lemma run_op:
  assumes "code_in (vm_ops s) i [o']" "op_type o' \<noteq> OP_END"
    "\<And>ex. step H ex (op_type o') (vm_at s h xs i) = Some (Inr (vm_at s h' ys j))"
  shows "reaches H (vm_at s h xs i) (vm_at s h' ys (Suc j))"
  by (rule reaches_step [OF code_in_op(1) [OF assms(1)] assms(2,3)]) simp

definition pushes :: "host \<Rightarrow> vm \<Rightarrow> nat \<Rightarrow> op list \<Rightarrow> heap \<Rightarrow> ptr list \<Rightarrow> heap \<times> ptr \<Rightarrow> bool" where
  "pushes H s i os h xs r = reaches H (vm_at s h xs i) (vm_at s (fst r) (xs @ [snd r]) (i + length os))"

lemma run_literal:
  assumes "code_in (vm_ops s) i [o']"
    "(o', x) \<in> {(mk_op OP_PUSH_TRUE, BoolValue True), (mk_op OP_PUSH_FALSE, BoolValue False), (mk_op OP_PUSH_UNDEF, UndefValue)} \<or>
     (\<exists>k. o' = mk_op_int OP_PUSH_INT k \<and> x = IntValue k) \<or>
     (\<exists>d. o' = \<lparr>op_type = OP_PUSH_DOUBLE, operand = DoubleOperand d, op_value = None\<rparr> \<and> x = DoubleValue d)"
  shows "pushes H s i [o'] h xs (new_value h x)"
proof -
  have "step H ex (op_type o') (vm_at s h xs i) = Some (Inr (push_new x (vm_at s h xs i)))" for ex
    using assms(2) code_in_op(2) [OF assms(1), of h xs]
    by (auto simp: mk_op_def mk_op_int_def step_def push_group_def pp_push_int_def pp_push_double_def
        get_int_operand_def int_operand_def)
  moreover have "op_type o' \<noteq> OP_END" using assms(2) by (auto simp: mk_op_def mk_op_int_def)
  ultimately show ?thesis
    using run_op [OF assms(1)] by (simp add: pushes_def at_push_new)
qed

lemma run_variable:
  assumes "code_in (vm_ops s) i [o']" "read_variable s o' = Inr r"
  shows "pushes H s i [o'] h xs (case r of None \<Rightarrow> new_value h UndefValue | Some q \<Rightarrow> (h, q))"
proof -
  have "step H ex (op_type o') (vm_at s h xs i) =
      Some (Inr (case r of None \<Rightarrow> push_new UndefValue (vm_at s h xs i) | Some q \<Rightarrow> push q (vm_at s h xs i)))" for ex
    using assms(2) code_in_op(2) [OF assms(1), of h xs]
    by (auto simp: read_variable_def step_def push_group_def data_group_def pp_getglobal_def pp_getarg_def
        pp_getlocal_def pp_getdynamic_def push_read_def frame_top_def mark_top_def Let_def nth_append
        get_int_operand_def int_operand_def bnd_Inr_iff vec_at_def split: operand.splits if_splits)
  moreover have "op_type o' \<noteq> OP_END" using assms(2) by (auto simp: read_variable_def split: operand.splits if_splits)
  ultimately show ?thesis
    using run_op [OF assms(1)] by (simp add: pushes_def at_push_new at_push split: option.splits)
qed


lemma run_unary:
  assumes "code_in (vm_ops s) i [mk_op (unary_op_type u)]" "apply_unary u h p = Inr x"
  shows "reaches H (vm_at s h (xs @ [p]) i) (vm_at s (fst (new_value h x)) (xs @ [snd (new_value h x)]) (Suc i))"
proof (rule run_op [OF assms(1)])
  show "op_type (mk_op (unary_op_type u)) \<noteq> OP_END" by (cases u) (simp_all add: mk_op_def)
  show "step H ex (op_type (mk_op (unary_op_type u))) (vm_at s h (xs @ [p]) i) =
      Some (Inr (vm_at s (fst (new_value h x)) (xs @ [snd (new_value h x)]) i))" for ex
    using assms(2)
    by (cases u) (auto simp: apply_unary_def mk_op_def step_def data_group_def other_group_def pp_unary_negative_def pp_not_def vm_deref_def
        at_machine bnd_Inr_iff split: if_splits)
qed

lemma run_binary:
  assumes "code_in (vm_ops s) i [mk_op (binary_op_type o')]" "apply_binary (host_pow H) (binary_op_type o') h p q = Inr x"
  shows "reaches H (vm_at s h (xs @ [p, q]) i) (vm_at s (fst (new_value h x)) (xs @ [snd (new_value h x)]) (Suc i))"
proof (rule run_op [OF assms(1)])
  show "op_type (mk_op (binary_op_type o')) \<noteq> OP_END" by (cases o') (simp_all add: mk_op_def)
  show "step H ex (op_type (mk_op (binary_op_type o'))) (vm_at s h (xs @ [p, q]) i) =
      Some (Inr (vm_at s (fst (new_value h x)) (xs @ [snd (new_value h x)]) i))" for ex
    using assms(2)
    by (cases "binary_op_type o'")
      (auto simp: mk_op_def step_def apply_binary_def binop_def pp_compare_def at_machine bnd_Inr_iff)
qed

lemma sint_w32: "j < 2 ^ 31 \<Longrightarrow> sint (w32 j) = int j"
  by (simp add: signed_of_nat signed_take_bit_int_eq_self)

lemma step_jump:
  assumes "code_in (vm_ops s) i [mk_op_int t (w32 j)]" "deref h p = Inr x" "j < 2 ^ 31"
    "(t, b) \<in> {(OP_JUMP_IF_FALSE, False), (OP_JUMP_IF_TRUE, True)}"
  shows "step H ex t (vm_at s h (xs @ [p]) i) = Some (Inr (if to_bool x = b
    then (vm_at s h (xs @ [p]) i)\<lparr>pc := int j - 1\<rparr> else vm_at s h (xs @ [p]) i))"
proof -
  let ?s = "vm_at s h (xs @ [p]) i"
  have "pp_jump ?s = Inr (?s\<lparr>pc := int j - 1\<rparr>)"
    using code_in_op(2) [OF assms(1), of h "xs @ [p]"] sint_w32 [OF assms(3)]
    by (simp add: pp_jump_def get_int_operand_def int_operand_def mk_op_int_def)
  then have "pp_jump_if b ?s = Inr (if to_bool x = b then ?s\<lparr>pc := int j - 1\<rparr> else ?s)"
    using assms(2) by (simp add: pp_jump_if_def vm_deref_def at_stack_top)
  moreover have "step H ex t ?s = Some (pp_jump_if b ?s)"
    using assms(4) by (auto simp: step_def control_group_def)
  ultimately show ?thesis by simp
qed

lemma run_jump:
  assumes "code_in (vm_ops s) i [mk_op_int t (w32 j), mk_op OP_POP_TOP]" "deref h p = Inr x" "j < 2 ^ 31"
    "(t, b) \<in> {(OP_JUMP_IF_FALSE, False), (OP_JUMP_IF_TRUE, True)}"
  shows "to_bool x = b \<Longrightarrow> reaches H (vm_at s h (xs @ [p]) i) (vm_at s h (xs @ [p]) j)"
    and "to_bool x \<noteq> b \<Longrightarrow> reaches H (vm_at s h (xs @ [p]) i) (vm_at s h xs (i + 2))"
proof -
  let ?s = "vm_at s h (xs @ [p]) i"
  have c: "code_in (vm_ops s) i [mk_op_int t (w32 j)]" "code_in (vm_ops s) (Suc i) [mk_op OP_POP_TOP]"
    using assms(1) code_in_append [of "vm_ops s" i "[mk_op_int t (w32 j)]" "[mk_op OP_POP_TOP]"] by simp_all
  have t: "op_type (mk_op_int t (w32 j)) = t" "t \<noteq> OP_END" using assms(4) by (auto simp: mk_op_int_def)
  note st = step_jump [OF c(1) assms(2-4)]
  show "reaches H ?s (vm_at s h (xs @ [p]) j)" if "to_bool x = b"
    by (rule reaches_step [OF code_in_op(1) [OF c(1), unfolded t(1)] t(2) st])
      (simp add: that vm_at_def)
  have "reaches H (vm_at s h (xs @ [p]) (Suc i)) (vm_at s h xs (Suc (Suc i)))"
    by (rule run_op [OF c(2)]) (simp_all add: mk_op_def step_def data_group_def at_machine)
  moreover have "reaches H ?s (vm_at s h (xs @ [p]) (Suc i))" if "to_bool x \<noteq> b"
    by (rule run_op [OF c(1)]) (simp_all add: t st that)
  ultimately show "reaches H ?s (vm_at s h xs (i + 2))" if "to_bool x \<noteq> b"
    using that reaches_trans [of H ?s "vm_at s h (xs @ [p]) (Suc i)" "vm_at s h xs (Suc (Suc i))"] by simp
qed

lemma run_logical:
  assumes "code_in (vm_ops s) i (os @ [mk_op_int t (w32 j), mk_op OP_POP_TOP] @ os')"
    "j = i + length os + 2 + length os'" "j < 2 ^ 31" "(t, b) \<in> {(OP_JUMP_IF_FALSE, False), (OP_JUMP_IF_TRUE, True)}"
    "pushes H s i os h xs (h1, p)" "deref h1 p = Inr x"
    "if to_bool x = b then r = (h1, p) else pushes H s (i + length os + 2) os' h1 xs r"
  shows "pushes H s i (os @ [mk_op_int t (w32 j), mk_op OP_POP_TOP] @ os') h xs r"
proof -
  have c: "code_in (vm_ops s) (i + length os) [mk_op_int t (w32 j), mk_op OP_POP_TOP]"
    using assms(1) by (simp only: code_in_append)
  note j = run_jump [OF c assms(6,3,4), of H xs]
  have a: "reaches H (vm_at s h xs i) (vm_at s h1 (xs @ [p]) (i + length os))"
    using assms(5) by (simp add: pushes_def)
  show ?thesis
  proof (cases "to_bool x = b")
    case True
    then show ?thesis using reaches_trans [OF a j(1)] assms(7,2) by (simp add: pushes_def add.assoc)
  next
    case False
    then have "reaches H (vm_at s h1 xs (i + length os + 2))
        (vm_at s (fst r) (xs @ [snd r]) (i + length os + 2 + length os'))"
      using assms(7) by (simp add: pushes_def)
    with reaches_trans [OF a j(2) [OF False]] show ?thesis
      using reaches_trans [of H "vm_at s h xs i" "vm_at s h1 xs (i + length os + 2)"]
      by (simp add: pushes_def add.assoc)
  qed
qed

lemma expression_simps:
  "expression (Node l (UnaryNode u n)) \<longleftrightarrow> u \<in> {NODE_UNARY_NEGATIVE, NODE_NOT} \<and> expression n"
  "expression (Node l (BinaryNode o' n m)) \<longleftrightarrow> expression n \<and> expression m"
  "expression (Node l (LogicalAnd n m)) \<longleftrightarrow> expression n \<and> expression m"
  "expression (Node l (LogicalOr n m)) \<longleftrightarrow> expression n \<and> expression m"
  by simp_all

lemma code_of_simps:
  "code_of vop i (Node l (UnaryNode u n)) = code_of vop i n @ [mk_op (unary_op_type u)]"
  "code_of vop i (Node l (BinaryNode o' n m)) = code_of vop i n @
     code_of vop (i + length (code_of vop i n)) m @ [mk_op (binary_op_type o')]"
  "code_of vop i (Node l (LogicalAnd n m)) = (let xs = code_of vop i n; ys = code_of vop (i + length xs + 2) m
     in xs @ [mk_op_int OP_JUMP_IF_FALSE (w32 (i + length xs + 2 + length ys)), mk_op OP_POP_TOP] @ ys)"
  "code_of vop i (Node l (LogicalOr n m)) = (let xs = code_of vop i n; ys = code_of vop (i + length xs + 2) m
     in xs @ [mk_op_int OP_JUMP_IF_TRUE (w32 (i + length xs + 2 + length ys)), mk_op OP_POP_TOP] @ ys)"
  by (simp_all add: Let_def)

lemma eval_expr_simps:
  "eval_expr pow env (Node l (UnaryNode u n)) h = bnd (eval_expr pow env n h) (\<lambda>(h1, p).
     bnd (apply_unary u h1 p) (\<lambda>x. Inr (new_value h1 x)))"
  "eval_expr pow env (Node l (BinaryNode o' n m)) h = bnd (eval_expr pow env n h) (\<lambda>(h1, p).
     bnd (eval_expr pow env m h1) (\<lambda>(h2, q). bnd (apply_binary pow (binary_op_type o') h2 p q) (\<lambda>x. Inr (new_value h2 x))))"
  "eval_expr pow env (Node l (LogicalAnd n m)) h = bnd (eval_expr pow env n h) (\<lambda>(h1, p). bnd (deref h1 p) (\<lambda>x.
     if to_bool x then eval_expr pow env m h1 else Inr (h1, p)))"
  "eval_expr pow env (Node l (LogicalOr n m)) h = bnd (eval_expr pow env n h) (\<lambda>(h1, p). bnd (deref h1 p) (\<lambda>x.
     if to_bool x then Inr (h1, p) else eval_expr pow env m h1))"
  by simp_all

lemma run_logical_code:
  assumes "code_in (vm_ops s) i (code_of vop i (Node l b))" "i + length (code_of vop i (Node l b)) < 2 ^ 31"
    "(b, t, y) \<in> {(LogicalAnd n m, OP_JUMP_IF_FALSE, False), (LogicalOr n m, OP_JUMP_IF_TRUE, True)}"
    "eval_expr pow env (Node l b) h = Inr r"
    and n: "\<And>r. code_in (vm_ops s) i (code_of vop i n) \<Longrightarrow> i + length (code_of vop i n) < 2 ^ 31 \<Longrightarrow>
      eval_expr pow env n h = Inr r \<Longrightarrow> pushes H s i (code_of vop i n) h xs r"
    and m: "\<And>j h r. code_in (vm_ops s) j (code_of vop j m) \<Longrightarrow> j + length (code_of vop j m) < 2 ^ 31 \<Longrightarrow>
      eval_expr pow env m h = Inr r \<Longrightarrow> pushes H s j (code_of vop j m) h xs r"
  shows "pushes H s i (code_of vop i (Node l b)) h xs r"
proof -
  let ?os = "code_of vop i n" and ?ys = "code_of vop (i + length (code_of vop i n) + 2) m"
  let ?j = "i + length ?os + 2 + length ?ys"
  have e: "code_of vop i (Node l b) = ?os @ [mk_op_int t (w32 ?j), mk_op OP_POP_TOP] @ ?ys"
    using assms(3) by (elim insertE emptyE) (simp_all add: code_of_simps Let_def del: code_of.simps)
  have j: "?j < 2 ^ 31" using assms(2) unfolding e by simp
  have c: "code_in (vm_ops s) i (?os @ [mk_op_int t (w32 ?j), mk_op OP_POP_TOP] @ ?ys)"
    using assms(1) unfolding e .
  have c2: "code_in (vm_ops s) i ?os" "code_in (vm_ops s) (i + length ?os + 2) ?ys"
    using c unfolding code_in_append by simp_all
  obtain h1 p x where x: "eval_expr pow env n h = Inr (h1, p)" "deref h1 p = Inr x"
    "if to_bool x = y then r = (h1, p) else eval_expr pow env m h1 = Inr r"
    using assms(3,4) by (elim insertE emptyE)
      (auto simp: eval_expr_simps bnd_Inr_iff simp del: eval_expr.simps split: if_splits)
  have ty: "(t, y) \<in> {(OP_JUMP_IF_FALSE, False), (OP_JUMP_IF_TRUE, True)}" using assms(3) by auto
  have "pushes H s i ?os h xs (h1, p)" by (rule n) (use c2 j x in simp_all)
  then show ?thesis unfolding e
    by (rule run_logical [OF c refl j ty _ x(2)]) (use m [OF c2(2) _, of h1 r] j x(3) in \<open>simp split: if_splits\<close>)
qed

lemma code_of_runs:
  assumes "expression n" "code_in (vm_ops s) i (code_of vop i n)" "i + length (code_of vop i n) < 2 ^ 31"
    "eval_expr (host_pow H) (\<lambda>v. read_variable s (vop v)) n h = Inr r"
  shows "pushes H s i (code_of vop i n) h xs r"
  using assms
proof (induction n arbitrary: i h xs r rule: expression.induct)
  case (1 l b)
  let ?e = "eval_expr (host_pow H) (\<lambda>v. read_variable s (vop v))"
  note [simp del] = expression.simps code_of.simps eval_expr.simps
  show ?case
  proof (cases b)
    case (UnaryNode u n)
    let ?xs = "code_of vop i n"
    obtain h1 p x where e: "?e n h = Inr (h1, p)" "apply_unary u h1 p = Inr x" "r = new_value h1 x"
      using "1.prems"(4) unfolding UnaryNode eval_expr_simps by (auto simp: bnd_Inr_iff)
    have c: "code_in (vm_ops s) i ?xs" "code_in (vm_ops s) (i + length ?xs) [mk_op (unary_op_type u)]"
      using "1.prems"(2) unfolding UnaryNode code_of_simps code_in_append by simp_all
    have "pushes H s i ?xs h xs (h1, p)"
      by (rule "1.IH"(1) [OF UnaryNode])
        (use "1.prems"(1,3) UnaryNode e(1) c(1) in \<open>simp_all add: expression_simps code_of_simps\<close>)
    then have "reaches H (vm_at s h xs i) (vm_at s h1 (xs @ [p]) (i + length ?xs))" by (simp add: pushes_def)
    from reaches_trans [OF this run_unary [OF c(2) e(2)]] show ?thesis
      using UnaryNode e(3) by (simp add: pushes_def code_of_simps)
  next
    case (BinaryNode o' n m)
    let ?xs = "code_of vop i n"
    let ?ys = "code_of vop (i + length ?xs) m"
    obtain h1 p h2 q x where e: "?e n h = Inr (h1, p)" "?e m h1 = Inr (h2, q)"
      "apply_binary (host_pow H) (binary_op_type o') h2 p q = Inr x" "r = new_value h2 x"
      using "1.prems"(4) unfolding BinaryNode eval_expr_simps by (auto simp: bnd_Inr_iff)
    have c: "code_in (vm_ops s) i ?xs" "code_in (vm_ops s) (i + length ?xs) ?ys"
      "code_in (vm_ops s) (i + length ?xs + length ?ys) [mk_op (binary_op_type o')]"
      using "1.prems"(2) unfolding BinaryNode code_of_simps code_in_append by simp_all
    have "pushes H s i ?xs h xs (h1, p)"
      by (rule "1.IH"(2) [OF BinaryNode])
        (use "1.prems"(1,3) BinaryNode e(1) c(1) in \<open>simp_all add: expression_simps code_of_simps\<close>)
    moreover have "pushes H s (i + length ?xs) ?ys h1 (xs @ [p]) (h2, q)"
      by (rule "1.IH"(3) [OF BinaryNode])
        (use "1.prems"(1,3) BinaryNode e(2) c(2) in \<open>simp_all add: expression_simps code_of_simps\<close>)
    ultimately have "reaches H (vm_at s h xs i) (vm_at s h2 (xs @ [p, q]) (i + length ?xs + length ?ys))"
      using reaches_trans by (simp add: pushes_def)
    from reaches_trans [OF this run_binary [OF c(3) e(3)]] show ?thesis
      using BinaryNode e(4) by (simp add: pushes_def code_of_simps add.assoc)
  next
    case (LogicalAnd n m)
    have x: "expression n" "expression m" using "1.prems"(1) LogicalAnd by (simp_all add: expression_simps)
    show ?thesis
      by (rule run_logical_code [where t = OP_JUMP_IF_FALSE and y = False, OF "1.prems"(2,3) _ "1.prems"(4) "1.IH"(4) [OF LogicalAnd x(1)] "1.IH"(5) [OF LogicalAnd x(2)]])
        (use LogicalAnd in simp_all)
  next
    case (LogicalOr n m)
    have x: "expression n" "expression m" using "1.prems"(1) LogicalOr by (simp_all add: expression_simps)
    show ?thesis
      by (rule run_logical_code [where t = OP_JUMP_IF_TRUE and y = True, OF "1.prems"(2,3) _ "1.prems"(4) "1.IH"(6) [OF LogicalOr x(1)] "1.IH"(7) [OF LogicalOr x(2)]])
        (use LogicalOr in simp_all)
  qed (use "1.prems" in \<open>auto simp: expression.simps code_of.simps eval_expr.simps bnd_Inr_iff intro!: run_literal run_variable\<close>)
qed

lemma compiled_expression_runs:
  assumes "expression n" "\<forall>v \<in> variables n. variable_op c v = Some (vop v)" "op_array_ok (comp_ops c)"
    "here c + length (code_of vop (here c) n) < 2 ^ 31"
    "eval_expr (host_pow H) (\<lambda>v. read_variable s (vop v)) n (heap s) = Inr (h, p)"
    "pc s = int (here c)"
  shows "\<exists>c'. compile re t n c = Inr c' \<and>
    ops (comp_ops c') = ops (comp_ops c) @ code_of vop (here c) n \<and>
    (vm_ops s = comp_ops c' \<longrightarrow>
      (\<exists>k. \<forall>fuel. execute H (fuel + k) s = execute H fuel
        (s\<lparr>heap := h, stack := stack s @ [p], pc := int (here c')\<rparr>)))"
proof -
  let ?os = "code_of vop (here c) n"
  obtain ls l where c': "length ls = length ?os" "compile re t n c =
      Inr (c\<lparr>current_line := Some l, comp_ops := appended ?os ls (comp_ops c)\<rparr>)"
    using compile_emits [OF assms(1) _ assms(2), of c re t] by (auto simp: emits_def same_names_def)
  have "reaches H s (vm_at s h [p] (here c + length ?os))" if "vm_ops s = appended ?os ls (comp_ops c)"
  proof -
    have "code_in (vm_ops s) (here c) ?os"
      using assms(3) c'(1) that by (simp add: code_in_def appended_def op_array_ok_def here_def op_array_size_def)
    from code_of_runs [OF assms(1) this assms(4,5), of "[]"]
    have "reaches H (vm_at s (heap s) [] (here c)) (vm_at s h [p] (here c + length ?os))"
      by (simp add: pushes_def)
    moreover have "vm_at s (heap s) [] (here c) = s" using assms(6) by (cases s) (simp add: vm_at_def)
    ultimately show ?thesis by simp
  qed
  then show ?thesis using c'
    by (auto simp: reaches_def vm_at_def here_appended appended_def here_def op_array_size_def)
qed

text \<open>C1. The compiler is correct for expressions over literals, variables, the arithmetic, bit and
  comparison operators, negation, \<open>!\<close>, \<open>&&\<close> and \<open>||\<close>: if the reference evaluator gives an
  expression the value \<open>p\<close>, then the machine, started at the first of the instructions that
  \<open>compile\<close> emitted for it, gets behind the last of them with exactly \<open>p\<close> pushed, in some
  number of steps; the emitted instructions are those of the reference compiler.\<close>
theorem compile_expression_correct:
  assumes "expression n" "\<forall>v \<in> variables n. variable_op c v = Some (vop v)" "op_array_ok (comp_ops c)"
    "here c + length (code_of vop (here c) n) < 2 ^ 31"
    "eval_expr (host_pow H) (\<lambda>v. read_variable s (vop v)) n (heap s) = Inr (h, p)"
    "pc s = int (here c)"
  shows "\<exists>c'. compile re t n c = Inr c' \<and>
    ops (comp_ops c') = ops (comp_ops c) @ code_of vop (here c) n \<and>
    (vm_ops s = comp_ops c' \<longrightarrow>
      (\<exists>k. \<forall>fuel. execute H (fuel + k) s = execute H fuel
        (s\<lparr>heap := h, stack := stack s @ [p], pc := int (here c')\<rparr>)))"
  by (rule compiled_expression_runs [OF assms])

text \<open>\<open>$y && $y < 3\<close> in a scope that declares \<open>$y\<close>, run where it holds 2; the lexer makes
  \<open><\<close> the node \<open>NODE_GT\<close>.\<close>

definition demo_scope :: compiler where
  "demo_scope = (new_compiler empty_symtab [] ''demo'')
     \<lparr>blocks := [\<lparr>block_type = BLOCK_TYPE_FILE, vars = [''$y'']\<rparr>], current_line := Some 1\<rparr>"

definition demo_var :: node where
  "demo_var = Node 1 (StrNode NODE_GETVARIABLE ''$y'')"

definition demo_expr :: node where
  "demo_expr = Node 1 (LogicalAnd demo_var (Node 1 (BinaryNode NODE_GT demo_var (Node 1 (IntNode 3)))))"

definition demo_vm :: "op_array \<Rightarrow> vm" where
  "demo_vm a = (new_vm a empty_symtab)\<lparr>heap := [IntValue 2], pads := [\<lparr>pad_vars = [Some 0], next_pad = None\<rparr>],
     frame_stack := [(snd (new_frame FRAME_TYPE_LEXICAL 1 0 [] []))]\<rparr>"

theorem compile_expression_correct_witness:
  "\<exists>c'. compile (\<lambda>_ _. True) 0 demo_expr demo_scope = Inr c' \<and>
    (\<forall>H. \<exists>k. \<forall>fuel. execute H (fuel + k) (demo_vm (comp_ops c')) = execute H fuel
      ((demo_vm (comp_ops c'))\<lparr>heap := [IntValue 2, IntValue 3, BoolValue True], stack := [Some 2], pc := int (here c')\<rparr>))"
  (is "\<exists>c'. ?c c' \<and> _")
proof -
  let ?vop = "\<lambda>v. mk_op_int OP_GETLOCAL 0"
  have v: "\<forall>v \<in> variables demo_expr. variable_op demo_scope v = Some (?vop v)"
    by (simp add: demo_expr_def demo_var_def demo_scope_def new_compiler_def variable_op_def find_global_var_def
        find_localvar_def split_package_varname_def)
  have e: "expression demo_expr" by (simp add: demo_expr_def demo_var_def)
  have ok: "op_array_ok (comp_ops demo_scope)" "here demo_scope = 0"
    by (simp_all add: demo_scope_def new_compiler_def here_def op_array_size_def new_op_array_def op_array_ok_def)
  have l: "here demo_scope + length (code_of ?vop (here demo_scope) demo_expr) < 2 ^ 31"
    unfolding ok by (simp add: demo_expr_def demo_var_def Let_def)
  have d: "eval_expr (host_pow H) (\<lambda>v. read_variable (demo_vm a) (?vop v)) demo_expr (heap (demo_vm a)) =
      Inr ([IntValue 2, IntValue 3, BoolValue True], Some 2)" for H a
    by (simp add: demo_expr_def demo_var_def demo_vm_def new_vm_def new_frame_def new_pad_def read_variable_def mk_op_int_def
        frame_get_variable_def pad_get_at_def pad_at_def pad_get_def apply_binary_def cmpop_def new_value_def to_int_def
        deref_def is_symbol_def eval_nat_numeral)
  have pc: "pc (demo_vm a) = int (here demo_scope)" for a
    unfolding ok by (simp add: demo_vm_def new_vm_def new_frame_def new_pad_def)
  have st: "stack (demo_vm a) = []" for a by (simp add: demo_vm_def new_vm_def new_frame_def new_pad_def)
  have vo: "vm_ops (demo_vm a) = a" for a by (simp add: demo_vm_def new_vm_def new_frame_def new_pad_def)
  note t = compile_expression_correct [OF e v ok(1) l d pc, of "\<lambda>_ _. True" 0]
  from t obtain c' where c': "?c c'" by blast
  have "\<exists>k. \<forall>fuel. execute H (fuel + k) (demo_vm (comp_ops c')) = execute H fuel
      ((demo_vm (comp_ops c'))\<lparr>heap := [IntValue 2, IntValue 3, BoolValue True], stack := [Some 2], pc := int (here c')\<rparr>)" for H
    using t [of "comp_ops c'" H] c' by (auto simp: vo st)
  with c' show ?thesis by blast
qed

end
