(* ===== verification/Tora_Md5.thy ===== *)
theory Tora_Md5
  imports Tora_Prelude
begin

text \<open>
  The MD5 digest of the extension \<open>Digest::MD5\<close> (\<open>ext/Digest-MD5/md5.h\<close>, \<open>ext/Digest-MD5/md5.c\<close>).
  The state takes the message in pieces; the specification pads the whole message as RFC 1321
  says and folds the block function over it.
\<close>

subsection \<open>State and block function\<close>

type_synonym md5_byte = "8 word"
type_synonym md5_word = "32 word"
type_synonym digest_state = "md5_word \<times> md5_word \<times> md5_word \<times> md5_word"

record md5_state =
  count0 :: md5_word
  count1 :: md5_word
  abcd :: digest_state
  md5_buf :: "md5_byte list"

abbreviation T_MASK :: md5_word where
  "T_MASK \<equiv> 0xffffffff"

text \<open>The constants \<open>T1\<close> to \<open>T64\<close>.\<close>

definition md5_T :: "md5_word list" where
  "md5_T =
    [T_MASK XOR 0x28955b87, T_MASK XOR 0x173848a9, 0x242070db, T_MASK XOR 0x3e423111,
     T_MASK XOR 0x0a83f050, 0x4787c62a, T_MASK XOR 0x57cfb9ec, T_MASK XOR 0x02b96afe,
     0x698098d8, T_MASK XOR 0x74bb0850, T_MASK XOR 0x0000a44e, T_MASK XOR 0x76a32841,
     0x6b901122, T_MASK XOR 0x02678e6c, T_MASK XOR 0x5986bc71, 0x49b40821,
     T_MASK XOR 0x09e1da9d, T_MASK XOR 0x3fbf4cbf, 0x265e5a51, T_MASK XOR 0x16493855,
     T_MASK XOR 0x29d0efa2, 0x02441453, T_MASK XOR 0x275e197e, T_MASK XOR 0x182c0437,
     0x21e1cde6, T_MASK XOR 0x3cc8f829, T_MASK XOR 0x0b2af278, 0x455a14ed,
     T_MASK XOR 0x561c16fa, T_MASK XOR 0x03105c07, 0x676f02d9, T_MASK XOR 0x72d5b375,
     T_MASK XOR 0x0005c6bd, T_MASK XOR 0x788e097e, 0x6d9d6122, T_MASK XOR 0x021ac7f3,
     T_MASK XOR 0x5b4115bb, 0x4bdecfa9, T_MASK XOR 0x0944b49f, T_MASK XOR 0x4140438f,
     0x289b7ec6, T_MASK XOR 0x155ed805, T_MASK XOR 0x2b10cf7a, 0x04881d05,
     T_MASK XOR 0x262b2fc6, T_MASK XOR 0x1924661a, 0x1fa27cf8, T_MASK XOR 0x3b53a99a,
     T_MASK XOR 0x0bd6ddbb, 0x432aff97, T_MASK XOR 0x546bdc58, T_MASK XOR 0x036c5fc6,
     0x655b59c3, T_MASK XOR 0x70f3336d, T_MASK XOR 0x00100b82, T_MASK XOR 0x7a7ba22e,
     0x6fa87e4f, T_MASK XOR 0x01d3191f, T_MASK XOR 0x5cfebceb, 0x4e0811a1,
     T_MASK XOR 0x08ac817d, T_MASK XOR 0x42c50dca, 0x2ad7d2bb, T_MASK XOR 0x14792c6e]"

text \<open>For each step of a round the index of the message word and the rotation.\<close>

definition round1 :: "(nat \<times> nat) list" where
  "round1 =
    [(0, 7), (1, 12), (2, 17), (3, 22), (4, 7), (5, 12), (6, 17), (7, 22),
     (8, 7), (9, 12), (10, 17), (11, 22), (12, 7), (13, 12), (14, 17), (15, 22)]"

definition round2 :: "(nat \<times> nat) list" where
  "round2 =
    [(1, 5), (6, 9), (11, 14), (0, 20), (5, 5), (10, 9), (15, 14), (4, 20),
     (9, 5), (14, 9), (3, 14), (8, 20), (13, 5), (2, 9), (7, 14), (12, 20)]"

definition round3 :: "(nat \<times> nat) list" where
  "round3 =
    [(5, 4), (8, 11), (11, 16), (14, 23), (1, 4), (4, 11), (7, 16), (10, 23),
     (13, 4), (0, 11), (3, 16), (6, 23), (9, 4), (12, 11), (15, 16), (2, 23)]"

definition round4 :: "(nat \<times> nat) list" where
  "round4 =
    [(0, 6), (7, 10), (14, 15), (5, 21), (12, 6), (3, 10), (10, 15), (1, 21),
     (8, 6), (15, 10), (6, 15), (13, 21), (4, 6), (11, 10), (2, 15), (9, 21)]"

definition ROTATE_LEFT :: "md5_word \<Rightarrow> nat \<Rightarrow> md5_word" where
  "ROTATE_LEFT x n = push_bit n x OR drop_bit (32 - n) x"

definition round_F :: "md5_word \<Rightarrow> md5_word \<Rightarrow> md5_word \<Rightarrow> md5_word" where
  "round_F x y z = (x AND y) OR (NOT x AND z)"

definition round_G :: "md5_word \<Rightarrow> md5_word \<Rightarrow> md5_word \<Rightarrow> md5_word" where
  "round_G x y z = (x AND z) OR (y AND NOT z)"

definition round_H :: "md5_word \<Rightarrow> md5_word \<Rightarrow> md5_word \<Rightarrow> md5_word" where
  "round_H x y z = x XOR y XOR z"

definition round_I :: "md5_word \<Rightarrow> md5_word \<Rightarrow> md5_word \<Rightarrow> md5_word" where
  "round_I x y z = y XOR (x OR NOT z)"

text \<open>
  \<open>SET\<close> changes the register named first; the next step names the registers rotated by one, so
  after four steps, and after a round, they are back in order.
\<close>

fun md5_steps :: "(md5_word \<Rightarrow> md5_word \<Rightarrow> md5_word \<Rightarrow> md5_word) \<Rightarrow> md5_word list \<Rightarrow>
    (nat \<times> nat) list \<Rightarrow> md5_word list \<Rightarrow> digest_state \<Rightarrow> digest_state" where
  "md5_steps f X ((k, r) # ks) (t # ts) (a, b, c, d) =
     md5_steps f X ks ts (d, ROTATE_LEFT (a + f b c d + X ! k + t) r + b, b, c)"
| "md5_steps f X _ _ s = s"

text \<open>The bytes of a block as little-endian words.\<close>

fun md5_words :: "md5_byte list \<Rightarrow> md5_word list" where
  "md5_words (b0 # b1 # b2 # b3 # bs) =
     (ucast b0 + push_bit 8 (ucast b1) + push_bit 16 (ucast b2) + push_bit 24 (ucast b3)) # md5_words bs"
| "md5_words _ = []"

definition md5_process :: "digest_state \<Rightarrow> md5_byte list \<Rightarrow> digest_state" where
  "md5_process s data =
     (let X = md5_words data;
          s1 = md5_steps round_F X round1 (take 16 md5_T) s;
          s2 = md5_steps round_G X round2 (take 16 (drop 16 md5_T)) s1;
          s3 = md5_steps round_H X round3 (take 16 (drop 32 md5_T)) s2;
          (a, b, c, d) = md5_steps round_I X round4 (take 16 (drop 48 md5_T)) s3
      in case s of (a0, b0, c0, d0) \<Rightarrow> (a0 + a, b0 + b, c0 + c, d0 + d))"

subsection \<open>Streaming\<close>

definition md5_init_abcd :: digest_state where
  "md5_init_abcd = (0x67452301, T_MASK XOR 0x10325476, T_MASK XOR 0x67452301, 0x10325476)"

text \<open>The buffer is not initialised; nothing of it is read before it is written.\<close>

definition md5_init :: md5_state where
  "md5_init = \<lparr>count0 = 0, count1 = 0, abcd = md5_init_abcd, md5_buf = replicate 64 0\<rparr>"

text \<open>The loop over the full blocks, and what is left.\<close>

fun md5_blocks :: "digest_state \<Rightarrow> md5_byte list \<Rightarrow> digest_state \<times> md5_byte list" where
  "md5_blocks s data = (if 64 \<le> length data then md5_blocks (md5_process s (take 64 data)) (drop 64 data)
     else (s, data))"

declare md5_blocks.simps [simp del]

text \<open>\<open>memcpy(pms->buf + offset, p, copy)\<close>\<close>

definition buf_copy :: "nat \<Rightarrow> md5_byte list \<Rightarrow> md5_byte list \<Rightarrow> md5_byte list" where
  "buf_copy offset p buf = take offset buf @ p @ drop (offset + length p) buf"

definition md5_count :: "nat \<Rightarrow> md5_state \<Rightarrow> md5_state" where
  "md5_count nbytes st =
     (let nbits = of_nat (8 * nbytes);
          c0 = count0 st + nbits;
          c1 = count1 st + of_nat (nbytes div 2 ^ 29)
      in st\<lparr>count0 := c0, count1 := if c0 < nbits then c1 + 1 else c1\<rparr>)"

definition md5_append :: "md5_state \<Rightarrow> md5_byte list \<Rightarrow> md5_state" where
  "md5_append st data = (if data = [] then st else
     let offset = unat (drop_bit 3 (count0 st) AND 63);
         nbytes = length data;
         st1 = md5_count nbytes st;
         copy = (if offset + nbytes > 64 then 64 - offset else nbytes);
         buf1 = buf_copy offset (take copy data) (md5_buf st)
     in if offset \<noteq> 0 \<and> offset + copy < 64 then st1\<lparr>md5_buf := buf1\<rparr>
        else let (s1, buf2, p) = (if offset = 0 then (abcd st, md5_buf st, data)
                   else (md5_process (abcd st) buf1, buf1, drop copy data));
                 (s2, left) = md5_blocks s1 p
             in st1\<lparr>abcd := s2, md5_buf := if left = [] then buf2 else buf_copy 0 left buf2\<rparr>)"

text \<open>\<open>(md5_byte_t)(w >> ((i & 3) << 3))\<close> for \<open>i = 0, 1, 2, 3\<close>\<close>

definition word_bytes :: "md5_word \<Rightarrow> md5_byte list" where
  "word_bytes w = [ucast w, ucast (drop_bit 8 w), ucast (drop_bit 16 w), ucast (drop_bit 24 w)]"

definition md5_pad :: "md5_byte list" where
  "md5_pad = 0x80 # replicate 63 0"

definition digest_bytes :: "digest_state \<Rightarrow> md5_byte list" where
  "digest_bytes s = (case s of (a, b, c, d) \<Rightarrow> word_bytes a @ word_bytes b @ word_bytes c @ word_bytes d)"

definition md5_finish :: "md5_state \<Rightarrow> md5_byte list" where
  "md5_finish st =
     (let data = word_bytes (count0 st) @ word_bytes (count1 st);
          n = unat ((55 - drop_bit 3 (count0 st)) AND 63) + 1;
          st1 = md5_append st (take n md5_pad)
      in digest_bytes (abcd (md5_append st1 data)))"

text \<open>\<open>Digest::MD5::md5_hex\<close> (\<open>ext/Digest-MD5/Digest-MD5.cc\<close>) on the bytes of a string.\<close>

definition int2hexchar :: "nat \<Rightarrow> char" where
  "int2hexchar n = char_of (if n \<le> 9 then 48 + n else 97 + n - 10)"

definition md5_hex :: "string \<Rightarrow> string" where
  "md5_hex s = concat (map (\<lambda>b. [int2hexchar (unat (drop_bit 4 b)), int2hexchar (unat (b AND 15))])
     (md5_finish (md5_append md5_init (map (\<lambda>c. of_nat (of_char c)) s))))"

subsection \<open>Specification\<close>























end
