(* ===== verification/Tora_Http.thy ===== *)
theory Tora_Http
  imports Tora_Text
begin

text \<open>
  The HTTP head parser of the extension \<open>HTTP::Parser\<close> (\<open>ext/HTTP/picohttpparser.c\<close>). A buffer is
  the list of the bytes from \<open>buf\<close> to \<open>buf_end\<close>; tokens are the bytes they point at. The early
  returns with \<open>*ret = c\<close> are \<open>Raise c\<close>: -1 for a malformed head, -2 for an incomplete one. Reading
  at \<open>buf_end\<close> without a check is undefined.
\<close>

abbreviation CR :: char where "CR \<equiv> CHR 0x0D"
abbreviation LF :: char where "LF \<equiv> CHR 0x0A"
abbreviation SP :: char where "SP \<equiv> CHR 0x20"
abbreviation TAB :: char where "TAB \<equiv> CHR 0x09"

type_synonym 'a parser = "string \<Rightarrow> (int, 'a \<times> string) result"

record phr_header =
  hdr_name :: "string option"
  hdr_value :: string

text \<open>The out parameters of the two functions; a null pointer is \<open>None\<close>.\<close>

record phr_out =
  http_method :: "string option"
  http_path :: "string option"
  minor_version :: int
  status :: int
  msg :: "string option"
  headers :: "phr_header list"

subsection \<open>Tokens\<close>

abbreviation partial_head :: "(int, 'a) result" where
  "partial_head \<equiv> Inl (Raise (- 2))"

abbreviation bad_head :: "(int, 'a) result" where
  "bad_head \<equiv> Inl (Raise (- 1))"

definition EXPECT_CHAR :: "char \<Rightarrow> unit parser" where
  "EXPECT_CHAR ch buf = (case buf of [] \<Rightarrow> partial_head | c # cs \<Rightarrow> if c \<noteq> ch then bad_head else Inr ((), cs))"

fun ADVANCE_TOKEN :: "string parser" where
  "ADVANCE_TOKEN [] = partial_head"
| "ADVANCE_TOKEN (c # cs) = (if c = SP then Inr ([], c # cs)
     else if c = CR \<or> c = LF then bad_head
     else bnd (ADVANCE_TOKEN cs) (\<lambda>(t, r). Inr (c # t, r)))"

text \<open>The unrolled loop over 16 bytes: whether an end of line was found, the bytes before, the rest.\<close>

fun scan_block :: "nat \<Rightarrow> string \<Rightarrow> bool \<times> string \<times> string" where
  "scan_block (Suc n) (c # cs) = (if c = CR \<or> c = LF then (True, [], c # cs)
     else case scan_block n cs of (found, t, r) \<Rightarrow> (found, c # t, r))"
| "scan_block _ buf = (False, [], buf)"

fun scan_eol :: "string parser" where
  "scan_eol [] = partial_head"
| "scan_eol (c # cs) = (if c = CR \<or> c = LF then Inr ([], c # cs)
     else bnd (scan_eol cs) (\<lambda>(t, r). Inr (c # t, r)))"

lemma scan_block_split: "scan_block n buf = (found, t, r) \<Longrightarrow> buf = t @ r"
proof (induction n buf arbitrary: t r rule: scan_block.induct)
  case (1 n c cs)
  then show ?case by (cases "scan_block n cs") (auto split: if_splits)
qed auto

lemma scan_block_length: "scan_block n buf = (False, t, r) \<Longrightarrow> length t = min n (length buf)"
proof (induction n buf arbitrary: t r rule: scan_block.induct)
  case (1 n c cs)
  then show ?case by (cases "scan_block n cs") (auto split: if_splits)
qed auto

function find_eol :: "string parser" where
  "find_eol buf = (if 16 \<le> length buf then
       (case scan_block 16 buf of (found, t, r) \<Rightarrow>
          if found then Inr (t, r) else bnd (find_eol r) (\<lambda>(t', r'). Inr (t @ t', r')))
     else scan_eol buf)"
  by pat_completeness auto
termination
proof (relation "measure length", goal_cases)
  case (2 buf found y t r)
  then have e: "scan_block 16 buf = (False, t, r)" by simp
  from scan_block_split [OF e] scan_block_length [OF e] 2(1) show ?case by simp
qed simp

declare find_eol.simps [simp del]

definition get_token_to_eol :: "string parser" where
  "get_token_to_eol buf = bnd (find_eol buf) (\<lambda>(t, r). case r of
       [] \<Rightarrow> Inl Undefined
     | c # cs \<Rightarrow> if c = CR then bnd (EXPECT_CHAR LF cs) (\<lambda>(_, r'). Inr (t, r')) else Inr (t, cs))"

text \<open>\<open>int v; v = v * 10 + *buf - '0'\<close>: the sum is computed before the subtraction.\<close>

fun parse_digits :: "int \<Rightarrow> int parser" where
  "parse_digits v [] = partial_head"
| "parse_digits v (c # cs) = (if is_digit c then
       (if v * 10 + int (of_char c) < 2 ^ 31 then parse_digits (v * 10 + int (of_char c) - 48) cs
        else Inl Undefined)
     else Inr (v, c # cs))"

definition parse_int :: "int parser" where
  "parse_int buf = (case buf of [] \<Rightarrow> partial_head
     | c # cs \<Rightarrow> if \<not> is_digit c then bad_head else parse_digits 0 buf)"

fun expect_string :: "string \<Rightarrow> unit parser" where
  "expect_string [] buf = Inr ((), buf)"
| "expect_string (c # cs) buf = bnd (EXPECT_CHAR c buf) (\<lambda>(_, r). expect_string cs r)"

definition parse_http_version :: "int parser" where
  "parse_http_version buf = bnd (expect_string ''HTTP/1.'' buf) (\<lambda>(_, r). parse_int r)"

subsection \<open>Headers\<close>

text \<open>\<open>char\<close> is signed: \<open>*buf < ' '\<close> holds for the bytes from 128 on.\<close>

definition below_space :: "char \<Rightarrow> bool" where
  "below_space c = ((of_char c :: nat) < 32 \<or> (of_char c :: nat) \<ge> 128)"

fun parse_name :: "string parser" where
  "parse_name [] = partial_head"
| "parse_name (c # cs) = (if c = CHR '':'' then Inr ([], cs)
     else if below_space c then bad_head
     else bnd (parse_name cs) (\<lambda>(t, r). Inr (c # t, r)))"

fun skip_blanks :: "unit parser" where
  "skip_blanks [] = partial_head"
| "skip_blanks (c # cs) = (if c = SP \<or> c = TAB then skip_blanks cs else Inr ((), c # cs))"

definition parse_header :: "bool \<Rightarrow> phr_header parser" where
  "parse_header first buf =
     (if first \<or> \<not> (buf \<noteq> [] \<and> (hd buf = SP \<or> hd buf = TAB)) then
        bnd (parse_name buf) (\<lambda>(n, r). bnd (skip_blanks r) (\<lambda>(_, r').
          bnd (get_token_to_eol r') (\<lambda>(v, r''). Inr (\<lparr>hdr_name = Some n, hdr_value = v\<rparr>, r''))))
      else bnd (get_token_to_eol buf) (\<lambda>(v, r''). Inr (\<lparr>hdr_name = None, hdr_value = v\<rparr>, r'')))"

text \<open>An early return leaves the out parameters as they are then.\<close>

definition with_out :: "'o \<Rightarrow> (int, 'a) result \<Rightarrow> (int \<times> 'o, 'a) result" where
  "with_out out m = (case m of Inr a \<Rightarrow> Inr a | Inl (Raise c) \<Rightarrow> Inl (Raise (c, out)) | Inl _ \<Rightarrow> Inl Undefined)"

lemma with_out_Inr [simp]: "with_out out m = Inr a \<longleftrightarrow> m = Inr a" "with_out out (Inr a) = Inr a"
  by (auto simp: with_out_def split: sum.split fault.split)

lemma with_out_cong [fundef_cong]: "m = m' \<Longrightarrow> out = out' \<Longrightarrow> with_out out m = with_out out' m'"
  by simp

lemma scan_eol_split: "scan_eol buf = Inr (t, r) \<Longrightarrow> buf = t @ r \<and> r \<noteq> [] \<and> (hd r = CR \<or> hd r = LF)"
  by (induction buf arbitrary: t) (auto split: if_splits simp: bnd_Inr_iff)

lemma scan_block_found: "scan_block n buf = (True, t, r) \<Longrightarrow> scan_eol buf = Inr (t, r)"
proof (induction n buf arbitrary: t r rule: scan_block.induct)
  case (1 n c cs)
  then show ?case by (cases "scan_block n cs") (auto split: if_splits)
qed auto

lemma scan_block_not_found: "scan_block n buf = (False, t, r) \<Longrightarrow>
    scan_eol buf = bnd (scan_eol r) (\<lambda>(t', r'). Inr (t @ t', r'))"
proof (induction n buf arbitrary: t r rule: scan_block.induct)
  case (1 n c cs)
  then show ?case by (cases "scan_block n cs") (auto split: if_splits simp: bnd_assoc intro!: bnd_cong)
qed (auto simp: bnd_def split: sum.split)

text \<open>The unrolled loop finds what the plain loop finds.\<close>

lemma find_eol_eq: "find_eol buf = scan_eol buf"
proof (induction buf rule: find_eol.induct)
  case (1 buf)
  obtain found t r where b: "scan_block 16 buf = (found, t, r)" by (cases "scan_block 16 buf")
  show ?case
  proof (cases found)
    case True
    then show ?thesis using b scan_block_found [of 16 buf t r] by (subst find_eol.simps) simp
  next
    case False
    then have "scan_block 16 buf = (False, t, r)" using b by simp
    note n = scan_block_not_found [OF this]
    show ?thesis using b n False 1 [OF _ b [symmetric] refl False] by (subst find_eol.simps) simp
  qed
qed

lemma get_token_consumes: "get_token_to_eol buf = Inr (v, r) \<Longrightarrow> length r < length buf"
proof -
  assume g: "get_token_to_eol buf = Inr (v, r)"
  then obtain t u where s: "scan_eol buf = Inr (t, u)"
    by (cases "scan_eol buf") (auto simp: get_token_to_eol_def find_eol_eq)
  from scan_eol_split [OF s] obtain c cs where u: "u = c # cs" "buf = t @ c # cs" by (cases u) auto
  show ?thesis using g s u
    by (auto simp: get_token_to_eol_def find_eol_eq EXPECT_CHAR_def split: if_splits list.splits)
qed

lemma parse_name_consumes: "parse_name buf = Inr (t, r) \<Longrightarrow> length r < length buf"
  by (induction buf arbitrary: t) (auto split: if_splits simp: bnd_Inr_iff less_Suc_eq)

lemma skip_blanks_consumes: "skip_blanks buf = Inr (t, r) \<Longrightarrow> length r \<le> length buf"
  by (induction buf) (auto split: if_splits)

lemma parse_header_consumes: "parse_header first buf = Inr (h, r) \<Longrightarrow> length r < length buf"
  unfolding parse_header_def
  by (auto simp: bnd_Inr_iff split: if_splits
      dest!: get_token_consumes parse_name_consumes skip_blanks_consumes)

function parse_headers :: "nat \<Rightarrow> phr_header list \<Rightarrow> string \<Rightarrow>
    (int \<times> phr_header list, phr_header list \<times> string) result" where
  "parse_headers max_headers hs buf = (case buf of
       [] \<Rightarrow> Inl (Raise (- 2, hs))
     | c # cs \<Rightarrow>
         if c = CR then bnd (with_out hs (EXPECT_CHAR LF cs)) (\<lambda>(_, r). Inr (hs, r))
         else if c = LF then Inr (hs, cs)
         else if length hs = max_headers then Inl (Raise (- 1, hs))
         else bnd (with_out hs (parse_header (hs = []) buf)) (\<lambda>(h, r). parse_headers max_headers (hs @ [h]) r))"
  by pat_completeness auto
termination
  by (relation "measure (\<lambda>(_, _, buf). length buf)") (auto dest: parse_header_consumes)

declare parse_headers.simps [simp del]

lemma parse_headers_first:
  "parse_headers m hs [] = Inl (Raise (- 2, hs))"
  "parse_headers m hs (CR # cs) = bnd (with_out hs (EXPECT_CHAR LF cs)) (\<lambda>(_, r). Inr (hs, r))"
  "parse_headers m hs (LF # cs) = Inr (hs, cs)"
  "c \<noteq> CR \<Longrightarrow> c \<noteq> LF \<Longrightarrow> parse_headers m hs (c # cs) =
     (if length hs = m then Inl (Raise (- 1, hs))
      else bnd (with_out hs (parse_header (hs = []) (c # cs))) (\<lambda>(h, r). parse_headers m (hs @ [h]) r))"
  by (simp_all add: parse_headers.simps [of m hs "_ # _"] parse_headers.simps [of m hs "[]"])

subsection \<open>Requests and responses\<close>

definition in_headers :: "nat \<Rightarrow> phr_out \<Rightarrow> string \<Rightarrow> (int \<times> phr_out, phr_out \<times> string) result" where
  "in_headers max_headers out buf = (case parse_headers max_headers [] buf of
       Inr (hs, r) \<Rightarrow> Inr (out\<lparr>headers := hs\<rparr>, r)
     | Inl (Raise (c, hs)) \<Rightarrow> Inl (Raise (c, out\<lparr>headers := hs\<rparr>))
     | Inl _ \<Rightarrow> Inl Undefined)"

definition skip_empty_line :: "unit parser" where
  "skip_empty_line buf = (case buf of [] \<Rightarrow> partial_head
     | c # cs \<Rightarrow> if c = CR then EXPECT_CHAR LF cs else if c = LF then Inr ((), cs) else Inr ((), buf))"

text \<open>\<open>++buf\<close> after a token, and the end of the request line.\<close>

definition skip_char :: "unit parser" where
  "skip_char buf = (case buf of [] \<Rightarrow> Inl Undefined | _ # cs \<Rightarrow> Inr ((), cs))"

definition end_of_line :: "unit parser" where
  "end_of_line buf = (case buf of [] \<Rightarrow> Inl Undefined
     | c # cs \<Rightarrow> if c = CR then EXPECT_CHAR LF cs else if c = LF then Inr ((), cs) else bad_head)"

definition parse_request :: "nat \<Rightarrow> phr_out \<Rightarrow> string \<Rightarrow> (int \<times> phr_out, phr_out \<times> string) result" where
  "parse_request max_headers out buf =
     bnd (with_out out (skip_empty_line buf)) (\<lambda>(_, b1).
     bnd (with_out out (ADVANCE_TOKEN b1)) (\<lambda>(m, b2). let out = out\<lparr>http_method := Some m\<rparr> in
     bnd (with_out out (skip_char b2)) (\<lambda>(_, b3).
     bnd (with_out out (ADVANCE_TOKEN b3)) (\<lambda>(p, b4). let out = out\<lparr>http_path := Some p\<rparr> in
     bnd (with_out out (skip_char b4)) (\<lambda>(_, b5).
     bnd (with_out out (parse_http_version b5)) (\<lambda>(v, b6). let out = out\<lparr>minor_version := v\<rparr> in
     bnd (with_out out (end_of_line b6)) (\<lambda>(_, b7). in_headers max_headers out b7)))))))"

text \<open>\<open>if (*buf++ != ' ')\<close>\<close>

definition skip_space :: "unit parser" where
  "skip_space buf = (case buf of [] \<Rightarrow> Inl Undefined | c # cs \<Rightarrow> if c \<noteq> SP then bad_head else Inr ((), cs))"

definition parse_response :: "nat \<Rightarrow> phr_out \<Rightarrow> string \<Rightarrow> (int \<times> phr_out, phr_out \<times> string) result" where
  "parse_response max_headers out buf =
     bnd (with_out out (parse_http_version buf)) (\<lambda>(v, b1). let out = out\<lparr>minor_version := v\<rparr> in
     bnd (with_out out (skip_space b1)) (\<lambda>(_, b2).
     bnd (with_out out (parse_int b2)) (\<lambda>(s, b3). let out = out\<lparr>status := s\<rparr> in
     bnd (with_out out (skip_space b3)) (\<lambda>(_, b4).
     bnd (with_out out (get_token_to_eol b4)) (\<lambda>(m, b5). let out = out\<lparr>msg := Some m\<rparr> in
     in_headers max_headers out b5)))))"

text \<open>Two ends of line in a row, from three bytes before the end of the previous attempt.\<close>

fun count_eols :: "nat \<Rightarrow> unit parser" where
  "count_eols n [] = partial_head"
| "count_eols n (c # cs) =
     (if c = CR then (case cs of [] \<Rightarrow> partial_head
          | d # ds \<Rightarrow> if d \<noteq> LF then bad_head else if n + 1 = 2 then Inr ((), ds) else count_eols (n + 1) ds)
      else if c = LF then (if n + 1 = 2 then Inr ((), cs) else count_eols (n + 1) cs)
      else count_eols 0 cs)"

definition is_complete :: "nat \<Rightarrow> unit parser" where
  "is_complete last_len buf = (if last_len < 3 then count_eols 0 buf
     else if length buf < last_len - 3 then Inl Undefined
     else count_eols 0 (drop (last_len - 3) buf))"

definition phr_init :: phr_out where
  "phr_init = \<lparr>http_method = None, http_path = None, minor_version = - 1, status = 0, msg = None, headers = []\<rparr>"

text \<open>The common frame of the two entry points: the return code and the out parameters.\<close>

definition phr_run :: "(phr_out \<Rightarrow> string \<Rightarrow> (int \<times> phr_out, phr_out \<times> string) result) \<Rightarrow> nat \<Rightarrow> string \<Rightarrow>
    ('x, int \<times> phr_out) result" where
  "phr_run parse last_len buf = (case (if last_len = 0 then Inr ((), buf) else is_complete last_len buf) of
       Inl (Raise c) \<Rightarrow> Inr (c, phr_init)
     | Inl _ \<Rightarrow> Inl Undefined
     | Inr _ \<Rightarrow> (case parse phr_init buf of
           Inr (out, r) \<Rightarrow> Inr (int (length buf) - int (length r), out)
         | Inl (Raise (c, out)) \<Rightarrow> Inr (c, out)
         | Inl _ \<Rightarrow> Inl Undefined))"

definition phr_parse_request :: "nat \<Rightarrow> nat \<Rightarrow> string \<Rightarrow> ('x, int \<times> phr_out) result" where
  "phr_parse_request max_headers = phr_run (parse_request max_headers)"

definition phr_parse_response :: "nat \<Rightarrow> nat \<Rightarrow> string \<Rightarrow> ('x, int \<times> phr_out) result" where
  "phr_parse_response max_headers = phr_run (parse_response max_headers)"

subsection \<open>Incremental parsers\<close>

text \<open>
  What a caller that reads from a socket relies on: a parser consumes a prefix of the buffer, and
  more bytes after the buffer change no answer except the one for an incomplete head.
\<close>

locale incremental_parser =
  fixes partial fatal :: "'x \<Rightarrow> bool" and p :: "string \<Rightarrow> ('x, 'a \<times> string) result"
  assumes suffix: "p xs = Inr (a, r) \<Longrightarrow> \<exists>u. xs = u @ r"
    and stable: "p xs = Inr (a, r) \<Longrightarrow> p (xs @ ys) = Inr (a, r @ ys)"
    and stable_error: "p xs = Inl e \<Longrightarrow> \<forall>x. e = Raise x \<longrightarrow> \<not> partial x \<Longrightarrow> p (xs @ ys) = Inl e"
    and codes: "p xs = Inl (Raise x) \<Longrightarrow> partial x \<or> fatal x"
begin

lemma prefix_partial:
  assumes "p xs = Inr (a, r)" "k < length xs - length r"
  shows "\<exists>x. p (take k xs) = Inl (Raise x) \<and> partial x"
proof (rule ccontr)
  assume n: "\<not> ?thesis"
  have xs: "xs = take k xs @ drop k xs" by simp
  show False
  proof (cases "p (take k xs)")
    case (Inl e)
    with n have "\<forall>x. e = Raise x \<longrightarrow> \<not> partial x" by simp
    from stable_error [OF Inl this] have "p (take k xs @ drop k xs) = Inl e" .
    then show False using assms(1) xs by simp
  next
    case (Inr b)
    obtain c r' where b: "b = (c, r')" by (cases b)
    from stable [OF Inr [unfolded b], of "drop k xs"] assms(1) have "r = r' @ drop k xs" by simp
    then show False using assms(2) by simp
  qed
qed

lemma consumed: "p xs = Inr (a, r) \<Longrightarrow> take (length xs - length r) xs @ r = xs"
  using suffix by fastforce

end

definition incr_at :: "('x \<Rightarrow> bool) \<Rightarrow> ('x \<Rightarrow> bool) \<Rightarrow> (string \<Rightarrow> ('x, 'a \<times> string) result) \<Rightarrow> string \<Rightarrow> bool" where
  "incr_at partial fatal p xs = (\<forall>ys. case p xs of
       Inr (a, r) \<Rightarrow> (\<exists>u. xs = u @ r) \<and> p (xs @ ys) = Inr (a, r @ ys)
     | Inl e \<Rightarrow> (\<exists>x. e = Raise x \<and> partial x) \<or> p (xs @ ys) = Inl e \<and> (\<forall>x. e = Raise x \<longrightarrow> fatal x))"

lemma incr_atD:
  assumes "incr_at partial fatal p xs"
  shows "p xs = Inr (a, r) \<Longrightarrow> \<exists>u. xs = u @ r" "p xs = Inr (a, r) \<Longrightarrow> p (xs @ ys) = Inr (a, r @ ys)"
    "p xs = Inl e \<Longrightarrow> \<forall>x. e = Raise x \<longrightarrow> \<not> partial x \<Longrightarrow> p (xs @ ys) = Inl e"
    "p xs = Inl (Raise x) \<Longrightarrow> partial x \<or> fatal x"
  using assms by (auto simp: incr_at_def)

lemma incremental_parserI: "(\<And>xs. incr_at partial fatal p xs) \<Longrightarrow> incremental_parser partial fatal p"
  by (rule incremental_parser.intro) (blast intro: incr_atD dest: incr_atD(4))+

lemma incr_bnd:
  assumes p: "incr_at partial fatal p xs" and q: "\<And>a r. p xs = Inr (a, r) \<Longrightarrow> incr_at partial fatal (q a) r"
  shows "incr_at partial fatal (\<lambda>b. bnd (p b) (\<lambda>(a, r). q a r)) xs"
proof (cases "p xs")
  case (Inl e)
  then show ?thesis using incr_atD(3) [OF p Inl] incr_atD(4) [OF p] by (auto simp: incr_at_def)
next
  case (Inr c)
  obtain a r where c: "c = (a, r)" by (cases c)
  note pr = Inr [unfolded c]
  obtain u where u: "xs = u @ r" using incr_atD(1) [OF p pr] by blast
  show ?thesis unfolding incr_at_def
  proof
    fix ys
    have e: "bnd (p xs) (\<lambda>(a, r). q a r) = q a r" "bnd (p (xs @ ys)) (\<lambda>(a, r). q a r) = q a (r @ ys)"
      using pr incr_atD(2) [OF p pr] by simp_all
    show "case bnd (p xs) (\<lambda>(a, r). q a r) of Inr (b, r) \<Rightarrow> (\<exists>u. xs = u @ r) \<and>
          bnd (p (xs @ ys)) (\<lambda>(a, r). q a r) = Inr (b, r @ ys)
        | Inl e \<Rightarrow> (\<exists>x. e = Raise x \<and> partial x) \<or> bnd (p (xs @ ys)) (\<lambda>(a, r). q a r) = Inl e \<and> (\<forall>x. e = Raise x \<longrightarrow> fatal x)"
      unfolding e using q [OF pr, unfolded incr_at_def, rule_format, of ys] u
      by (cases "q a r") (auto split: prod.splits)
  qed
qed

lemma incr_return: "incr_at partial fatal (\<lambda>r. Inr (a, r)) xs"
  by (simp add: incr_at_def)

lemma incr_partial: "partial x \<Longrightarrow> p xs = Inl (Raise x) \<Longrightarrow> incr_at partial fatal p xs"
  by (simp add: incr_at_def)

lemma incr_error:
  assumes "\<And>ys. p (xs @ ys) = Inl e" "\<And>x. e = Raise x \<Longrightarrow> fatal x"
  shows "incr_at partial fatal p xs"
  using assms(1) [of "[]"] assms by (simp add: incr_at_def)

lemma incr_same: "p xs = q xs \<Longrightarrow> (\<And>ys. p (xs @ ys) = q (xs @ ys)) \<Longrightarrow> incr_at partial fatal q xs \<Longrightarrow> incr_at partial fatal p xs"
  by (simp add: incr_at_def split: sum.splits)

lemma incr_if: "(c \<Longrightarrow> incr_at partial fatal p xs) \<Longrightarrow> (\<not> c \<Longrightarrow> incr_at partial fatal q xs) \<Longrightarrow>
    incr_at partial fatal (\<lambda>b. if c then p b else q b) xs"
  by (cases c) simp_all

text \<open>A parser behind a byte that it has looked at.\<close>

lemma incr_Cons:
  assumes "incr_at partial fatal q cs" "\<And>cs. p (c # cs) = q cs"
  shows "incr_at partial fatal p (c # cs)"
  using assms unfolding incr_at_def by (force split: sum.splits)

definition is_partial :: "int \<Rightarrow> bool" where
  "is_partial c = (c = - 2)"

definition is_fatal :: "int \<Rightarrow> bool" where
  "is_fatal c = (c = - 1)"

lemmas answer_defs = is_partial_def is_fatal_def

named_theorems incr

lemma incr_EXPECT_CHAR [incr]: "incr_at is_partial is_fatal (EXPECT_CHAR ch) xs"
  by (cases xs) (auto simp: incr_at_def answer_defs EXPECT_CHAR_def)

lemma incr_map: "incr_at partial fatal p xs \<Longrightarrow> incr_at partial fatal (\<lambda>b. bnd (p b) (\<lambda>(a, r). Inr (f a, r))) xs"
  by (rule incr_bnd) (auto intro: incr_return)

lemma incr_ADVANCE_TOKEN [incr]: "incr_at is_partial is_fatal ADVANCE_TOKEN xs"
proof (induction xs)
  case (Cons c cs)
  show ?case
  proof (cases "c = SP \<or> c = CR \<or> c = LF")
    case True
    then show ?thesis by (auto simp: incr_at_def answer_defs)
  next
    case False
    then show ?thesis by (intro incr_Cons [OF incr_map [OF Cons, of "(#) c"]]) simp
  qed
qed (simp add: incr_at_def answer_defs)

lemma incr_scan_eol [incr]: "incr_at is_partial is_fatal scan_eol xs"
proof (induction xs)
  case (Cons c cs)
  show ?case
  proof (cases "c = CR \<or> c = LF")
    case True
    then show ?thesis by (auto simp: incr_at_def answer_defs)
  next
    case False
    then show ?thesis by (intro incr_Cons [OF incr_map [OF Cons, of "(#) c"]]) simp
  qed
qed (simp add: incr_at_def answer_defs)

lemma incr_get_token_to_eol [incr]: "incr_at is_partial is_fatal get_token_to_eol xs"
  unfolding get_token_to_eol_def find_eol_eq
proof (rule incr_bnd [OF incr_scan_eol])
  fix t r
  assume "scan_eol xs = Inr (t, r)"
  from scan_eol_split [OF this] obtain c cs where r: "r = c # cs" by (cases r) auto
  have "incr_at is_partial is_fatal (\<lambda>b. if c = CR then bnd (EXPECT_CHAR LF b) (\<lambda>(_, r'). Inr (t, r')) else Inr (t, b)) cs"
    by (intro incr_if incr_map incr_EXPECT_CHAR incr_return)
  then show "incr_at is_partial is_fatal (\<lambda>r. case r of [] \<Rightarrow> Inl Undefined
      | c # cs \<Rightarrow> if c = CR then bnd (EXPECT_CHAR LF cs) (\<lambda>(_, r'). Inr (t, r')) else Inr (t, cs)) r"
    unfolding r by (rule incr_Cons) simp
qed

lemma incr_parse_digits [incr]: "incr_at is_partial is_fatal (parse_digits v) xs"
proof (induction xs arbitrary: v)
  case (Cons c cs)
  show ?case
  proof (cases "is_digit c \<and> v * 10 + int (of_char c) < 2 ^ 31")
    case True
    then show ?thesis by (intro incr_Cons [OF Cons]) simp
  next
    case False
    then show ?thesis by (auto simp: incr_at_def answer_defs)
  qed
qed (simp add: incr_at_def answer_defs)

lemma incr_parse_int [incr]: "incr_at is_partial is_fatal parse_int xs"
proof (cases xs)
  case (Cons c cs)
  show ?thesis
  proof (cases "is_digit c")
    case True
    then show ?thesis unfolding Cons by (intro incr_same [OF _ _ incr_parse_digits [of 0]]) (simp_all add: parse_int_def)
  next
    case False
    then show ?thesis unfolding Cons by (auto simp: incr_at_def parse_int_def answer_defs)
  qed
qed (simp add: incr_at_def answer_defs parse_int_def)

lemma incr_expect_string [incr]: "incr_at is_partial is_fatal (expect_string cs) xs"
proof (induction cs arbitrary: xs)
  case (Cons c cs)
  show ?case unfolding expect_string.simps by (rule incr_bnd [OF incr_EXPECT_CHAR]) (use Cons in simp)
qed (simp add: incr_at_def)

lemma incr_parse_http_version [incr]: "incr_at is_partial is_fatal parse_http_version xs"
  unfolding parse_http_version_def by (rule incr_bnd [OF incr_expect_string]) (rule incr_parse_int)

lemma incr_parse_name [incr]: "incr_at is_partial is_fatal parse_name xs"
proof (induction xs)
  case (Cons c cs)
  show ?case
  proof (cases "c = CHR '':'' \<or> below_space c")
    case True
    then show ?thesis by (auto simp: incr_at_def answer_defs)
  next
    case False
    then show ?thesis by (intro incr_Cons [OF incr_map [OF Cons, of "(#) c"]]) simp
  qed
qed (simp add: incr_at_def answer_defs)

lemma incr_skip_blanks [incr]: "incr_at is_partial is_fatal skip_blanks xs"
proof (induction xs)
  case (Cons c cs)
  show ?case
  proof (cases "c = SP \<or> c = TAB")
    case True
    then show ?thesis by (intro incr_Cons [OF Cons]) auto
  next
    case False
    then show ?thesis by (auto simp: incr_at_def answer_defs)
  qed
qed (simp add: incr_at_def answer_defs)

lemma incr_parse_header [incr]: "incr_at is_partial is_fatal (parse_header first) xs"
proof -
  define named folded where "named = (\<lambda>buf. bnd (parse_name buf) (\<lambda>(n, r). bnd (skip_blanks r) (\<lambda>(_, r').
      bnd (get_token_to_eol r') (\<lambda>(v, r''). Inr (\<lparr>hdr_name = Some n, hdr_value = v\<rparr>, r'')))))"
    and "folded = (\<lambda>buf. bnd (get_token_to_eol buf) (\<lambda>(v, r''). Inr (\<lparr>hdr_name = None, hdr_value = v\<rparr>, r'')))"
  have n: "incr_at is_partial is_fatal named xs" unfolding named_def
    by (intro incr_bnd [OF incr_parse_name] incr_bnd [OF incr_skip_blanks] incr_map incr_get_token_to_eol)
  have f: "incr_at is_partial is_fatal folded xs" unfolding folded_def by (intro incr_map incr_get_token_to_eol)
  have e: "parse_header first buf = (if first \<or> \<not> (buf \<noteq> [] \<and> (hd buf = SP \<or> hd buf = TAB)) then named buf else folded buf)" for buf
    by (simp add: parse_header_def named_def folded_def)
  show ?thesis
  proof (cases xs)
    case Nil
    then show ?thesis by (simp add: parse_header_def incr_at_def answer_defs)
  next
    case (Cons c cs)
    show ?thesis
    proof (cases "first \<or> \<not> (c = SP \<or> c = TAB)")
      case True
      then show ?thesis by (intro incr_same [OF _ _ n]; unfold e Cons; auto)
    next
      case False
      then show ?thesis by (intro incr_same [OF _ _ f]; unfold e Cons; auto)
    qed
  qed
qed

definition is_partial_out :: "int \<times> 'o \<Rightarrow> bool" where
  "is_partial_out x = is_partial (fst x)"

definition is_fatal_out :: "int \<times> 'o \<Rightarrow> bool" where
  "is_fatal_out x = is_fatal (fst x)"

lemma incr_with_out: "incr_at is_partial is_fatal p xs \<Longrightarrow> incr_at is_partial_out is_fatal_out (\<lambda>b. with_out out (p b)) xs"
  unfolding incr_at_def with_out_def
  by (cases "p xs") (auto simp: is_partial_out_def is_fatal_out_def split: fault.splits)

lemma incr_parse_headers: "incr_at is_partial_out is_fatal_out (parse_headers m hs) xs"
proof (induction m hs xs rule: parse_headers.induct)
  case (1 m hs xs)
  show ?case
  proof (cases xs)
    case Nil
    then show ?thesis by (simp add: parse_headers_first incr_at_def is_fatal_out_def answer_defs is_partial_out_def is_fatal_out_def answer_defs)
  next
    case (Cons c cs)
    consider "c = CR" | "c = LF" | "c \<noteq> CR" "c \<noteq> LF" "length hs = m" | "c \<noteq> CR" "c \<noteq> LF" "length hs \<noteq> m" by blast
    then show ?thesis
    proof cases
      case 1
      have "incr_at is_partial_out is_fatal_out (\<lambda>cs. bnd (with_out hs (EXPECT_CHAR LF cs)) (\<lambda>(_, r). Inr (hs, r))) cs"
        by (intro incr_map incr_with_out incr_EXPECT_CHAR)
      then show ?thesis unfolding Cons by (rule incr_Cons) (simp add: parse_headers_first 1)
    next
      case 2
      then show ?thesis unfolding Cons by (simp add: parse_headers_first incr_at_def is_fatal_out_def answer_defs)
    next
      case 3
      then show ?thesis unfolding Cons by (simp add: parse_headers_first incr_at_def is_fatal_out_def answer_defs)
    next
      case 4
      let ?q = "\<lambda>b. bnd (with_out hs (parse_header (hs = []) b)) (\<lambda>(h, r). parse_headers m (hs @ [h]) r)"
      have "incr_at is_partial_out is_fatal_out ?q xs"
        by (rule incr_bnd [OF incr_with_out [OF incr_parse_header]]) (use 1 [OF Cons] 4 Cons in auto)
      then show ?thesis by (rule incr_same [rotated 2]) (simp_all add: Cons parse_headers_first 4)
    qed
  qed
qed

lemma incr_in_headers: "incr_at is_partial_out is_fatal_out (in_headers m out) xs"
  using incr_parse_headers [of m "[]" xs] unfolding incr_at_def in_headers_def
  by (cases "parse_headers m [] xs") (auto simp: is_partial_out_def is_fatal_out_def split: fault.splits)

lemma incr_first: "(xs \<noteq> [] \<Longrightarrow> incr_at partial fatal p xs) \<Longrightarrow> (\<And>ys. p [] = Inl (Raise x)) \<Longrightarrow> partial x \<Longrightarrow> incr_at partial fatal p xs"
  by (cases xs) (auto intro: incr_partial)

lemma incr_skip_empty_line: "incr_at is_partial is_fatal skip_empty_line xs"
  using incr_EXPECT_CHAR [of LF "tl xs"]
  by (cases xs) (auto simp: incr_at_def skip_empty_line_def answer_defs split: sum.splits)

lemma incr_nonempty:
  assumes "xs \<noteq> []"
  shows "incr_at is_partial is_fatal skip_char xs" "incr_at is_partial is_fatal skip_space xs" "incr_at is_partial is_fatal end_of_line xs"
proof -
  obtain c cs where xs: "xs = c # cs" using assms by (cases xs) auto
  show "incr_at is_partial is_fatal skip_char xs" unfolding xs
    by (rule incr_Cons [OF incr_return]) (simp add: skip_char_def)
  show "incr_at is_partial is_fatal skip_space xs"
    by (cases "c = SP") (auto simp: xs incr_at_def skip_space_def answer_defs)
  consider "c = CR" | "c = LF" | "c \<noteq> CR" "c \<noteq> LF" by blast
  then show "incr_at is_partial is_fatal end_of_line xs"
  proof cases
    case 1
    then show ?thesis unfolding xs by (intro incr_Cons [OF incr_EXPECT_CHAR [of LF]]) (simp add: end_of_line_def)
  qed (auto simp: xs incr_at_def end_of_line_def answer_defs)
qed

lemma ADVANCE_TOKEN_rest: "ADVANCE_TOKEN buf = Inr (t, r) \<Longrightarrow> r \<noteq> []"
  by (induction buf arbitrary: t) (auto simp: bnd_Inr_iff split: if_splits)

lemma parse_digits_rest: "parse_digits v buf = Inr (n, r) \<Longrightarrow> r \<noteq> []"
  by (induction buf arbitrary: v) (auto split: if_splits)

lemma parse_int_rest: "parse_int buf = Inr (n, r) \<Longrightarrow> r \<noteq> []"
  by (auto simp: parse_int_def dest: parse_digits_rest split: list.splits if_splits)

lemma parse_http_version_rest: "parse_http_version buf = Inr (n, r) \<Longrightarrow> r \<noteq> []"
  by (auto simp: parse_http_version_def bnd_Inr_iff dest: parse_int_rest)

lemmas rests = ADVANCE_TOKEN_rest parse_int_rest parse_http_version_rest

lemma incr_parse_request: "incr_at is_partial_out is_fatal_out (parse_request m out) xs"
  unfolding parse_request_def Let_def
  by (intro incr_bnd [OF incr_with_out] incr_in_headers incr_skip_empty_line incr incr_nonempty)
    (auto dest: rests)

lemma incr_parse_response: "incr_at is_partial_out is_fatal_out (parse_response m out) xs"
  unfolding parse_response_def Let_def
  by (intro incr_bnd [OF incr_with_out] incr_in_headers incr_skip_empty_line incr incr_nonempty)
    (auto dest: rests)

interpretation request: incremental_parser is_partial_out is_fatal_out "parse_request m out" for m out
  by (rule incremental_parserI) (rule incr_parse_request)

interpretation response: incremental_parser is_partial_out is_fatal_out "parse_response m out" for m out
  by (rule incremental_parserI) (rule incr_parse_response)

context incremental_parser
begin

lemma not_longer: "p xs = Inr (a, r) \<Longrightarrow> length r \<le> length xs"
  using suffix by fastforce

end

lemma phr_run_incremental:
  assumes i: "incremental_parser is_partial_out is_fatal_out (parse phr_init)"
    and run: "(phr_run parse 0 xs :: ('x, _) result) = Inr (n, out)" "n \<noteq> - 2"
  shows "(phr_run parse 0 (xs @ ys) :: ('x, _) result) = Inr (n, out)"
    "int k < n \<Longrightarrow> \<exists>out'. (phr_run parse 0 (take k xs) :: ('x, _) result) = Inr (- 2, out')"
    "0 \<le> n \<or> n = - 1"
proof -
  note i = incremental_parser.stable [OF i] incremental_parser.stable_error [OF i]
    incremental_parser.prefix_partial [OF i] incremental_parser.codes [OF i] incremental_parser.not_longer [OF i]
  show "0 \<le> n \<or> n = - 1"
    using run i(4) [of xs "(n, out)"] i(5) [of xs]
    by (auto simp: phr_run_def is_partial_out_def is_fatal_out_def answer_defs split: sum.splits fault.splits)
  show "(phr_run parse 0 (xs @ ys) :: ('x, _) result) = Inr (n, out)"
  proof (cases "parse phr_init xs")
    case (Inl e)
    then have e: "e = Raise (n, out)" using run(1) by (auto simp: phr_run_def split: fault.splits)
    then have "\<forall>x. e = Raise x \<longrightarrow> \<not> is_partial_out x" using run(2) by (simp add: is_partial_out_def is_fatal_out_def answer_defs)
    from i(2) [OF Inl this] show ?thesis using e by (simp add: phr_run_def)
  next
    case (Inr a)
    obtain o1 r where a: "a = (o1, r)" by (cases a)
    then show ?thesis using run(1) i(1) [OF Inr [unfolded a]] Inr by (simp add: phr_run_def)
  qed
  assume k: "int k < n"
  then obtain r where r: "parse phr_init xs = Inr (out, r)" "n = int (length xs) - int (length r)"
    using run(1) i(4) [of xs "(n, out)"]
    by (auto simp: phr_run_def is_partial_out_def is_fatal_out_def answer_defs split: sum.splits fault.splits)
  from i(3) [OF r(1), of k] r(2) k i(5) [OF r(1)] obtain x where "parse phr_init (take k xs) = Inl (Raise x)" "is_partial_out x"
    by fastforce
  then show "\<exists>out'. (phr_run parse 0 (take k xs) :: ('x, _) result) = Inr (- 2, out')"
    by (cases x) (auto simp: phr_run_def is_partial_out_def is_fatal_out_def answer_defs)
qed

text \<open>C11. The answer to a request is final unless it is -2: more bytes leave the return code and all out
  parameters as they are, and a request whose head has \<open>n\<close> bytes is answered with -2 on every shorter
  buffer; there is no code but -1, -2 and the length of the head. So a server that calls the parser
  after every read gets the same request for every way the network cuts the bytes.\<close>
theorem phr_parse_request_incremental:
  assumes "(phr_parse_request m 0 xs :: ('x, _) result) = Inr (n, out)" "n \<noteq> - 2"
  shows "(phr_parse_request m 0 (xs @ ys) :: ('x, _) result) = Inr (n, out) \<and> (0 \<le> n \<or> n = - 1) \<and>
    (int k < n \<longrightarrow> (\<exists>out'. (phr_parse_request m 0 (take k xs) :: ('x, _) result) = Inr (- 2, out')))"
  using phr_run_incremental [OF request.incremental_parser_axioms assms [unfolded phr_parse_request_def]]
  unfolding phr_parse_request_def by simp

theorem phr_parse_request_incremental_witness:
  "(phr_parse_request 9 0 (''GET / HTTP/1.1'' @ [LF, LF] @ ''abc'') :: (unit, _) result) =
      Inr (16, \<lparr>http_method = Some ''GET'', http_path = Some ''/'', minor_version = 1, status = 0, msg = None, headers = []\<rparr>) \<and>
   (\<exists>out'. (phr_parse_request 9 0 (take 15 (''GET / HTTP/1.1'' @ [LF, LF])) :: (unit, _) result) = Inr (- 2, out'))"
proof -
  have "(phr_parse_request 9 0 (''GET / HTTP/1.1'' @ [LF, LF]) :: (unit, _) result) =
      Inr (16, \<lparr>http_method = Some ''GET'', http_path = Some ''/'', minor_version = 1, status = 0, msg = None, headers = []\<rparr>)"
    by code_simp
  from phr_parse_request_incremental [OF this, of "''abc''" 15] show ?thesis by simp
qed

definition print_header :: "phr_header \<Rightarrow> string" where
  "print_header h = (case hdr_name h of None \<Rightarrow> [] | Some n \<Rightarrow> n @ '': '') @ hdr_value h @ [CR, LF]"

definition print_request :: "string \<Rightarrow> string \<Rightarrow> nat \<Rightarrow> phr_header list \<Rightarrow> string" where
  "print_request m p v hs = m @ [SP] @ p @ '' HTTP/1.'' @ show_nat v @ [CR, LF] @ concat (map print_header hs) @ [CR, LF]"

definition token_ok :: "string \<Rightarrow> bool" where
  "token_ok t = (\<forall>c \<in> set t. c \<noteq> SP \<and> c \<noteq> CR \<and> c \<noteq> LF)"

definition line_ok :: "string \<Rightarrow> bool" where
  "line_ok t = (\<forall>c \<in> set t. c \<noteq> CR \<and> c \<noteq> LF)"

abbreviation blank_start :: "string \<Rightarrow> bool" where
  "blank_start t \<equiv> t \<noteq> [] \<and> (hd t = SP \<or> hd t = TAB)"

definition header_ok :: "phr_header \<Rightarrow> bool" where
  "header_ok h = (line_ok (hdr_value h) \<and> (case hdr_name h of None \<Rightarrow> blank_start (hdr_value h)
     | Some n \<Rightarrow> \<not> blank_start n \<and> \<not> blank_start (hdr_value h) \<and> (\<forall>c \<in> set n. c \<noteq> CHR '':'' \<and> \<not> below_space c)))"

lemma ADVANCE_TOKEN_print: "token_ok t \<Longrightarrow> ADVANCE_TOKEN (t @ SP # r) = Inr (t, SP # r)"
  by (induction t) (auto simp: token_ok_def)

lemma get_token_print: "line_ok t \<Longrightarrow> get_token_to_eol (t @ CR # LF # r) = Inr (t, r)"
proof -
  assume t: "line_ok t"
  have "scan_eol (t @ CR # LF # r) = Inr (t, CR # LF # r)" using t by (induction t) (auto simp: line_ok_def)
  then show ?thesis by (simp add: get_token_to_eol_def find_eol_eq EXPECT_CHAR_def)
qed

lemma parse_name_print: "\<forall>c \<in> set n. c \<noteq> CHR '':'' \<and> \<not> below_space c \<Longrightarrow> parse_name (n @ CHR '':'' # r) = Inr (n, r)"
  by (induction n) auto

lemma below_space_eol: "below_space CR" "below_space LF" "below_space TAB"
  by (simp_all add: below_space_def)

lemma skip_blanks_none: "r \<noteq> [] \<Longrightarrow> \<not> blank_start r \<Longrightarrow> skip_blanks r = Inr ((), r)"
  by (cases r) auto

lemma parse_header_print:
  assumes "header_ok h" "first \<longrightarrow> hdr_name h \<noteq> None"
  shows "parse_header first (print_header h @ r) = Inr (h, r)"
proof (cases "hdr_name h")
  case None
  then have v: "line_ok (hdr_value h)" "blank_start (hdr_value h)" using assms(1) by (auto simp: header_ok_def)
  have "h = \<lparr>hdr_name = None, hdr_value = hdr_value h\<rparr>" using None by simp
  then show ?thesis using v assms(2) None get_token_print [OF v(1), of r]
    by (auto simp: parse_header_def print_header_def)
next
  case (Some n)
  then have v: "line_ok (hdr_value h)" "\<not> blank_start (hdr_value h)" "\<not> blank_start n"
    "\<forall>c \<in> set n. c \<noteq> CHR '':'' \<and> \<not> below_space c" using assms(1) by (auto simp: header_ok_def)
  have h: "h = \<lparr>hdr_name = Some n, hdr_value = hdr_value h\<rparr>" using Some by simp
  define l where "l = hdr_value h @ CR # LF # r"
  have l: "l \<noteq> []" "\<not> blank_start l" using v(2) by (auto simp: l_def hd_append)
  have b: "\<not> blank_start (n @ CHR '':'' # SP # l)" using v(3) by (auto simp: hd_append)
  have p: "print_header h @ r = n @ CHR '':'' # SP # l" using Some by (simp add: print_header_def l_def)
  have "parse_header first (n @ CHR '':'' # SP # l) = Inr (\<lparr>hdr_name = Some n, hdr_value = hdr_value h\<rparr>, r)"
    using b parse_name_print [OF v(4), of "SP # l"] skip_blanks_none [OF l] get_token_print [OF v(1), of r]
    by (auto simp: parse_header_def l_def)
  then show ?thesis using p h by simp
qed

lemma header_line: 
  assumes "header_ok h" 
  obtains c cs where "print_header h = c # cs" "c \<noteq> CR" "c \<noteq> LF"
proof (cases "hdr_name h")
  case None
  then show ?thesis using assms that by (cases "hdr_value h") (auto simp: header_ok_def print_header_def line_ok_def)
next
  case (Some n)
  then show ?thesis using assms that below_space_eol
    by (cases n) (auto simp: header_ok_def print_header_def)
qed

lemma parse_headers_print:
  assumes "\<forall>h \<in> set hs. header_ok h" "length acc + length hs \<le> m" "acc = [] \<longrightarrow> hs \<noteq> [] \<longrightarrow> hdr_name (hd hs) \<noteq> None"
  shows "parse_headers m acc (concat (map print_header hs) @ CR # LF # r) = Inr (acc @ hs, r)"
  using assms
proof (induction hs arbitrary: acc)
  case Nil
  then show ?case by (simp add: parse_headers_first EXPECT_CHAR_def)
next
  case (Cons h hs)
  obtain c cs where c: "print_header h = c # cs" "c \<noteq> CR" "c \<noteq> LF" using header_line [of h] Cons.prems(1) by auto
  let ?r = "concat (map print_header hs) @ CR # LF # r"
  have "parse_header (acc = []) (print_header h @ ?r) = Inr (h, ?r)"
    by (rule parse_header_print) (use Cons.prems in auto)
  then have "parse_headers m acc (print_header h @ ?r) = parse_headers m (acc @ [h]) ?r"
    using parse_headers_first(4) [OF c(2,3), of m acc "cs @ ?r"] c(1) Cons.prems(2) by simp
  also have "\<dots> = Inr ((acc @ [h]) @ hs, r)" by (rule Cons.IH) (use Cons.prems in auto)
  finally show ?case by simp
qed

lemma parse_digits_print:
  assumes "\<forall>c \<in> set s. is_digit c" "r \<noteq> []" "\<not> is_digit (hd r)" 
    "foldl (\<lambda>n c. n * 10 + digit_val c) v s + 48 < 2 ^ 31"
  shows "parse_digits (int v) (s @ r) = Inr (int (foldl (\<lambda>n c. n * 10 + digit_val c) v s), r)"
  using assms
proof (induction s arbitrary: v)
  case Nil
  then show ?case by (cases r) auto
next
  case (Cons c cs)
  have mono: "m \<le> foldl (\<lambda>n c. n * 10 + digit_val c) m cs" for m
  proof (induction cs arbitrary: m)
    case (Cons d ds)
    from Cons [of "m * 10 + digit_val d"] show ?case by simp
  qed simp
  have d: "is_digit c" using Cons.prems(1) by simp
  then have c: "(of_char c :: nat) = digit_val c + 48" by (simp add: is_digit_def digit_val_def)
  have "v * 10 + digit_val c + 48 < 2 ^ 31" using mono [of "v * 10 + digit_val c"] Cons.prems(4) by simp
  then have "int (v * 10 + digit_val c + 48) < int (2 ^ 31)" by (simp only: of_nat_less_iff)
  then have l: "int v * 10 + int (of_char c) < 2 ^ 31" unfolding c by simp
  have e: "int v * 10 + int (of_char c) - 48 = int (v * 10 + digit_val c)" unfolding c by simp
  have "parse_digits (int v) ((c # cs) @ r) = parse_digits (int (v * 10 + digit_val c)) (cs @ r)"
    unfolding append_Cons parse_digits.simps e using d l by (simp only: if_True)
  then show ?case using Cons.IH [of "v * 10 + digit_val c"] Cons.prems by simp
qed

lemma parse_int_print:
  assumes "n + 48 < 2 ^ 31" "r \<noteq> []" "\<not> is_digit (hd r)"
  shows "parse_int (show_nat n @ r) = Inr (int n, r)"
proof -
  obtain c cs where s: "show_nat n = c # cs" by (cases "show_nat n") (auto simp: show_nat.simps [of n] split: if_splits)
  have "is_digit c" using show_nat_digits [of n] s by simp
  then have "parse_int (show_nat n @ r) = parse_digits (int 0) (show_nat n @ r)"
    by (simp add: parse_int_def s del: parse_digits.simps)
  also have "\<dots> = Inr (int (foldl (\<lambda>n c. n * 10 + digit_val c) 0 (show_nat n)), r)"
    by (rule parse_digits_print [OF show_nat_digits assms(2,3)]) (simp only: foldl_show_nat assms(1))
  finally show ?thesis by (simp add: foldl_show_nat)
qed

text \<open>C12. A printed request head parses back: the method, the path, the minor version and the headers with
  their continuation lines are returned, and the length of the head, whatever follows it.\<close>
theorem phr_parse_request_print:
  assumes "token_ok m" "token_ok p" "v + 48 < 2 ^ 31" "\<forall>h \<in> set hs. header_ok h" "length hs \<le> max_headers"
    "hs \<noteq> [] \<longrightarrow> hdr_name (hd hs) \<noteq> None"
  shows "phr_parse_request max_headers 0 (print_request m p v hs @ body) =
    Inr (int (length (print_request m p v hs)), \<lparr>http_method = Some m, http_path = Some p, minor_version = int v,
      status = 0, msg = None, headers = hs\<rparr>)"
proof -
  let ?h = "concat (map print_header hs) @ CR # LF # body"
  let ?v = "show_nat v @ CR # LF # ?h"
  let ?p = "p @ SP # ''HTTP/1.'' @ ?v"
  have buf: "print_request m p v hs @ body = m @ SP # ?p" by (simp add: print_request_def)
  have m: "skip_empty_line (m @ SP # ?p) = Inr ((), m @ SP # ?p)"
    using assms(1) by (cases m) (auto simp: skip_empty_line_def token_ok_def)
  have v: "parse_http_version (''HTTP/1.'' @ ?v) = Inr (int v, CR # LF # ?h)"
    using parse_int_print [OF assms(3), of "CR # LF # ?h"]
    by (simp add: parse_http_version_def EXPECT_CHAR_def is_digit_def)
  have h: "parse_headers max_headers [] ?h = Inr (hs, body)"
    using parse_headers_print [OF assms(4), of "[]"] assms(5,6) by simp
  show ?thesis unfolding buf
    by (simp add: phr_parse_request_def phr_run_def parse_request_def Let_def m v h in_headers_def
      ADVANCE_TOKEN_print [OF assms(1)] ADVANCE_TOKEN_print [OF assms(2)] skip_char_def end_of_line_def
      EXPECT_CHAR_def phr_init_def del: append.simps append_Cons)
      (simp add: print_request_def)
qed

theorem phr_parse_request_print_witness:
  "(phr_parse_request 9 0 (print_request ''GET'' ''/x'' 1 [\<lparr>hdr_name = Some ''Host'', hdr_value = ''h''\<rparr>,
      \<lparr>hdr_name = None, hdr_value = '' i''\<rparr>] @ ''rest'') :: (unit, _) result) =
    Inr (int (length (print_request ''GET'' ''/x'' 1 [\<lparr>hdr_name = Some ''Host'', hdr_value = ''h''\<rparr>,
      \<lparr>hdr_name = None, hdr_value = '' i''\<rparr>])), \<lparr>http_method = Some ''GET'', http_path = Some ''/x'', minor_version = 1,
      status = 0, msg = None, headers = [\<lparr>hdr_name = Some ''Host'', hdr_value = ''h''\<rparr>,
      \<lparr>hdr_name = None, hdr_value = '' i''\<rparr>]\<rparr>)"
  using phr_parse_request_print [of "''GET''" "''/x''" 1 "[\<lparr>hdr_name = Some ''Host'', hdr_value = ''h''\<rparr>,
      \<lparr>hdr_name = None, hdr_value = '' i''\<rparr>]" 9 "''rest''", where 'a = unit]
  by (simp add: token_ok_def header_ok_def line_ok_def below_space_def)

subsection \<open>The check for a complete head\<close>

text \<open>The end-of-line count after a prefix, and the carriage return that still waits for its line feed.\<close>

fun eol_state :: "nat \<Rightarrow> string \<Rightarrow> nat \<times> string" where
  "eol_state n [] = (n, [])"
| "eol_state n (c # cs) =
     (if c = CR then (case cs of [] \<Rightarrow> (n, [CR]) | d # ds \<Rightarrow> eol_state (n + 1) ds)
      else if c = LF then eol_state (n + 1) cs else eol_state 0 cs)"

text \<open>The scans that run out of bytes, with their inductions.\<close>

lemma count_eols_partial [consumes 1, case_names Nil CR CRLF LF other]:
  assumes "count_eols n xs = partial_head"
    and "\<And>n. P n []" "\<And>n. P n [CR]"
    and "\<And>n ds. n \<noteq> 1 \<Longrightarrow> count_eols (n + 1) ds = partial_head \<Longrightarrow> P (n + 1) ds \<Longrightarrow> P n (CR # LF # ds)"
    and "\<And>n ds. n \<noteq> 1 \<Longrightarrow> count_eols (n + 1) ds = partial_head \<Longrightarrow> P (n + 1) ds \<Longrightarrow> P n (LF # ds)"
    and "\<And>n c ds. c \<noteq> CR \<Longrightarrow> c \<noteq> LF \<Longrightarrow> count_eols 0 ds = partial_head \<Longrightarrow> P 0 ds \<Longrightarrow> P n (c # ds)"
  shows "P n xs"
  using assms(1)
proof (induction n xs rule: count_eols.induct)
  case (2 n c cs)
  consider "c = CR" "cs = []" | d ds where "c = CR" "cs = d # ds" | "c = LF" | "c \<noteq> CR" "c \<noteq> LF"
    by (cases cs) auto
  then show ?case
  proof cases
    case (2 d ds)
    then have d: "d = LF" "n \<noteq> 1" "count_eols (n + 1) ds = partial_head" using "2.prems" by (auto split: if_splits)
    then show ?thesis using "2.IH"(1) [OF 2] 2 assms(4) [OF d(2,3)] by simp
  next
    case 3
    then have d: "n \<noteq> 1" "count_eols (n + 1) cs = partial_head" using "2.prems" by (auto split: if_splits)
    then show ?thesis using "2.IH"(2) 3 assms(5) [OF d] by simp
  next
    case 4
    then have "count_eols 0 cs = partial_head" using "2.prems" by simp
    then show ?thesis using "2.IH"(3) 4 assms(6) [OF 4] by simp
  qed (use assms(3) in simp)
qed (rule assms(2))

lemma count_eols_append:
  "count_eols n xs = partial_head \<Longrightarrow> count_eols n (xs @ ys) = (case eol_state n xs of (k, p) \<Rightarrow> count_eols k (p @ ys))"
  by (induction n xs rule: count_eols_partial) simp_all

lemma eol_state_append:
  "count_eols n xs = partial_head \<Longrightarrow> eol_state n (xs @ ys) = (case eol_state n xs of (k, p) \<Rightarrow> eol_state k (p @ ys))"
  by (induction n xs rule: count_eols_partial) simp_all

lemma eol_state_cases:
  "count_eols n xs = partial_head \<Longrightarrow> n < 2 \<Longrightarrow> \<exists>k p. eol_state n xs = (k, p) \<and> k < 2 \<and> (p = [] \<or> p = [CR])"
  by (induction n xs rule: count_eols_partial) auto

lemma count_eols_prefix: "count_eols n xs \<noteq> partial_head \<Longrightarrow> count_eols n (xs @ ys) \<noteq> partial_head"
proof (induction n xs rule: count_eols.induct)
  case (2 n c cs)
  then show ?case by (cases cs; cases "c = CR"; cases "c = LF") (simp_all split: if_splits)
qed simp

text \<open>The last three bytes decide the state.\<close>

lemma last_three:
  assumes "count_eols k (p @ [a, b, c]) = partial_head" "k < 2" "p = [] \<or> p = [CR]"
  shows "eol_state k (p @ [a, b, c]) = eol_state 0 [a, b, c] \<and> count_eols 0 [a, b, c] = partial_head"
  using assms(3)
proof
  assume p: "p = []"
  show ?thesis using assms(1,2) unfolding p
    by (cases "a = CR"; cases "a = LF"; cases "k = 0") (simp_all split: if_splits)
next
  assume p: "p = [CR]"
  show ?thesis using assms(1,2) unfolding p by (cases "a = LF"; cases "k = 0") (simp_all split: if_splits)
qed

lemma count_from_last_three:
  assumes "count_eols 0 (u @ [a, b, c]) = partial_head"
  shows "count_eols 0 (u @ [a, b, c] @ ys) = count_eols 0 ([a, b, c] @ ys)"
proof -
  have u: "count_eols 0 u = partial_head" using assms count_eols_prefix by blast
  obtain k p where k: "eol_state 0 u = (k, p)" "k < 2" "p = [] \<or> p = [CR]" using eol_state_cases [OF u] by auto
  have c: "count_eols k (p @ [a, b, c]) = partial_head" using count_eols_append [OF u, of "[a, b, c]"] assms k(1) by simp
  have l: "eol_state k (p @ [a, b, c]) = eol_state 0 [a, b, c]" and d: "count_eols 0 [a, b, c] = partial_head"
    using last_three [OF c k(2,3)] by simp_all
  have "count_eols 0 (u @ [a, b, c] @ ys) = (case eol_state 0 [a, b, c] of (k, p) \<Rightarrow> count_eols k (p @ ys))"
    using count_eols_append [OF u] count_eols_append [OF c, of ys] k(1) l by simp
  then show ?thesis using count_eols_append [OF d, of ys] by simp
qed

text \<open>C15. The scan for the end of a head may resume three bytes before the end of the previous buffer:
  when the first \<open>last_len\<close> bytes held no complete head, looking from there gives the same answer as
  looking through the whole buffer, so each byte is scanned about once however slowly it arrives.\<close>
theorem is_complete_resumes:
  assumes "is_complete 0 (take last_len buf) = Inl (Raise (- 2))" "last_len \<le> length buf"
  shows "is_complete last_len buf = is_complete 0 buf"
proof (cases "last_len < 3")
  case False
  define u where "u = take (last_len - 3) buf"
  obtain a b c where t: "take last_len buf = u @ [a, b, c]"
  proof -
    define d where "d = take 3 (drop (last_len - 3) buf)"
    have "take last_len buf = u @ d"
      using False take_add [of "last_len - 3" 3 buf] by (simp add: u_def d_def)
    moreover have "length d = Suc (Suc (Suc 0))" using False assms(2) by (simp add: d_def)
    ultimately show ?thesis using that by (auto simp: length_Suc_conv)
  qed
  have b: "buf = u @ [a, b, c] @ drop last_len buf" using t by (metis append_assoc append_take_drop_id)
  have l: "length u = last_len - 3" using assms(2) by (simp add: u_def)
  then have "drop (last_len - 3) buf = [a, b, c] @ drop last_len buf" using b by (metis append_eq_conv_conj)
  moreover have "count_eols 0 (u @ [a, b, c]) = partial_head" using assms(1) t by (simp add: is_complete_def)
  ultimately show ?thesis using False assms(2) count_from_last_three [of u a b c "drop last_len buf"] b
    by (simp add: is_complete_def)
qed (simp add: is_complete_def)

theorem is_complete_resumes_witness:
  "is_complete 4 (''a'' @ [CR, LF, CR, LF]) = is_complete 0 (''a'' @ [CR, LF, CR, LF])"
  using is_complete_resumes [of 4 "''a'' @ [CR, LF, CR, LF]"] by (simp add: is_complete_def)

end
