(* ===== verification/Tora_Uri.thy ===== *)
theory Tora_Uri
  imports Tora_Text
begin

text \<open>
  The escaping and parsing of URIs (\<open>ext/URI-Escape/nanouri.h\<close>).
\<close>

subsection \<open>Escaping\<close>

definition nu_uric_map :: "nat list" where
  "nu_uric_map = [
    1, 1, 1, 1, 1, 1, 1, 1, 1, 1, 1, 1, 1, 1, 1, 1,
    1, 1, 1, 1, 1, 1, 1, 1, 1, 1, 1, 1, 1, 1, 1, 1,
    1, 0, 1, 1, 1, 1, 1, 0, 0, 0, 0, 1, 1, 0, 0, 1,
    0, 0, 0, 0, 0, 0, 0, 0, 0, 0, 1, 1, 1, 1, 1, 1,
    1, 0, 0, 0, 0, 0, 0, 0, 0, 0, 0, 0, 0, 0, 0, 0,
    0, 0, 0, 0, 0, 0, 0, 0, 0, 0, 0, 1, 1, 1, 1, 0,
    1, 0, 0, 0, 0, 0, 0, 0, 0, 0, 0, 0, 0, 0, 0, 0,
    0, 0, 0, 0, 0, 0, 0, 0, 0, 0, 0, 1, 1, 1, 0, 1,
    1, 1, 1, 1, 1, 1, 1, 1, 1, 1, 1, 1, 1, 1, 1, 1,
    1, 1, 1, 1, 1, 1, 1, 1, 1, 1, 1, 1, 1, 1, 1, 1,
    1, 1, 1, 1, 1, 1, 1, 1, 1, 1, 1, 1, 1, 1, 1, 1,
    1, 1, 1, 1, 1, 1, 1, 1, 1, 1, 1, 1, 1, 1, 1, 1,
    1, 1, 1, 1, 1, 1, 1, 1, 1, 1, 1, 1, 1, 1, 1, 1,
    1, 1, 1, 1, 1, 1, 1, 1, 1, 1, 1, 1, 1, 1, 1, 1,
    1, 1, 1, 1, 1, 1, 1, 1, 1, 1, 1, 1, 1, 1, 1, 1,
    1, 1, 1, 1, 1, 1, 1, 1, 1, 1, 1, 1, 1, 1, 1, 1]"

definition nu_isuric :: "char \<Rightarrow> bool" where
  "nu_isuric c = (nu_uric_map ! of_char c \<noteq> 0)"

text \<open>The assertion \<open>n < 16\<close> holds at every call.\<close>

definition nu_hex_char :: "nat \<Rightarrow> char" where
  "nu_hex_char n = char_of (if n < 10 then 48 + n else 97 + n - 10)"

text \<open>\<open>(src[i]>>4)&0x0f\<close> and \<open>src[i]&0x0f\<close> are the two halves of the byte.\<close>

fun nu_escape_uri :: "string \<Rightarrow> string" where
  "nu_escape_uri [] = []"
| "nu_escape_uri (c # cs) = (if nu_isuric c
     then CHR ''%'' # nu_hex_char (of_char c div 16) # nu_hex_char (of_char c mod 16) # nu_escape_uri cs
     else c # nu_escape_uri cs)"

definition nu_unhex :: "char \<Rightarrow> int" where
  "nu_unhex c = (let n = of_char c :: int in
     if 48 \<le> n \<and> n \<le> 57 then n - 48
     else if 65 \<le> n \<and> n \<le> 70 then n - 65 + 10
     else n - 97 + 10)"

text \<open>
  The two bytes after \<open>%\<close> are read without a look at the length. The byte at the end of a
  \<open>std::string\<close> is zero, the one behind it must not be read. The arithmetic is in \<open>unsigned char\<close>.
\<close>

definition escaped_char :: "char \<Rightarrow> char \<Rightarrow> char" where
  "escaped_char a b = char_of (nat (((if a \<noteq> CHR 0x00 then nu_unhex a * 16 else 0) +
     (if b \<noteq> CHR 0x00 then nu_unhex b else 0)) mod 256))"

fun nu_unescape_uri :: "string \<Rightarrow> ('x, string) result" where
  "nu_unescape_uri [] = Inr []"
| "nu_unescape_uri (c # cs) = (if c = CHR ''%'' then (case cs of
       [] \<Rightarrow> Inl Undefined
     | [a] \<Rightarrow> Inr [escaped_char a (CHR 0x00)]
     | a # b # ds \<Rightarrow> bnd (nu_unescape_uri ds) (\<lambda>s. Inr (escaped_char a b # s)))
     else bnd (nu_unescape_uri cs) (\<lambda>s. Inr (c # s)))"

lemma unhex_hex_char: "n < 16 \<Longrightarrow> nu_unhex (nu_hex_char n) = int n \<and> nu_hex_char n \<noteq> CHR 0x00"
proof -
  assume n: "n < 16"
  let ?m = "if n < 10 then 48 + n else 97 + n - 10"
  have m: "?m < 256" using n by simp
  then have o: "(of_char (nu_hex_char n) :: nat) = ?m" by (simp add: nu_hex_char_def)
  then have "(of_char (nu_hex_char n) :: int) = int ?m"
    by (metis of_nat_of_char)
  moreover have "nu_hex_char n \<noteq> CHR 0x00" using o n by (auto split: if_splits)
  ultimately show ?thesis using n by (simp add: nu_unhex_def)
qed

text \<open>Unescaping an escaped string gives the string back, for every string of bytes.\<close>
theorem uri_escape_round_trip: "nu_unescape_uri (nu_escape_uri s) = Inr s"
proof (induction s)
  case (Cons c cs)
  have p: "nu_isuric (CHR ''%'')" by (simp add: nu_isuric_def nu_uric_map_def)
  let ?n = "of_char c :: nat"
  have n: "?n div 16 < 16" "?n mod 16 < 16" by (simp_all add: less_mult_imp_div_less)
  note h = unhex_hex_char [OF n(1)] unhex_hex_char [OF n(2)]
  have "int (?n div 16) * 16 + int (?n mod 16) = int ?n" "?n < 256" by presburger simp
  then have "nat ((int (?n div 16) * 16 + int (?n mod 16)) mod 256) = ?n" by simp
  then have "escaped_char (nu_hex_char (?n div 16)) (nu_hex_char (?n mod 16)) = c"
    using h by (simp add: escaped_char_def)
  then show ?case using Cons p by auto
qed simp


subsection \<open>Parsing (nu_parse_uri)\<close>

text \<open>
  The outputs of the function; \<open>path_query\<close> stays unset, \<open>None\<close>, where the function returns before
  the path. The result is the return code, 0 for success, -1 for an unexpected character, -2 for
  the end of the input. The character at \<open>buf_end\<close> is read by the loop over the port: it is the
  zero byte of the string that \<open>Uri::parse\<close> passes.
\<close>

record uri_parts =
  scheme :: string
  host :: string
  port :: int
  path_query :: "string option"

definition no_parts :: uri_parts where
  "no_parts = \<lparr>scheme = [], host = [], port = 0, path_query = None\<rparr>"

definition EXPECT :: "char \<Rightarrow> string \<Rightarrow> int + string" where
  "EXPECT ch buf = (case buf of [] \<Rightarrow> Inl (- 2) | c # cs \<Rightarrow> if c \<noteq> ch then Inl (- 1) else Inr cs)"

text \<open>The value of the port is an \<open>int\<close>; its overflow is undefined.\<close>

fun parse_port :: "int \<Rightarrow> string \<Rightarrow> ('x, int \<times> string) result" where
  "parse_port v [] = Inr (v, [])"
| "parse_port v (c # cs) = (if is_digit c then
     (let v' = v * 10 + int (digit_val c) in if v' < 2 ^ 31 then parse_port v' cs else Inl Undefined)
     else Inr (v, c # cs))"

fun parse_host :: "string \<Rightarrow> string \<Rightarrow> uri_parts \<Rightarrow> ('x, int \<times> uri_parts) result" where
  "parse_host h [] u = Inr (0, u\<lparr>host := h\<rparr>)"
| "parse_host h (c # cs) u =
     (if c = CHR '':'' then bnd (parse_port 0 cs) (\<lambda>(p, rest).
        let u' = u\<lparr>host := h, port := p\<rparr>
        in Inr (0, if rest = [] then u' else u'\<lparr>path_query := Some rest\<rparr>))
      else if c = CHR ''/'' then Inr (0, u\<lparr>host := h, path_query := Some (c # cs)\<rparr>)
      else parse_host (h @ [c]) cs u)"

fun parse_scheme :: "string \<Rightarrow> string \<Rightarrow> int + string \<times> string" where
  "parse_scheme sc [] = Inl (- 2)"
| "parse_scheme sc (c # cs) = (if c = CHR '':'' then Inr (sc, c # cs) else parse_scheme (sc @ [c]) cs)"

definition nu_parse_uri :: "string \<Rightarrow> ('x, int \<times> uri_parts) result" where
  "nu_parse_uri buf = (case parse_scheme [] buf of
       Inl e \<Rightarrow> Inr (e, no_parts)
     | Inr (sc, rest) \<Rightarrow> (let u = no_parts\<lparr>scheme := sc\<rparr> in
         case EXPECT (CHR '':'') rest of Inl e \<Rightarrow> Inr (e, u) | Inr b1 \<Rightarrow>
         (case EXPECT (CHR ''/'') b1 of Inl e \<Rightarrow> Inr (e, u) | Inr b2 \<Rightarrow>
         (case EXPECT (CHR ''/'') b2 of Inl e \<Rightarrow> Inr (e, u) | Inr b3 \<Rightarrow> parse_host [] b3 u))))"

text \<open>The port is printed after the host when it is given.\<close>

definition print_uri :: "string \<Rightarrow> string \<Rightarrow> nat option \<Rightarrow> string \<Rightarrow> string" where
  "print_uri sc h p path = sc @ ''://'' @ h @ (case p of None \<Rightarrow> [] | Some n \<Rightarrow> CHR '':'' # show_nat n) @ path"

lemma parse_scheme_append: "CHR '':'' \<notin> set s \<Longrightarrow> parse_scheme sc (s @ CHR '':'' # r) = Inr (sc @ s, CHR '':'' # r)"
  by (induction s arbitrary: sc) auto

lemma parse_host_append: "CHR '':'' \<notin> set s \<Longrightarrow> CHR ''/'' \<notin> set s \<Longrightarrow>
    parse_host h (s @ r) u = (case r of [] \<Rightarrow> Inr (0, u\<lparr>host := h @ s\<rparr>) | _ \<Rightarrow> parse_host (h @ s) r u)"
  by (induction s arbitrary: h) (auto split: list.split)

lemma parse_port_digits:
  assumes "\<forall>c \<in> set s. is_digit c" "r = [] \<or> \<not> is_digit (hd r)" "0 \<le> v"
    "foldl (\<lambda>n c. n * 10 + digit_val c) (nat v) s < 2 ^ 31"
  shows "parse_port v (s @ r) = Inr (int (foldl (\<lambda>n c. n * 10 + digit_val c) (nat v) s), r)"
  using assms
proof (induction s arbitrary: v)
  case Nil
  then show ?case by (cases r) auto
next
  case (Cons c cs)
  have mono: "m \<le> foldl (\<lambda>n c. n * 10 + digit_val c) m cs" for m
  proof (induction cs arbitrary: m)
    case (Cons d ds)
    from Cons [of "m * 10 + digit_val d"] show ?case by simp
  qed simp
  have e: "nat (v * 10 + int (digit_val c)) = nat v * 10 + digit_val c" using Cons.prems(3) by (simp add: nat_add_distrib nat_mult_distrib)
  have "nat v * 10 + digit_val c < 2 ^ 31" using mono [of "nat v * 10 + digit_val c"] Cons.prems(4) by simp
  then have "v * 10 + int (digit_val c) < 2 ^ 31" using Cons.prems(3) by (simp flip: e add: nat_less_iff)
  then show ?case using Cons.IH [of "v * 10 + int (digit_val c)"] Cons.prems e by simp
qed

text \<open>C34. A URI printed from its parts parses back into them: the scheme and the host without a
  colon, the host without a slash, a port below 2 to the 31, and a path that is empty or begins
  with a slash; without a path \<open>path_query\<close> stays unset.\<close>
theorem uri_parse_print:
  assumes "CHR '':'' \<notin> set sc" "CHR '':'' \<notin> set h" "CHR ''/'' \<notin> set h" "\<forall>n. p = Some n \<longrightarrow> n < 2 ^ 31"
    "path = [] \<or> hd path = CHR ''/''"
  shows "(nu_parse_uri (print_uri sc h p path) :: ('x, _) result) = Inr (0, \<lparr>scheme = sc, host = h,
    port = (case p of None \<Rightarrow> 0 | Some n \<Rightarrow> int n), path_query = (if path = [] then None else Some path)\<rparr>)"
proof -
  have slash: "\<not> is_digit (CHR ''/'')" by (simp add: is_digit_def)
  have p: "(parse_port 0 (show_nat n @ path) :: ('x, _) result) = Inr (int n, path)" if "n < 2 ^ 31" for n
    using parse_port_digits [OF show_nat_digits, of path 0] that assms(5) slash by (auto simp: foldl_show_nat)
  have e: "print_uri sc h p path = sc @ CHR '':'' # ''//'' @ h @
      (case p of None \<Rightarrow> [] | Some n \<Rightarrow> CHR '':'' # show_nat n) @ path" by (simp add: print_uri_def)
  show ?thesis unfolding nu_parse_uri_def e parse_scheme_append [OF assms(1)]
    using assms(4,5) p
    by (cases path) (auto simp: EXPECT_def no_parts_def parse_host_append [OF assms(2,3)] split: option.split)
qed

theorem uri_parse_print_witness:
  "nu_parse_uri ''http://h:80/x'' = Inr (0, \<lparr>scheme = ''http'', host = ''h'', port = 80, path_query = Some ''/x''\<rparr>)"
proof -
  have "show_nat 80 = ''80''" by code_simp
  with uri_parse_print [of "''http''" "''h''" "Some 80" "''/x''"] show ?thesis by (simp add: print_uri_def)
qed

end
