(* ===== verification/Tora_Http_Env.thy ===== *)
theory Tora_Http_Env
  imports Tora_Http Tora_Uri
begin

text \<open>
  The bindings of the HTTP head parser (\<open>ext/HTTP/http.cc\<close>), after the checks of the argument types:
  the environment of a request in the form of CGI, and the header list of a response. The hash is the
  ordered map of its strings; the values are made for it, so changing a value in place changes its
  entry only.
\<close>

subsection \<open>Helpers\<close>

definition tou :: "char \<Rightarrow> char" where
  "tou ch = (let n = of_char ch :: nat in if 97 \<le> n \<and> n \<le> 122 then char_of (n - 32) else ch)"

definition tol :: "char \<Rightarrow> char" where
  "tol ch = (let n = of_char ch :: nat in if 65 \<le> n \<and> n \<le> 90 then char_of (n + 32) else ch)"

definition normalize_response_header_name :: "string \<Rightarrow> string" where
  "normalize_response_header_name src = map tol src"

definition header_is :: "string \<Rightarrow> string \<Rightarrow> bool" where
  "header_is n s = (length n = length s \<and> map tou n = s)"

fun find_ch :: "string \<Rightarrow> char \<Rightarrow> nat" where
  "find_ch [] ch = 0"
| "find_ch (c # cs) ch = (if c = ch then 0 else Suc (find_ch cs ch))"

definition hex_decode :: "char \<Rightarrow> int" where
  "hex_decode ch = (let n = of_char ch :: int in
     if 48 \<le> n \<and> n \<le> 57 then n - 48
     else if 65 \<le> n \<and> n \<le> 70 then n - 65 + 10
     else if 97 \<le> n \<and> n \<le> 102 then n - 97 + 10
     else - 1)"

text \<open>
  The first argument counts the bytes up to \<open>len\<close>, the list goes on to the end of the buffer: the two
  bytes after \<open>%\<close> are read wherever \<open>len\<close> is. \<open>None\<close> is the null pointer.
\<close>

fun decode_loop :: "nat \<Rightarrow> string \<Rightarrow> ('x, string option) result" where
  "decode_loop 0 s = Inr (Some [])"
| "decode_loop (Suc n) [] = Inl Undefined"
| "decode_loop (Suc n) (c # cs) = (if c = CHR ''%'' then (case cs of
         [] \<Rightarrow> Inl Undefined
       | h # hs \<Rightarrow> if hex_decode h = - 1 then Inr None else (case hs of
             [] \<Rightarrow> Inl Undefined
           | l # ls \<Rightarrow> if hex_decode l = - 1 then Inr None
               else bnd (decode_loop (n - 2) ls) (\<lambda>d. Inr (map_option ((#) (char_of (nat (hex_decode h * 16 + hex_decode l)))) d))))
     else bnd (decode_loop n cs) (\<lambda>d. Inr (map_option ((#) c) d)))"

text \<open>
  The result is the string and whether it is a new buffer. The buffer has \<open>len - 1\<close> bytes, for the
  decoded bytes and a zero byte.
\<close>

definition url_decode :: "string \<Rightarrow> nat \<Rightarrow> ('x, (bool \<times> string) option) result" where
  "url_decode s len = (if CHR ''%'' \<notin> set (take len s) then Inr (Some (False, take len s))
     else bnd (decode_loop len s) (\<lambda>d. case d of None \<Rightarrow> Inr None
       | Some t \<Rightarrow> if length t + 1 \<le> len - 1 then Inr (Some (True, t)) else Inl Undefined))"

type_synonym http_env = "(string \<times> string) list"

text \<open>\<open>std::string(decoded)\<close> ends at the first zero byte.\<close>

definition store_url_decoded :: "http_env \<Rightarrow> string \<Rightarrow> string \<Rightarrow> nat \<Rightarrow> ('x, http_env option) result" where
  "store_url_decoded env key value len = bnd (url_decode value len) (\<lambda>d. case d of
       None \<Rightarrow> Inr None
     | Some (fresh, t) \<Rightarrow> Inr (Some (map_set key (if fresh then c_str t else t) env)))"

subsection \<open>Requests\<close>

definition MAX_HEADERS :: nat where "MAX_HEADERS = 128"

definition MAX_HEADER_NAME_LEN :: nat where "MAX_HEADER_NAME_LEN = 1024"

text \<open>The key of a header; \<open>None\<close> when it does not fit into \<open>tmp\<close>.\<close>

definition cgi_name :: "string \<Rightarrow> string option" where
  "cgi_name n = (if header_is n ''CONTENT-TYPE'' then Some ''CONTENT_TYPE''
     else if header_is n ''CONTENT-LENGTH'' then Some ''CONTENT_LENGTH''
     else if MAX_HEADER_NAME_LEN < length n then None
     else Some (''HTTP_'' @ map (\<lambda>c. if c = CHR ''-'' then CHR ''_'' else tou c) n))"

text \<open>The loop over the headers, with the key of \<open>last_value\<close>.\<close>

fun store_headers :: "http_env \<Rightarrow> string option \<Rightarrow> phr_header list \<Rightarrow> ('x, http_env option) result" where
  "store_headers env last_key [] = Inr (Some env)"
| "store_headers env last_key (h # hs) = (case hdr_name h of
       Some n \<Rightarrow> (case cgi_name n of
           None \<Rightarrow> Inr None
         | Some key \<Rightarrow> store_headers (case map_of env key of
               Some v \<Rightarrow> map_set key (v @ '', '' @ hdr_value h) env
             | None \<Rightarrow> map_set key (hdr_value h) env) (Some key) hs)
     | None \<Rightarrow> (case last_key of
           None \<Rightarrow> Inl Undefined
         | Some key \<Rightarrow> (case map_of env key of
               None \<Rightarrow> Inl Undefined
             | Some v \<Rightarrow> store_headers (map_set key (v @ hdr_value h) env) last_key hs)))"

text \<open>After the path the parser has read \<open>' HTTP/1.'\<close>; these are the bytes behind it in the buffer.\<close>

definition after_path :: string where
  "after_path = '' HTTP/1.''"

definition cgi_env :: "phr_out \<Rightarrow> ('x, http_env option) result" where
  "cgi_env out =
     (let path = the (http_path out);
          env = map_set ''SCRIPT_NAME'' [] (map_set ''REQUEST_URI'' path
                  (map_set ''REQUEST_METHOD'' (the (http_method out)) []));
          path_len = find_ch path (CHR ''#'');
          question_at = find_ch (take path_len path) (CHR ''?'')
      in bnd (store_url_decoded env ''PATH_INFO'' (path @ after_path) question_at) (\<lambda>r. case r of
            None \<Rightarrow> Inr None
          | Some env \<Rightarrow>
              (let q = (if question_at \<noteq> path_len then question_at + 1 else question_at)
               in store_headers (map_set ''SERVER_PROTOCOL'' (''HTTP/1.'' @ show_int (minor_version out))
                    (map_set ''QUERY_STRING'' (take (path_len - q) (drop q path)) env)) None (headers out))))"

definition HTTP_Parser_parse_http_request :: "string \<Rightarrow> ('x, int \<times> http_env) result" where
  "HTTP_Parser_parse_http_request buf = bnd (phr_parse_request MAX_HEADERS 0 buf) (\<lambda>(ret, out).
     if ret < 0 then Inr (ret, [])
     else bnd (cgi_env out) (\<lambda>e. case e of None \<Rightarrow> Inr (- 1, []) | Some env \<Rightarrow> Inr (ret, env)))"

subsection \<open>Responses\<close>

text \<open>The array of names and values; \<open>last_element_value_sv\<close> is its last element.\<close>

fun response_headers :: "string list \<Rightarrow> phr_header list \<Rightarrow> string list" where
  "response_headers acc [] = acc"
| "response_headers acc (h # hs) = response_headers (case hdr_name h of
       Some n \<Rightarrow> if MAX_HEADER_NAME_LEN < length n then acc
         else acc @ [normalize_response_header_name n, hdr_value h]
     | None \<Rightarrow> if acc = [] then acc else butlast acc @ [last acc @ [LF] @ hdr_value h]) hs"

text \<open>The tuple in its order: headers, message, status, minor version, return code.\<close>

definition HTTP_Parser_parse_http_response ::
    "string \<Rightarrow> int \<Rightarrow> (string, string list \<times> string \<times> int \<times> int \<times> int) result" where
  "HTTP_Parser_parse_http_response buf opt = bnd (phr_parse_response MAX_HEADERS 0 buf) (\<lambda>(ret, out).
     if opt \<noteq> 2 then Inl (Raise (''Currently supported only HEADERS_AS_ARRAYREF: '' @ show_int opt))
     else Inr (response_headers [] (headers out), case msg out of None \<Rightarrow> [] | Some m \<Rightarrow> m,
       status out, minor_version out, ret))"

subsection \<open>Memory safety\<close>

lemma find_ch_split: "s = take (find_ch s ch) s \<and> find_ch s ch = length s \<and> ch \<notin> set s \<or>
    (\<exists>r. s = take (find_ch s ch) s @ ch # r \<and> ch \<notin> set (take (find_ch s ch) s) \<and> find_ch s ch < length s)"
  by (induction s) auto

lemma find_ch_le: "find_ch s ch \<le> length s"
  using find_ch_split [of s ch] by linarith

lemma find_ch_here: "ch \<notin> set u \<Longrightarrow> find_ch (u @ ch # r) ch = length u"
  by (induction u) auto

lemma find_ch_none: "ch \<notin> set u \<Longrightarrow> find_ch u ch = length u"
  by (induction u) auto

lemma decode_loop_stops:
  assumes "hex_decode c = - 1"
  shows "\<exists>d. (decode_loop (length v) (v @ c # r) :: ('x, _) result) = Inr d \<and>
    (\<forall>t. d = Some t \<longrightarrow> length t + (if CHR ''%'' \<in> set v then 2 else 0) \<le> length v)"
proof (induction "length v" arbitrary: v rule: less_induct)
  case less
  show ?case
  proof (cases v)
    case Nil
    then show ?thesis by simp
  next
    case (Cons x xs)
    show ?thesis
    proof (cases "x = CHR ''%''")
      case False
      then show ?thesis using less [of xs] Cons by (auto split: if_splits)
    next
      case True
      show ?thesis
      proof (cases xs)
        case Nil
        then show ?thesis using Cons True assms by simp
      next
        case h: (Cons h hs)
        show ?thesis
        proof (cases hs)
          case Nil
          then show ?thesis using Cons True h assms by auto
        next
          case l: (Cons l ls)
          from less [of ls] Cons h l obtain d where
            "(decode_loop (length ls) (ls @ c # r) :: ('x, _) result) = Inr d" "\<forall>t. d = Some t \<longrightarrow> length t \<le> length ls"
            by (fastforce split: if_splits)
          then show ?thesis using Cons True h l by auto
        qed
      qed
    qed
  qed
qed

lemma url_decode_stops:
  assumes "hex_decode c = - 1"
  shows "\<exists>d. (url_decode (v @ c # r) (length v) :: ('x, _) result) = Inr d"
proof (cases "CHR ''%'' \<in> set v")
  case True
  from decode_loop_stops [OF assms, of v r] True obtain d where
    "(decode_loop (length v) (v @ c # r) :: ('x, _) result) = Inr d" "\<forall>t. d = Some t \<longrightarrow> length t + 2 \<le> length v" by auto
  then show ?thesis using True by (cases d) (auto simp: url_decode_def)
qed (simp add: url_decode_def)

lemma store_headers_defined:
  assumes "last_key = None \<longrightarrow> hs = [] \<or> hdr_name (hd hs) \<noteq> None"
    "\<forall>k. last_key = Some k \<longrightarrow> map_of env k \<noteq> None"
  shows "\<exists>r. store_headers env last_key hs = Inr r"
  using assms
proof (induction hs arbitrary: env last_key)
  case (Cons h hs)
  then show ?case
    by (cases "hdr_name h"; cases last_key) (auto split: option.split)
qed simp

lemma parse_headers_named:
  "parse_headers m hs buf = Inr (hs', r) \<Longrightarrow> hs = [] \<or> hdr_name (hd hs) \<noteq> None \<Longrightarrow>
    hs' = [] \<or> hdr_name (hd hs') \<noteq> None"
proof (induction m hs buf rule: parse_headers.induct)
  case (1 m hs buf)
  show ?case
  proof (cases buf)
    case (Cons c cs)
    consider "c = CR" | "c = LF" | "c \<noteq> CR" "c \<noteq> LF" by blast
    then show ?thesis
    proof cases
      case 3
      then obtain h r' where h: "length hs \<noteq> m" "parse_header (hs = []) (c # cs) = Inr (h, r')"
        "parse_headers m (hs @ [h]) r' = Inr (hs', r)"
        using 1(2) Cons by (auto simp: parse_headers_first bnd_Inr_iff split: if_splits)
      have "hs = [] \<Longrightarrow> hdr_name h \<noteq> None" using h(2) by (auto simp: parse_header_def bnd_Inr_iff)
      then have "hs @ [h] = [] \<or> hdr_name (hd (hs @ [h])) \<noteq> None" using 1(3) by (cases hs) auto
      then show ?thesis using 1(1) [OF Cons _ _ h(1)] 3 h Cons by auto
    qed (use 1(2,3) Cons in \<open>auto simp: parse_headers_first bnd_Inr_iff\<close>)
  qed (use 1(2) in \<open>simp add: parse_headers_first\<close>)
qed

lemma phr_request_shape:
  assumes "phr_parse_request m 0 buf = Inr (ret, out)" "0 \<le> ret"
  shows "headers out = [] \<or> hdr_name (hd (headers out)) \<noteq> None"
proof -
  obtain r where "parse_request m phr_init buf = Inr (out, r)"
    using assms incr_atD(4) [OF incr_parse_request, of m phr_init buf]
    by (auto simp: phr_parse_request_def phr_run_def is_partial_out_def is_fatal_out_def answer_defs split: sum.splits fault.splits)
  then obtain o1 b7 where "in_headers m o1 b7 = Inr (out, r)" by (auto simp: parse_request_def bnd_Inr_iff Let_def)
  then show ?thesis by (auto simp: in_headers_def split: sum.splits fault.splits dest: parse_headers_named)
qed

lemma path_stops: "\<exists>v c r. path @ after_path = v @ c # r \<and> length v = find_ch (take (find_ch path (CHR ''#'')) path) (CHR ''?'') \<and>
   hex_decode c = - 1"
proof -
  define n where "n = find_ch path (CHR ''#'')"
  define q where "q = find_ch (take n path) (CHR ''?'')"
  have x: "hex_decode (CHR ''#'') = - 1" "hex_decode (CHR ''?'') = - 1" "hex_decode SP = - 1"
    by (simp_all add: hex_decode_def)
  have n: "n \<le> length path" unfolding n_def by (rule find_ch_le)
  from find_ch_split [of "take n path" "CHR ''?''", folded q_def]
  consider r where "take n path = take q (take n path) @ CHR ''?'' # r" "q < n" | "q = n" using n by auto
  then have "\<exists>v c r. path @ after_path = v @ c # r \<and> length v = q \<and> hex_decode c = - 1"
  proof cases
    case (1 r)
    have "path @ after_path = take q (take n path) @ CHR ''?'' # (r @ drop n path @ after_path)"
      using 1(1) by (metis append.assoc append_Cons append_take_drop_id)
    moreover have "length (take q (take n path)) = q" using 1(2) n by simp
    ultimately show ?thesis using x(2) by blast
  next
    case 2
    from find_ch_split [of path "CHR ''#''", folded n_def]
    consider "n = length path" | r where "path = take n path @ CHR ''#'' # r" by auto
    then show ?thesis
    proof cases
      case 1
      have "path @ after_path = path @ SP # ''HTTP/1.''" by (simp add: after_path_def)
      then show ?thesis using 1 2 x(3) by metis
    next
      case (2 r)
      have "path @ after_path = take n path @ CHR ''#'' # (r @ after_path)" using 2 by (metis append.assoc append_Cons)
      moreover have "length (take n path) = q" using n \<open>q = n\<close> by simp
      ultimately show ?thesis using x(1) by blast
    qed
  qed
  then show ?thesis unfolding q_def n_def .
qed

text \<open>C14. For every buffer that the head parser answers, the binding makes an environment or reports an
  error, without reading past the buffer, without writing past the buffer it allocates for the decoded
  path, and without a continuation line that has no header before it.\<close>
theorem http_request_memory_safe:
  assumes "(phr_parse_request MAX_HEADERS 0 buf :: ('x, _) result) = Inr (ret, out)"
  shows "\<exists>code env. (HTTP_Parser_parse_http_request buf :: ('x, _) result) = Inr (code, env) \<and>
    (code = ret \<or> code = - 1)"
proof (cases "ret < 0")
  case False
  then have h: "headers out = [] \<or> hdr_name (hd (headers out)) \<noteq> None" using phr_request_shape [OF assms] by simp
  let ?q = "find_ch (take (find_ch (the (http_path out)) (CHR ''#'')) (the (http_path out))) (CHR ''?'')"
  obtain d where d: "(url_decode (the (http_path out) @ after_path) ?q :: ('x, _) result) = Inr d"
    using path_stops [of "the (http_path out)"] url_decode_stops by metis
  have "\<exists>e. (cgi_env out :: ('x, _) result) = Inr e" using d store_headers_defined [of None, OF _] h
    by (auto simp: cgi_env_def Let_def store_url_decoded_def split: option.split)
  then show ?thesis using assms False by (auto simp: HTTP_Parser_parse_http_request_def split: option.split)
qed (use assms in \<open>simp add: HTTP_Parser_parse_http_request_def\<close>)

subsection \<open>Escaped paths\<close>

lemma hex_chars: "n < 16 \<Longrightarrow> \<not> nu_isuric (nu_hex_char n) \<and> hex_decode (nu_hex_char n) = int n"
proof -
  assume n: "n < 16"
  have "list_all (\<lambda>n. \<not> nu_isuric (nu_hex_char n)) [0..<16]"
    by (simp add: upt_rec nu_isuric_def nu_uric_map_def nu_hex_char_def)
  moreover have "list_all (\<lambda>n. hex_decode (nu_hex_char n) = int n) [0..<16]" by code_simp
  ultimately show ?thesis using n by (simp add: list_all_iff)
qed

lemma uric_marks: "nu_isuric (CHR ''%'')" "nu_isuric (CHR ''?'')" "nu_isuric (CHR ''#'')" "nu_isuric SP"
  "nu_isuric CR" "nu_isuric LF" "nu_isuric (CHR 0x00)"
  by (simp_all add: nu_isuric_def nu_uric_map_def)

lemma escape_chars: "c \<in> set (nu_escape_uri s) \<Longrightarrow> c = CHR ''%'' \<or> \<not> nu_isuric c"
proof (induction s)
  case (Cons x xs)
  have "(of_char x :: nat) div 16 < 16" "(of_char x :: nat) mod 16 < 16" by (simp_all add: less_mult_imp_div_less)
  then show ?case using Cons hex_chars by (auto split: if_splits)
qed simp

lemma escape_plain: "CHR ''%'' \<notin> set (nu_escape_uri s) \<Longrightarrow> nu_escape_uri s = s \<and> CHR 0x00 \<notin> set s"
  using uric_marks(7) by (induction s) (auto split: if_splits)

lemma decode_escaped: "(decode_loop (length (nu_escape_uri s)) (nu_escape_uri s @ r) :: ('x, _) result) = Inr (Some s)"
proof (induction s)
  case (Cons x xs)
  let ?n = "of_char x :: nat"
  have n: "?n div 16 < 16" "?n mod 16 < 16" by (simp_all add: less_mult_imp_div_less)
  have "int (?n div 16) * 16 + int (?n mod 16) = int ?n" by presburger
  then have "char_of (nat (int (?n div 16) * 16 + int (?n mod 16))) = x" by simp
  then show ?case using Cons hex_chars [OF n(1)] hex_chars [OF n(2)] uric_marks(1) by (auto simp: numeral_2_eq_2)
qed simp

lemma store_escaped:
  assumes "hex_decode c = - 1"
  shows "(store_url_decoded env key (nu_escape_uri s @ c # r) (length (nu_escape_uri s)) :: ('x, _) result) =
    Inr (Some (map_set key (c_str s) env))"
proof (cases "CHR ''%'' \<in> set (nu_escape_uri s)")
  case True
  from decode_loop_stops [OF assms, of "nu_escape_uri s" r, where 'x = 'x] True
  have "length s + 2 \<le> length (nu_escape_uri s)" by (simp add: decode_escaped)
  then show ?thesis using True by (simp add: store_url_decoded_def url_decode_def decode_escaped)
next
  case False
  from escape_plain [OF False] have "c_str s = s" by (simp add: c_str_def takeWhile_eq_all_conv) (metis)
  then show ?thesis using False escape_plain [OF False] by (simp add: store_url_decoded_def url_decode_def)
qed

lemma store_headers_keeps:
  assumes "(store_headers env last_key hs :: ('x, _) result) = Inr (Some env')" "last_key \<noteq> Some k" "\<forall>n. cgi_name n \<noteq> Some k"
  shows "map_of env' k = map_of env k"
  using assms
proof (induction hs arbitrary: env last_key)
  case (Cons h hs)
  show ?case
  proof (cases "hdr_name h")
    case None
    then obtain key v where k: "last_key = Some key" "map_of env key = Some v"
      "(store_headers (map_set key (v @ hdr_value h) env) last_key hs :: ('x, _) result) = Inr (Some env')"
      using Cons.prems(1) by (auto split: option.splits)
    then show ?thesis using Cons.IH [OF k(3)] Cons.prems by simp
  next
    case (Some n)
    then obtain key where k: "cgi_name n = Some key" using Cons.prems(1) by (auto split: option.splits)
    then have "key \<noteq> k" using Cons.prems(3) by auto
    then show ?thesis using Some k Cons.prems Cons.IH [of _ "Some key"] by (auto split: option.splits)
  qed
qed simp

lemma store_headers_fit:
  assumes "\<forall>h \<in> set hs. \<forall>n. hdr_name h = Some n \<longrightarrow> length n \<le> MAX_HEADER_NAME_LEN"
    "last_key = None \<longrightarrow> hs = [] \<or> hdr_name (hd hs) \<noteq> None" "\<forall>k. last_key = Some k \<longrightarrow> map_of env k \<noteq> None"
  shows "\<exists>env'. store_headers env last_key hs = Inr (Some env')"
  using assms
proof (induction hs arbitrary: env last_key)
  case (Cons h hs)
  show ?case
  proof (cases "hdr_name h")
    case None
    then show ?thesis using Cons by (cases last_key) auto
  next
    case (Some n)
    then have "cgi_name n \<noteq> None" using Cons.prems(1) by (auto simp: cgi_name_def)
    then show ?thesis using Some Cons by (auto split: option.split)
  qed
qed simp

lemma cgi_keys: "cgi_name n \<noteq> Some ''PATH_INFO''" "cgi_name n \<noteq> Some ''QUERY_STRING''" "cgi_name n \<noteq> Some ''REQUEST_METHOD''"
  by (auto simp: cgi_name_def)

text \<open>C13. The escaping of \<open>nanouri.h\<close>, the head parser and the binding work together: a request for an
  escaped path and a query reaches the program with the path that was escaped, up to its first zero byte,
  with the query as it was sent and with the method, whatever headers and body come with it.\<close>
theorem escaped_path_reaches_path_info:
  assumes "token_ok m" "token_ok q" "CHR ''#'' \<notin> set q" "v + 48 < 2 ^ 31" "\<forall>h \<in> set hs. header_ok h" "length hs \<le> 128"
    "\<forall>h \<in> set hs. \<forall>n. hdr_name h = Some n \<longrightarrow> length n \<le> 1024" "hs \<noteq> [] \<longrightarrow> hdr_name (hd hs) \<noteq> None"
  shows "\<exists>n env. (HTTP_Parser_parse_http_request (print_request m (nu_escape_uri s @ CHR ''?'' # q) v hs @ body) :: ('x, _) result) = Inr (n, env) \<and>
    map_of env ''PATH_INFO'' = Some (c_str s) \<and> map_of env ''QUERY_STRING'' = Some q \<and> map_of env ''REQUEST_METHOD'' = Some m"
proof -
  let ?e = "nu_escape_uri s"
  let ?path = "?e @ CHR ''?'' # q"
  have e: "CHR ''?'' \<notin> set ?e" "CHR ''#'' \<notin> set ?e" "token_ok ?e"
    using escape_chars [of _ s] uric_marks by (auto simp: token_ok_def)
  then have p: "token_ok ?path" "CHR ''#'' \<notin> set ?path" using assms(2,3) by (auto simp: token_ok_def)
  obtain out n where run: "(phr_parse_request MAX_HEADERS 0 (print_request m ?path v hs @ body) :: ('x, _) result) = Inr (n, out)" "0 \<le> n"
    and out: "http_method out = Some m" "http_path out = Some ?path" "headers out = hs"
    using phr_parse_request_print [OF assms(1) p(1) assms(4,5) assms(6,8)] by (fastforce simp: MAX_HEADERS_def)
  have h: "find_ch ?path (CHR ''#'') = length ?path" by (rule find_ch_none [OF p(2)])
  have qm: "find_ch ?path (CHR ''?'') = length ?e" by (rule find_ch_here [OF e(1)])
  have hx: "hex_decode (CHR ''?'') = - 1" by (simp add: hex_decode_def)
  obtain env env' where cgi: "(cgi_env out :: ('x, _) result) = Inr (Some env')" "store_headers env None hs = (Inr (Some env') :: ('x, _) result)"
    and env: "map_of env ''PATH_INFO'' = Some (c_str s)" "map_of env ''QUERY_STRING'' = Some q" "map_of env ''REQUEST_METHOD'' = Some m"
  proof -
    define env where "env = map_set ''SERVER_PROTOCOL'' (''HTTP/1.'' @ show_int (minor_version out))
      (map_set ''QUERY_STRING'' q (map_set ''PATH_INFO'' (c_str s) (map_set ''SCRIPT_NAME'' []
        (map_set ''REQUEST_URI'' ?path (map_set ''REQUEST_METHOD'' m [])))))"
    obtain env' where st: "(store_headers env None hs :: ('x, _) result) = Inr (Some env')"
      using store_headers_fit [of hs None env] assms(7,8) by (auto simp: MAX_HEADER_NAME_LEN_def)
    have "(cgi_env out :: ('x, _) result) = store_headers env None hs"
      using store_escaped [OF hx, of _ "''PATH_INFO''" s "q @ after_path", where 'x = 'x]
      by (simp add: cgi_env_def Let_def out h qm env_def)
    then show ?thesis using that st by (simp add: env_def)
  qed
  have "map_of env' k = map_of env k" if "\<forall>n. cgi_name n \<noteq> Some k" for k
    using store_headers_keeps [OF cgi(2) _ that] by simp
  then show ?thesis using run cgi(1) env cgi_keys by (auto simp: HTTP_Parser_parse_http_request_def)
qed

theorem http_request_memory_safe_witness:
  "\<exists>code env. (HTTP_Parser_parse_http_request (''GET /%4 HTTP/1.1'' @ [LF, LF]) :: (unit, _) result) = Inr (code, env) \<and>
    (code = 18 \<or> code = - 1)"
proof -
  have "(phr_parse_request MAX_HEADERS 0 (''GET /%4 HTTP/1.1'' @ [LF, LF]) :: (unit, _) result) =
      Inr (18, \<lparr>http_method = Some ''GET'', http_path = Some ''/%4'', minor_version = 1, status = 0, msg = None, headers = []\<rparr>)"
    by code_simp
  from http_request_memory_safe [OF this] show ?thesis by simp
qed

theorem escaped_path_reaches_path_info_witness:
  "\<exists>n env. (HTTP_Parser_parse_http_request (print_request ''GET'' (nu_escape_uri ''/a b'' @ CHR ''?'' # ''x=1'') 1
      [\<lparr>hdr_name = Some ''Host'', hdr_value = ''h''\<rparr>] @ ''rest'') :: (unit, _) result) = Inr (n, env) \<and>
    map_of env ''PATH_INFO'' = Some ''/a b'' \<and> map_of env ''QUERY_STRING'' = Some ''x=1'' \<and> map_of env ''REQUEST_METHOD'' = Some ''GET''"
proof -
  have "c_str ''/a b'' = ''/a b''" by (simp add: c_str_def)
  with escaped_path_reaches_path_info [of "''GET''" "''x=1''" 1 "[\<lparr>hdr_name = Some ''Host'', hdr_value = ''h''\<rparr>]" "''/a b''" "''rest''",
      where 'x = unit]
  show ?thesis by (simp add: token_ok_def header_ok_def line_ok_def below_space_def)
qed

end
