(* ===== verification/Tora_Regexp.thy ===== *)
theory Tora_Regexp
  imports Tora_Container Tora_Class
begin

text \<open>
  Regular expressions (\<open>tora/value/regexp.h\<close>, \<open>tora/value/regexp.cc\<close>, \<open>tora/object/regexp.cc\<close>,
  \<open>tora/object/re2_regexp_matched.cc\<close>). Matching is RE2's: for a pattern, its flags, a text and a
  range it answers with the positions and lengths of the whole match and of the groups. The loops of
  \<open>scan\<close> and \<open>split\<close> around it are modelled, with their iterations bounded.
\<close>

record re_host =
  re_exec :: "string \<Rightarrow> i32 \<Rightarrow> string \<Rightarrow> nat \<Rightarrow> nat \<Rightarrow> (nat \<times> nat) option list option"
  re_groups :: "string \<Rightarrow> i32 \<Rightarrow> nat"
  re_replace_one :: "string \<Rightarrow> i32 \<Rightarrow> string \<Rightarrow> string \<Rightarrow> string"
  re_replace_all :: "string \<Rightarrow> i32 \<Rightarrow> string \<Rightarrow> string \<Rightarrow> string"
  re_quote :: "string \<Rightarrow> string"

subsection \<open>Flags and patterns\<close>

definition REGEXP_GLOBAL :: i32 where "REGEXP_GLOBAL = 1"
definition REGEXP_MULTILINE :: i32 where "REGEXP_MULTILINE = 2"
definition REGEXP_IGNORECASE :: i32 where "REGEXP_IGNORECASE = 4"
definition REGEXP_EXPANDED :: i32 where "REGEXP_EXPANDED = 8"
definition REGEXP_DOTALL :: i32 where "REGEXP_DOTALL = 16"

text \<open>\<open>regexp_flag\<close> aborts on another character.\<close>

definition regexp_flag :: "char \<Rightarrow> i32 val_result" where
  "regexp_flag c = (if c = CHR ''m'' then Inr REGEXP_MULTILINE
     else if c = CHR ''g'' then Inr REGEXP_GLOBAL
     else if c = CHR ''i'' then Inr REGEXP_IGNORECASE
     else if c = CHR ''x'' then Inr REGEXP_EXPANDED
     else if c = CHR ''s'' then Inr REGEXP_DOTALL
     else Inl Abort)"

text \<open>The text the constructor of \<open>RE2RegexpValue\<close> compiles; the second test replaces the result of the first.\<close>

definition re2_pattern :: "string \<Rightarrow> i32 \<Rightarrow> string" where
  "re2_pattern str flags =
     (let src = str;
          src = (if flags AND REGEXP_DOTALL \<noteq> 0 then ''(?s)'' @ str else src)
      in if flags AND REGEXP_MULTILINE \<noteq> 0 then ''(?m)'' @ str else src)"

text \<open>The matcher of a regular expression value.\<close>

type_synonym matcher = "string \<Rightarrow> nat \<Rightarrow> nat \<Rightarrow> (nat \<times> nat) option list option"

definition matcher_of :: "re_host \<Rightarrow> string \<Rightarrow> i32 \<Rightarrow> matcher" where
  "matcher_of R pat flags = re_exec R (re2_pattern pat flags) flags"

definition group_text :: "string \<Rightarrow> nat \<times> nat \<Rightarrow> string" where
  "group_text s g = take (snd g) (drop (fst g) s)"

definition whole :: "(nat \<times> nat) option list \<Rightarrow> nat \<times> nat" where
  "whole gs = the (hd gs)"

subsection \<open>Scan (RE2RegexpValue::scan)\<close>

fun scan_loop :: "matcher \<Rightarrow> string \<Rightarrow> nat \<Rightarrow> nat \<Rightarrow> (nat \<times> nat) option list list option" where
  "scan_loop m str 0 start = None"
| "scan_loop m str (Suc k) start = (case m str start (length str) of
       None \<Rightarrow> Some []
     | Some gs \<Rightarrow> (case whole gs of (p, n) \<Rightarrow>
         map_option ((#) gs) (scan_loop m str k (p + (if n > 0 then n else 1)))))"

definition group_value :: "string \<Rightarrow> (nat \<times> nat) option \<Rightarrow> obj" where
  "group_value str g = (case g of Some r \<Rightarrow> StrValue (group_text str r) | None \<Rightarrow> UndefValue)"

fun push_objs :: "obj list \<Rightarrow> heap \<Rightarrow> ptr list \<Rightarrow> heap \<times> ptr list" where
  "push_objs [] h ps = (h, ps)"
| "push_objs (x # xs) h ps = (let (h', a) = alloc x h in push_objs xs h' (ps @ [Some a]))"

fun push_matches :: "nat \<Rightarrow> string \<Rightarrow> (nat \<times> nat) option list list \<Rightarrow> heap \<Rightarrow> ptr list \<Rightarrow> heap \<times> ptr list" where
  "push_matches groups str [] h ps = (h, ps)"
| "push_matches groups str (gs # gss) h ps =
     (if groups \<noteq> 0 then
        (let (h1, qs) = push_objs (map (group_value str) (tl gs)) h [];
             (h2, a) = alloc (ArrayValue qs) h1
         in push_matches groups str gss h2 (ps @ [Some a]))
      else let (h1, a) = alloc (StrValue (group_text str (whole gs))) h
           in push_matches groups str gss h1 (ps @ [Some a]))"

definition RE2RegexpValue_scan :: "re_host \<Rightarrow> nat \<Rightarrow> heap \<Rightarrow> string \<Rightarrow> i32 \<Rightarrow> string \<Rightarrow> (heap \<times> ptr) val_result option" where
  "RE2RegexpValue_scan R k h pat flags str =
     map_option (\<lambda>gss. let (h', ps) = push_matches (re_groups R (re2_pattern pat flags) flags) str gss h []
       in ret_new (ArrayValue ps) h') (scan_loop (matcher_of R pat flags) str k 0)"

subsection \<open>Split (RE2RegexpValue::split)\<close>

text \<open>\<open>limit==0 || res->size()+1 < limit\<close>, where the comparison turns a negative limit into a huge one.\<close>

definition more_room :: "i32 \<Rightarrow> nat \<Rightarrow> bool" where
  "more_room limit n = (limit = 0 \<or> sint limit < 0 \<or> int n + 1 < sint limit)"

fun split_chars :: "i32 \<Rightarrow> string \<Rightarrow> string list \<Rightarrow> string list" where
  "split_chars limit [] res = res"
| "split_chars limit (c # cs) res =
     (if more_room limit (length res) then split_chars limit cs (res @ [[c]]) else res @ [c # cs])"

definition split_rest :: "string \<Rightarrow> string list \<Rightarrow> string list" where
  "split_rest src res = (if src \<noteq> [] then res @ [src] else res)"

fun split_loop :: "matcher \<Rightarrow> i32 \<Rightarrow> nat \<Rightarrow> string \<Rightarrow> string list \<Rightarrow> string list option" where
  "split_loop m limit 0 src res = None"
| "split_loop m limit (Suc k) src res = (case m src 0 (length src) of
       None \<Rightarrow> Some (split_rest src res)
     | Some gs \<Rightarrow> (case whole gs of (p, n) \<Rightarrow>
         if more_room limit (length res) then split_loop m limit k (drop (p + n) src) (res @ [take p src])
         else Some (split_rest src res)))"

definition RE2RegexpValue_split :: "re_host \<Rightarrow> nat \<Rightarrow> heap \<Rightarrow> string \<Rightarrow> i32 \<Rightarrow> string \<Rightarrow> i32 \<Rightarrow> (heap \<times> ptr) val_result option" where
  "RE2RegexpValue_split R k h pat flags str limit =
     map_option (\<lambda>res. let (h', ps) = push_objs (map StrValue res) h [] in ret_new (ArrayValue ps) h')
       (if re2_pattern pat flags = [] then Some (split_chars limit str [])
        else split_loop (matcher_of R pat flags) limit k str [])"

subsection \<open>Match and replace\<close>

definition RE2RegexpValue_match_bool :: "re_host \<Rightarrow> string \<Rightarrow> i32 \<Rightarrow> string \<Rightarrow> bool" where
  "RE2RegexpValue_match_bool R pat flags str = (matcher_of R pat flags str 0 (length str) \<noteq> None)"

text \<open>
  A matched object holds the number of a pair in \<open>ms\<close>, the expression and the groups. The groups point
  into the string the caller passes, which is a temporary and is gone when the object is used.
\<close>

type_synonym matched = "ptr \<times> (nat \<times> nat) option list"

definition RE2_Regexp_Matched_new :: "(ID \<times> ptr) list \<Rightarrow> heap \<Rightarrow> matched list \<Rightarrow> matched \<Rightarrow> (heap \<times> matched list \<times> ptr) val_result" where
  "RE2_Regexp_Matched_new classes h ms x = bnd (get_builtin_class classes 22) (\<lambda>k.
     let (h1, d) = alloc (PointerValue (length ms)) h;
         (h2, a) = alloc (ObjectValue k (Some d) False) h1
     in Inr (h2, ms @ [x], Some a))"

definition RE2RegexpValue_match :: "re_host \<Rightarrow> (ID \<times> ptr) list \<Rightarrow> heap \<Rightarrow> matched list \<Rightarrow> ptr \<Rightarrow> string \<Rightarrow> i32 \<Rightarrow> string \<Rightarrow>
    (heap \<times> matched list \<times> ptr) val_result" where
  "RE2RegexpValue_match R classes h ms self pat flags str = (case matcher_of R pat flags str 0 (length str) of
       Some gs \<Rightarrow> RE2_Regexp_Matched_new classes h ms (self, gs)
     | None \<Rightarrow> bnd (ret_new UndefValue h) (\<lambda>(h', p). Inr (h', ms, p)))"

definition RE2RegexpValue_replace :: "re_host \<Rightarrow> string \<Rightarrow> i32 \<Rightarrow> string \<Rightarrow> string \<Rightarrow> string" where
  "RE2RegexpValue_replace R pat flags str rewrite =
     (if flags AND REGEXP_GLOBAL \<noteq> 0 then re_replace_all R (re2_pattern pat flags) flags str rewrite
      else re_replace_one R (re2_pattern pat flags) flags str rewrite)"

subsection \<open>Methods of the class RE2::Regexp::Matched\<close>

definition matched_of :: "heap \<Rightarrow> matched list \<Rightarrow> ptr \<Rightarrow> matched val_result" where
  "matched_of h ms self = bnd (deref h self) (\<lambda>x. case x of
       ObjectValue _ d _ \<Rightarrow> bnd (deref h d) (\<lambda>y. case y of
           PointerValue i \<Rightarrow> if i < length ms then Inr (ms ! i) else Inl Undefined | _ \<Rightarrow> Inl Undefined)
     | _ \<Rightarrow> Inl Abort)"

definition RE2_Regexp_Matched_regexp :: "heap \<Rightarrow> matched list \<Rightarrow> ptr \<Rightarrow> ptr val_result" where
  "RE2_Regexp_Matched_regexp h ms self = bnd (matched_of h ms self) (\<lambda>(re, _). Inr re)"

text \<open>
  Reading the bytes of a group is undefined; a group without bytes or position reads none.
  \<open>to_array\<close> takes as many entries as there are groups, the whole match first.
\<close>

definition RE2_Regexp_Matched_to_array :: "re_host \<Rightarrow> heap \<Rightarrow> matched list \<Rightarrow> ptr \<Rightarrow> (heap \<times> ptr) val_result" where
  "RE2_Regexp_Matched_to_array R h ms self = bnd (matched_of h ms self) (\<lambda>(re, gs). bnd (deref h re) (\<lambda>y. case y of
       RegexpValue pat flags \<Rightarrow> (let n = re_groups R (re2_pattern pat flags) flags in
         if length gs < n then Inl Std_exception
         else if \<exists>g \<in> set (take n gs). g \<noteq> None \<and> snd (the g) > 0 then Inl Undefined
         else let (h', ps) = push_objs (replicate n (StrValue [])) h [] in ret_new (ArrayValue ps) h')
     | _ \<Rightarrow> Inl Undefined))"

definition RE2_Regexp_Matched_getitem :: "re_host \<Rightarrow> heap \<Rightarrow> matched list \<Rightarrow> ptr \<Rightarrow> ptr \<Rightarrow> (heap \<times> ptr) val_result" where
  "RE2_Regexp_Matched_getitem R h ms self index = bnd (deref h index) (\<lambda>x. case x of
       IntValue i \<Rightarrow> bnd (matched_of h ms self) (\<lambda>(re, gs). bnd (deref h re) (\<lambda>y. case y of
           RegexpValue pat flags \<Rightarrow>
             if int (re_groups R (re2_pattern pat flags) flags) < sint i then ret_new UndefValue h
             else if sint i < 0 \<or> int (length gs) \<le> sint i then Inl Std_exception
             else (case gs ! nat (sint i) of
                 None \<Rightarrow> ret_new UndefValue h
               | Some (p, n) \<Rightarrow> if n = 0 then ret_new (StrValue []) h else Inl Undefined)
         | _ \<Rightarrow> Inl Undefined))
     | StrValue _ \<Rightarrow> Inl Abort
     | _ \<Rightarrow> bnd (type_str x) (\<lambda>t. throw_fmt (''RE2::Regexp::Matched[index], index should be string or integer but you passed '' @ t)))"

subsection \<open>Methods of the class Regexp (tora/object/regexp.cc)\<close>

definition Regexp_flags :: "heap \<Rightarrow> ptr \<Rightarrow> (heap \<times> ptr) val_result" where
  "Regexp_flags h self = bnd (deref h self) (\<lambda>x. case x of
       RegexpValue _ flags \<Rightarrow> ret_new (IntValue flags) h | _ \<Rightarrow> Inl Abort)"

definition Regexp_quotemeta :: "re_host \<Rightarrow> heap \<Rightarrow> ptr \<Rightarrow> ptr \<Rightarrow> (heap \<times> ptr) val_result" where
  "Regexp_quotemeta R h self v = bnd (to_s_at h v) (\<lambda>s. ret_new (StrValue (re_quote R s)) h)"

definition Regexp_constant :: "i32 \<Rightarrow> heap \<Rightarrow> ptr \<Rightarrow> (heap \<times> ptr) val_result" where
  "Regexp_constant flag h self = ret_new (IntValue flag) h"

subsection \<open>What scan and split do\<close>

text \<open>What RE2 documents of \<open>Match\<close>: a match lies within the range searched, and a range that is none has no match.\<close>

definition re2_matcher :: "matcher \<Rightarrow> bool" where
  "re2_matcher m = (\<forall>s i j gs. m s i j = Some gs \<longrightarrow> i \<le> j \<and> j \<le> length s \<and>
     i \<le> fst (whole gs) \<and> fst (whole gs) + snd (whole gs) \<le> j)"

lemma re2_matcherD:
  assumes "re2_matcher m" "m s i j = Some gs" "whole gs = (p, n)"
  shows "i \<le> p" "p + n \<le> j" "j \<le> length s"
  using assms unfolding re2_matcher_def by (metis fst_conv snd_conv)+

text \<open>The scan always comes to its end: its position grows with every match.\<close>

lemma scan_loop_ends:
  assumes "re2_matcher m"
  shows "length str + 1 - start < k \<Longrightarrow> scan_loop m str k start \<noteq> None"
proof (induction k arbitrary: start)
  case (Suc k)
  show ?case
  proof (cases "m str start (length str)")
    case (Some gs)
    obtain p n where w: "whole gs = (p, n)" by (cases "whole gs")
    have "start \<le> p" "p + n \<le> length str" using re2_matcherD [OF assms Some w] by simp_all
    then have "length str + 1 - (p + (if n > 0 then n else 1)) < k" using Suc.prems by (auto split: if_splits)
    from Suc.IH [OF this] show ?thesis using Some w by simp
  qed simp
qed simp










text \<open>An expression that matches the empty string at the beginning makes \<open>String#split\<close> without a
  limit go on for ever: the loop cuts nothing off and adds an empty piece in every turn.\<close>
theorem split_empty_match_diverges:
  assumes "m str 0 (length str) = Some gs" "whole gs = (0, 0)"
  shows "split_loop m 0 k str res = None"
proof (induction k arbitrary: res)
  case (Suc k)
  then show ?case using assms by (simp add: more_room_def)
qed simp

theorem split_empty_match_diverges_witness:
  "split_loop (\<lambda>s i j. Some [Some (i, 0)]) 0 100 ''abc'' [] = None"
  using split_empty_match_diverges [of "\<lambda>s i j. Some [Some (i, 0)]" "''abc''"] by (simp add: whole_def)

end
