(* ===== verification/Tora_Str.thy ===== *)
theory Tora_Str
  imports Tora_Regexp
begin

text \<open>
  The methods of strings and byte strings (\<open>tora/value/str.cc\<close>, \<open>tora/object/str.cc\<close>,
  \<open>tora/object/bytes.cc\<close>). A method takes the heap and its arguments, the receiver first, and
  returns the new heap and the address of its result; the methods that loop over matches take a bound.
\<close>

subsection \<open>Searching and cutting (std::string)\<close>

fun find_at :: "string \<Rightarrow> string \<Rightarrow> nat option" where
  "find_at pat [] = (if pat = [] then Some 0 else None)"
| "find_at pat (c # cs) = (if take (length pat) (c # cs) = pat then Some 0 else map_option Suc (find_at pat cs))"

text \<open>\<open>s.find(pat, pos)\<close>; a negative \<open>int\<close> is a position beyond every string.\<close>

definition str_find :: "string \<Rightarrow> string \<Rightarrow> int \<Rightarrow> nat option" where
  "str_find s pat pos = (if pos < 0 \<or> int (length s) < pos then None
     else map_option (\<lambda>i. nat pos + i) (find_at pat (drop (nat pos) s)))"

text \<open>\<open>s.substr(pos)\<close> and \<open>s.substr(pos, n)\<close>; a negative count reaches to the end.\<close>

definition str_from :: "string \<Rightarrow> int \<Rightarrow> string val_result" where
  "str_from s pos = (if pos < 0 \<or> int (length s) < pos then Inl Std_exception else Inr (drop (nat pos) s))"

definition str_part :: "string \<Rightarrow> int \<Rightarrow> int \<Rightarrow> string val_result" where
  "str_part s pos n = bnd (str_from s pos) (\<lambda>t. Inr (if n < 0 then t else take (nat n) t))"

subsection \<open>Length (tora/value/str.cc)\<close>

definition byte_of :: "char \<Rightarrow> nat" where
  "byte_of c = of_char c"

definition continuation :: "char \<Rightarrow> bool" where
  "continuation c = (128 \<le> byte_of c \<and> byte_of c < 192)"

text \<open>
  After a byte of 128 or more the inner loop moves \<open>i\<close> to the first byte that is no continuation,
  and the \<open>++i\<close> of the outer loop moves past it.
\<close>

function StrValue_length :: "string \<Rightarrow> nat" where
  "StrValue_length [] = 0"
| "StrValue_length (c # cs) = (if byte_of c < 128 then Suc (StrValue_length cs)
     else Suc (StrValue_length (tl (dropWhile continuation cs))))"
  by pat_completeness auto
termination
proof (relation "measure length")
  fix c :: char and cs
  show "(tl (dropWhile continuation cs), c # cs) \<in> measure length"
    using length_dropWhile_le [of continuation cs] by simp
qed simp_all

subsection \<open>Methods of the class String (tora/object/str.cc)\<close>

definition as_str :: "heap \<Rightarrow> ptr \<Rightarrow> string val_result" where
  "as_str h p = bnd (deref h p) (\<lambda>x. case x of StrValue s \<Rightarrow> Inr s | _ \<Rightarrow> Inl Undefined)"

definition throw_argument :: "string \<Rightarrow> 'a val_result" where
  "throw_argument s = Inl (Raise (argument_exception_value s))"

definition str_length :: "heap \<Rightarrow> ptr \<Rightarrow> (heap \<times> ptr) val_result" where
  "str_length h self = bnd (as_str h self) (\<lambda>s. ret_new (IntValue (of_nat (StrValue_length s))) h)"

definition wrong_pattern :: "string \<Rightarrow> obj \<Rightarrow> 'a val_result" where
  "wrong_pattern m x = bnd (type_str x) (\<lambda>t. throw_argument
     (''String.'' @ m @ '' string or regexp object for first argument, but you passed '' @ [CHR 0x27] @ t @ [CHR 0x27] @ ''.''))"

definition str_match :: "re_host \<Rightarrow> (ID \<times> ptr) list \<Rightarrow> heap \<Rightarrow> matched list \<Rightarrow> ptr \<Rightarrow> ptr \<Rightarrow>
    (heap \<times> matched list \<times> ptr) val_result" where
  "str_match R classes h ms self arg1 = bnd (deref h arg1) (\<lambda>x. case x of
       StrValue pat \<Rightarrow> bnd (as_str h self) (\<lambda>s. bnd (ret_new (BoolValue (str_find s pat 0 \<noteq> None)) h) (\<lambda>(h', p). Inr (h', ms, p)))
     | RegexpValue pat flags \<Rightarrow> bnd (as_str h self) (\<lambda>s. RE2RegexpValue_match R classes h ms arg1 pat flags s)
     | _ \<Rightarrow> wrong_pattern ''match() requires'' x)"

definition str_replace :: "re_host \<Rightarrow> heap \<Rightarrow> ptr \<Rightarrow> ptr \<Rightarrow> ptr \<Rightarrow> (heap \<times> ptr) val_result" where
  "str_replace R h self arg1 rewrite = bnd (deref h arg1) (\<lambda>x. case x of
       StrValue pat \<Rightarrow> bnd (as_str h self) (\<lambda>s. bnd (to_s_at h rewrite) (\<lambda>r.
         ret_new (StrValue (re_replace_all R (re_quote R pat) 0 s r)) h))
     | RegexpValue pat flags \<Rightarrow> bnd (as_str h self) (\<lambda>s. bnd (to_s_at h rewrite) (\<lambda>r.
         ret_new (StrValue (RE2RegexpValue_replace R pat flags s r)) h))
     | _ \<Rightarrow> wrong_pattern ''replace requires'' x)"

definition str_substr :: "heap \<Rightarrow> ptr list \<Rightarrow> (heap \<times> ptr) val_result" where
  "str_substr h args = (case args of
       [] \<Rightarrow> Inl Undefined
     | self # rest \<Rightarrow> bnd (deref h self) (\<lambda>x. case x of
           StrValue s \<Rightarrow> (case rest of
               [p] \<Rightarrow> bnd (to_int_at h p) (\<lambda>i. bnd (str_from s (sint i)) (\<lambda>t. ret_new (StrValue t) h))
             | [p, q] \<Rightarrow> bnd (to_int_at h p) (\<lambda>i. bnd (to_int_at h q) (\<lambda>n.
                 bnd (str_part s (sint i) (sint n)) (\<lambda>t. ret_new (StrValue t) h)))
             | _ \<Rightarrow> throw_argument ''String#substr requires 1 or 2 arguments'')
         | _ \<Rightarrow> Inl Abort))"

definition str_scan :: "re_host \<Rightarrow> nat \<Rightarrow> heap \<Rightarrow> ptr \<Rightarrow> ptr \<Rightarrow> (heap \<times> ptr) val_result option" where
  "str_scan R k h self re = (case deref h re of
       Inr (RegexpValue pat flags) \<Rightarrow> (case deref h self of
           Inr (StrValue s) \<Rightarrow> RE2RegexpValue_scan R k h pat flags s
         | Inr _ \<Rightarrow> Some (Inl Abort) | Inl e \<Rightarrow> Some (Inl e))
     | Inr _ \<Rightarrow> Some (throw_fmt ''First argument of String#scan must be regexp object.'')
     | Inl e \<Rightarrow> Some (Inl e))"

definition str_split :: "re_host \<Rightarrow> nat \<Rightarrow> heap \<Rightarrow> ptr \<Rightarrow> ptr list \<Rightarrow> (heap \<times> ptr) val_result option" where
  "str_split R k h self args =
     (if length args \<noteq> 1 \<and> length args \<noteq> 2 then Some (throw_argument ''Usage: $str.split(//[, $limit])'')
      else case deref h (hd args) of
        Inr (RegexpValue pat flags) \<Rightarrow> (case if length args = 2 then to_int_at h (args ! 1) else Inr 0 of
            Inr limit \<Rightarrow> (case deref h self of
                Inr (StrValue s) \<Rightarrow> RE2RegexpValue_split R k h pat flags s limit
              | Inr _ \<Rightarrow> Some (Inl Abort) | Inl e \<Rightarrow> Some (Inl e))
          | Inl e \<Rightarrow> Some (Inl e))
      | Inr _ \<Rightarrow> Some (throw_fmt ''First argument of String#split must be regexp object.'')
      | Inl e \<Rightarrow> Some (Inl e))"

definition str_index :: "heap \<Rightarrow> ptr list \<Rightarrow> (heap \<times> ptr) val_result" where
  "str_index h args =
     (if length args \<noteq> 2 \<and> length args \<noteq> 3 then throw_argument ''Arguments must be 1 or 2 for Str#index''
      else bnd (if length args = 3 then to_int_at h (args ! 2) else Inr 0) (\<lambda>pos.
        bnd (as_str h (args ! 0)) (\<lambda>s. bnd (to_s_at h (args ! 1)) (\<lambda>pat.
          ret_new (IntValue (case str_find s pat (sint pos) of None \<Rightarrow> - 1 | Some i \<Rightarrow> of_nat i)) h))))"

text \<open>\<open>std::toupper\<close> and \<open>std::tolower\<close> in the locale of a C program at its start.\<close>

definition ascii_upper :: "char \<Rightarrow> char" where
  "ascii_upper c = (if 97 \<le> byte_of c \<and> byte_of c \<le> 122 then char_of (byte_of c - 32) else c)"

definition ascii_lower :: "char \<Rightarrow> char" where
  "ascii_lower c = (if 65 \<le> byte_of c \<and> byte_of c \<le> 90 then char_of (byte_of c + 32) else c)"

definition str_upper :: "heap \<Rightarrow> ptr \<Rightarrow> (heap \<times> ptr) val_result" where
  "str_upper h self = bnd (deref h self) (\<lambda>x. case x of
       StrValue s \<Rightarrow> ret_new (StrValue (map ascii_upper s)) h
     | _ \<Rightarrow> throw_fmt ''This is a method for string object.'')"

definition str_lower :: "heap \<Rightarrow> ptr \<Rightarrow> (heap \<times> ptr) val_result" where
  "str_lower h self = bnd (deref h self) (\<lambda>x. case x of
       StrValue s \<Rightarrow> ret_new (StrValue (map ascii_lower s)) h
     | _ \<Rightarrow> throw_fmt ''This is a method for string object.'')"

text \<open>
  With a character set, \<open>encode\<close> and \<open>decode\<close> read its name from a string that has been destroyed.
\<close>

definition str_encode :: "heap \<Rightarrow> ptr \<Rightarrow> ptr list \<Rightarrow> (heap \<times> ptr) val_result" where
  "str_encode h self args = bnd (deref h self) (\<lambda>x. case x of
       StrValue s \<Rightarrow> (case args of
           [] \<Rightarrow> ret_new (BytesValue s) h
         | [p] \<Rightarrow> bnd (to_s_at h p) (\<lambda>_. Inl Undefined)
         | _ \<Rightarrow> throw_argument (''Bytes#decode requires 0 or 1 arguments. but you passed '' @ show_nat (length args) @ ''.''))
     | _ \<Rightarrow> throw_argument ''This is not a string value.'')"

subsection \<open>Methods of the class Bytes (tora/object/bytes.cc)\<close>

definition bytes_length :: "heap \<Rightarrow> ptr \<Rightarrow> (heap \<times> ptr) val_result" where
  "bytes_length h self = bnd (deref h self) (\<lambda>x. case x of
       BytesValue s \<Rightarrow> ret_new (IntValue (of_nat (length s))) h | _ \<Rightarrow> Inl Abort)"

definition Bytes_substr :: "heap \<Rightarrow> ptr list \<Rightarrow> (heap \<times> ptr) val_result" where
  "Bytes_substr h args = (case args of
       [] \<Rightarrow> Inl Undefined
     | self # rest \<Rightarrow> bnd (deref h self) (\<lambda>x. case x of
           BytesValue s \<Rightarrow> (case rest of
               [p] \<Rightarrow> bnd (to_int_at h p) (\<lambda>i. bnd (str_from s (sint i)) (\<lambda>t. ret_new (BytesValue t) h))
             | [p, q] \<Rightarrow> bnd (to_int_at h p) (\<lambda>i. bnd (to_int_at h q) (\<lambda>n.
                 bnd (str_part s (sint i) (sint n)) (\<lambda>t. ret_new (BytesValue t) h)))
             | _ \<Rightarrow> throw_argument ''Bytes#substr requires 1 or 2 arguments'')
         | _ \<Rightarrow> Inl Abort))"

definition Bytes_decode :: "heap \<Rightarrow> ptr \<Rightarrow> ptr list \<Rightarrow> (heap \<times> ptr) val_result" where
  "Bytes_decode h self args = bnd (deref h self) (\<lambda>x. case x of
       BytesValue s \<Rightarrow> (case args of
           [] \<Rightarrow> ret_new (StrValue s) h
         | [p] \<Rightarrow> bnd (to_s_at h p) (\<lambda>_. Inl Undefined)
         | _ \<Rightarrow> throw_argument (''Bytes#decode requires 0 or 1 arguments. but you passed '' @ show_nat (length args) @ ''.''))
     | _ \<Rightarrow> throw_argument ''This is not a bytes value.'')"

subsection \<open>The length of a UTF-8 string\<close>

definition utf8 :: "nat \<Rightarrow> string" where
  "utf8 u = map char_of (if u < 0x80 then [u]
     else if u < 0x800 then [0xC0 + u div 64, 0x80 + u mod 64]
     else if u < 0x10000 then [0xE0 + u div 4096, 0x80 + u div 64 mod 64, 0x80 + u mod 64]
     else [0xF0 + u div 262144, 0x80 + u div 4096 mod 64, 0x80 + u div 64 mod 64, 0x80 + u mod 64])"

definition utf8_string :: "nat list \<Rightarrow> string" where
  "utf8_string us = concat (map utf8 us)"

text \<open>The characters of ASCII that follow one beyond ASCII.\<close>

fun swallowed :: "nat list \<Rightarrow> nat" where
  "swallowed (u # v # us) = (if 0x80 \<le> u \<and> v < 0x80 then 1 else 0) + swallowed (v # us)"
| "swallowed _ = 0"

lemma utf8_ascii: "u < 0x80 \<Longrightarrow> utf8 u = [char_of u] \<and> byte_of (char_of u) < 128"
  by (simp add: utf8_def byte_of_def)

lemma utf8_multi:
  assumes "0x80 \<le> u" "u < 0x110000"
  obtains b c cs where "utf8 u = b # c # cs" "192 \<le> byte_of b" "continuation c" "\<forall>d \<in> set cs. continuation d"
proof -
  have k: "continuation (char_of (0x80 + m mod 64))" for m :: nat
  proof -
    have "m mod 64 < 64" by simp
    then show ?thesis by (simp add: continuation_def byte_of_def)
  qed
  have d: "u < 0x800 \<Longrightarrow> u div 64 < 32" "u < 0x10000 \<Longrightarrow> u div 4096 < 16" "u div 262144 < 8" using assms by auto
  consider "u < 0x800" | "0x800 \<le> u" "u < 0x10000" | "0x10000 \<le> u" by linarith
  then show ?thesis
  proof cases
    case 1
    then show ?thesis using that [of "char_of (0xC0 + u div 64)"] assms d(1) k by (simp add: utf8_def byte_of_def)
  next
    case 2
    then show ?thesis using that [of "char_of (0xE0 + u div 4096)"] assms d(2) k by (simp add: utf8_def byte_of_def)
  next
    case 3
    then show ?thesis using that [of "char_of (0xF0 + u div 262144)"] assms d(3) k by (simp add: utf8_def byte_of_def)
  qed
qed

lemma utf8_string_start:
  "\<forall>u \<in> set us. u < 0x110000 \<Longrightarrow> dropWhile continuation (utf8_string us) = utf8_string us"
proof (cases us)
  case (Cons u vs)
  assume us: "\<forall>u \<in> set us. u < 0x110000"
  show ?thesis
  proof (cases "u < 0x80")
    case True
    then show ?thesis using utf8_ascii [OF True] Cons by (simp add: utf8_string_def continuation_def)
  next
    case False
    obtain b c cs where "utf8 u = b # c # cs" "192 \<le> byte_of b" "continuation c" "\<forall>d \<in> set cs. continuation d"
      using utf8_multi [of u] False us Cons by auto
    then show ?thesis using Cons by (simp add: utf8_string_def continuation_def)
  qed
qed (simp add: utf8_string_def)

lemma swallowed_ascii: "u < 0x80 \<Longrightarrow> swallowed (u # us) = swallowed us"
  by (cases us) simp_all

lemma swallowed_multi: "0x80 \<le> u \<Longrightarrow> swallowed (u # us) = swallowed (0x80 # us)"
  by (cases us) simp_all

lemma StrValue_length_both:
  "\<forall>u \<in> set us. u < 0x110000 \<Longrightarrow> StrValue_length (utf8_string us) + swallowed us = length us \<and>
    StrValue_length (tl (utf8_string us)) + swallowed (0x80 # us) = length us"
proof (induction us)
  case Nil
  then show ?case by (simp add: utf8_string_def)
next
  case (Cons u us)
  have IH: "StrValue_length (utf8_string us) + swallowed us = length us"
    "StrValue_length (tl (utf8_string us)) + swallowed (0x80 # us) = length us" using Cons by simp_all
  have us: "utf8_string (u # us) = utf8 u @ utf8_string us" by (simp add: utf8_string_def)
  show ?case
  proof (cases "u < 0x80")
    case True
    then show ?thesis using IH utf8_ascii [OF True] us swallowed_ascii [OF True] by simp
  next
    case False
    obtain b c cs where u: "utf8 u = b # c # cs" "192 \<le> byte_of b" "continuation c" "\<forall>d \<in> set cs. continuation d"
      using utf8_multi [of u] False Cons.prems by auto
    have d: "dropWhile continuation (cs @ utf8_string us) = utf8_string us"
      using u(4) utf8_string_start [of us] Cons.prems by (simp add: dropWhile_append2)
    have "swallowed (u # us) = swallowed (0x80 # us)" using False by (intro swallowed_multi) simp
    moreover have "\<not> byte_of b < 128" "\<not> byte_of c < 128" using u(2,3) by (auto simp: continuation_def)
    ultimately show ?thesis using IH False us u(1,3) d by simp
  qed
qed

text \<open>\<open>String#length\<close> of a string in UTF-8 is the number of its characters less the number of
  characters of ASCII that follow one beyond ASCII, because the scan steps over the byte after a
  multi-byte character. So it counts right exactly the strings where no such character does.\<close>
theorem str_length_utf8:
  assumes "\<forall>u \<in> set us. u < 0x110000"
  shows "int (StrValue_length (utf8_string us)) = int (length us) - int (swallowed us)"
  using StrValue_length_both [OF assms] by linarith

theorem str_length_utf8_witness: "int (StrValue_length (utf8_string [0x3042, 0x61, 0x62])) = 2"
  using str_length_utf8 [of "[0x3042, 0x61, 0x62]"] by simp

text \<open>\<open>String#index\<close> finds the first occurrence at or after the position.\<close>

lemma find_at_Some: "find_at pat s = Some i \<longleftrightarrow>
    i + length pat \<le> length s \<and> take (length pat) (drop i s) = pat \<and>
    (\<forall>j < i. take (length pat) (drop j s) \<noteq> pat)"
proof (induction s arbitrary: i)
  case (Cons c cs)
  show ?case
  proof (cases "take (length pat) (c # cs) = pat")
    case True
    then have "length pat \<le> length (c # cs)" by (metis length_take min.cobounded1)
    then show ?thesis using True by (cases i) auto
  next
    case False
    then show ?thesis using Cons by (cases i) (auto simp: All_less_Suc2)
  qed
qed auto

lemma str_find_first: "str_find s pat pos = Some i \<longleftrightarrow>
    0 \<le> pos \<and> pos \<le> int i \<and> i + length pat \<le> length s \<and> take (length pat) (drop i s) = pat \<and>
    (\<forall>j. pos \<le> int j \<and> j < i \<longrightarrow> take (length pat) (drop j s) \<noteq> pat)"
proof (cases "pos < 0 \<or> int (length s) < pos")
  case False
  define p where "p = nat pos"
  have p: "pos = int p" "p \<le> length s" using False unfolding p_def by linarith+
  have shift: "(\<forall>j. p \<le> j \<and> j < i \<longrightarrow> Q j) \<longleftrightarrow> (\<forall>j < i - p. Q (p + j))" for Q
  proof (intro iffI allI impI)
    fix j
    assume "\<forall>k < i - p. Q (p + k)" "p \<le> j \<and> j < i"
    moreover from this have "j - p < i - p" by (simp add: diff_less_mono)
    ultimately show "Q j" using spec [of "\<lambda>k. k < i - p \<longrightarrow> Q (p + k)" "j - p"] by simp
  qed simp
  have "str_find s pat pos = Some i \<longleftrightarrow> p \<le> i \<and> find_at pat (drop p s) = Some (i - p)"
    using p by (auto simp: str_find_def)
  also have "\<dots> \<longleftrightarrow> p \<le> i \<and> i + length pat \<le> length s \<and> take (length pat) (drop i s) = pat \<and>
      (\<forall>j. p \<le> j \<and> j < i \<longrightarrow> take (length pat) (drop j s) \<noteq> pat)"
    unfolding find_at_Some shift using p(2) by (auto simp: add.commute)
  finally show ?thesis using p(1) by simp
qed (auto simp: str_find_def)

end
