(* ===== verification/Tora_Inspect.thy ===== *)
theory Tora_Inspect
  imports Tora_Vm Tora_Str
begin

text \<open>
  Values as text: the inspector (\<open>tora/inspector.cc\<close>) that \<open>p\<close> and \<open>Object#tora\<close> use, and formatted
  output (\<open>tora/printf.cc\<close>).
\<close>

subsection \<open>The inspector (tora/inspector.cc)\<close>

fun each :: "(ptr \<Rightarrow> 'b val_result option) \<Rightarrow> ptr list \<Rightarrow> 'b list val_result option" where
  "each f [] = Some (Inr [])"
| "each f (p # ps) = obnd (f p) (\<lambda>s. obnd (each f ps) (\<lambda>ss. Some (Inr (s # ss))))"

fun comma_list :: "string list \<Rightarrow> string" where
  "comma_list [] = []"
| "comma_list [s] = s"
| "comma_list (s # t # ss) = s @ '','' @ comma_list (t # ss)"

definition hex_digit :: "nat \<Rightarrow> char" where
  "hex_digit n = ''0123456789abcdef'' ! n"

definition inspect_bytes :: "string \<Rightarrow> string" where
  "inspect_bytes s = ''b'' @ [CHR 0x22] @
     concat (map (\<lambda>c. [CHR 0x5C, CHR ''x'', hex_digit (of_char c div 16), hex_digit (of_char c mod 16)]) s) @ [CHR 0x22]"

text \<open>
  \<open>Inspector::inspect\<close>, with its recursion bounded; \<open>None\<close> when the bound is too small. The type name
  of an object is read from a string that has been destroyed.
\<close>

fun inspect :: "nat \<Rightarrow> symtab \<Rightarrow> heap \<Rightarrow> obj \<Rightarrow> string val_result option" where
  "inspect 0 t h x = None"
| "inspect (Suc n) t h x = (let inspect_at = (\<lambda>p. obnd (Some (deref h p)) (inspect n t h)) in case x of
       UndefValue \<Rightarrow> Some (Inr ''undef'')
     | IntValue _ \<Rightarrow> Some (to_s h x)
     | BoolValue _ \<Rightarrow> Some (to_s h x)
     | DoubleValue _ \<Rightarrow> Some (to_s h x)
     | StrValue s \<Rightarrow> Some (Inr ([CHR 0x22] @ s @ [CHR 0x22]))
     | CodeValue _ \<Rightarrow> Some (Inr (''sub { '' @ [CHR 0x22] @ ''DUMMY'' @ [CHR 0x22] @ '' }''))
     | ArrayValue ps \<Rightarrow> obnd (each inspect_at ps) (\<lambda>ss. Some (Inr (''['' @ comma_list ss @ '']'')))
     | RegexpValue pat flags \<Rightarrow> Some (Inr (''/'' @ re2_pattern pat flags @ ''/''))
     | TupleValue _ \<Rightarrow> Some (Inr ''#<Tuple>'')
     | FileValue _ \<Rightarrow> Some (Inr ''#<File>'')
     | RangeValue l r \<Rightarrow> Some (to_s h x)
     | ArrayIterator _ _ \<Rightarrow> Some (Inr ''#<Array::Iterator>'')
     | RangeIterator _ _ \<Rightarrow> Some (Inr ''#<Range::Iterator>'')
     | HashIterator _ _ \<Rightarrow> Some (Inr ''#<Hash::Iterator>'')
     | ExceptionValue _ _ _ \<Rightarrow> Some (Inr ''#<Exception>'')
     | SymbolValue _ \<Rightarrow> Some (Inr ''#<Symbol>'')
     | BytesValue s \<Rightarrow> Some (Inr (inspect_bytes s))
     | HashValue m \<Rightarrow> obnd (each inspect_at (map snd m)) (\<lambda>ss. Some (Inr (''{'' @
         comma_list (map2 (\<lambda>k s. [CHR 0x22] @ k @ [CHR 0x22] @ '' => '' @ s) (map fst m) ss) @ ''}'')))
     | ClassValue i _ _ \<Rightarrow> Some (Inr (snd (id2name i t)))
     | ObjectValue _ _ _ \<Rightarrow> Some (Inl Undefined)
     | PointerValue _ \<Rightarrow> Some (Inr ''#<Pointer>'')
     | ReferenceValue _ \<Rightarrow> Some (Inr ''#<Reference>'')
     | FilePackageValue _ _ \<Rightarrow> Some (Inr ''#<FilePackage>''))"






text \<open>Inspecting an array that contains itself never returns.\<close>
theorem inspect_cycle:
  assumes "a < length h" "h ! a = ArrayValue (Some a # ps)"
  shows "inspect n t h (h ! a) = None"
proof (induction n)
  case (Suc n)
  then show ?case using assms by (simp add: Let_def)
qed simp

theorem inspect_cycle_witness: "inspect 100 new_symtab [ArrayValue [Some 0]] (ArrayValue [Some 0]) = None"
  using inspect_cycle [of 0 "[ArrayValue [Some 0]]" "[]"] by simp


subsection \<open>Formatted output (tora/printf.cc)\<close>

definition bad_pattern :: "string \<Rightarrow> 'a val_result" where
  "bad_pattern pat = throw_fmt (''Bad printf pattern: '' @ [CHR 0x27] @ c_str pat @ [CHR 0x27])"

text \<open>The loop over the pattern: the rest of it and the arguments that are left.\<close>

fun sprintf_loop :: "heap \<Rightarrow> string \<Rightarrow> string \<Rightarrow> ptr list \<Rightarrow> string val_result" where
  "sprintf_loop h pat [] args = Inr []"
| "sprintf_loop h pat (c # cs) args =
     (if c = CHR ''%'' then (case cs of
         [] \<Rightarrow> bad_pattern pat
       | d # ds \<Rightarrow>
           if d = CHR ''s'' then (case args of
               [] \<Rightarrow> bad_pattern pat
             | p # ps \<Rightarrow> bnd (to_s_at h p) (\<lambda>s. bnd (sprintf_loop h pat ds ps) (\<lambda>r. Inr (s @ r))))
           else if d = CHR ''d'' then (case args of
               [] \<Rightarrow> bad_pattern pat
             | p # ps \<Rightarrow> bnd (to_int_at h p) (\<lambda>i. bnd (sprintf_loop h pat ds ps) (\<lambda>r. Inr (show_i32 i @ r))))
           else if d = CHR ''%'' then bnd (sprintf_loop h pat ds args) (\<lambda>r. Inr (CHR ''%'' # r))
           else throw_fmt (''unknown printf pattern character: '' @ [d]))
      else bnd (sprintf_loop h pat cs args) (\<lambda>r. Inr (c # r)))"

definition tora_sprintf :: "heap \<Rightarrow> ptr list \<Rightarrow> string val_result" where
  "tora_sprintf h args = (case args of
       [] \<Rightarrow> throw_argument ''printf requires 1 or more args.''
     | p # ps \<Rightarrow> bnd (to_s_at h p) (\<lambda>pat. sprintf_loop h pat pat ps))"

text \<open>The pieces of a format, how they are written in a pattern, and what they stand for.\<close>

datatype piece = Text string | Str | Dec

definition escape_percent :: "string \<Rightarrow> string" where
  "escape_percent s = concat (map (\<lambda>c. if c = CHR ''%'' then ''%%'' else [c]) s)"

fun piece_pattern :: "piece \<Rightarrow> string" where
  "piece_pattern (Text s) = escape_percent s"
| "piece_pattern Str = ''%s''"
| "piece_pattern Dec = ''%d''"

fun render :: "heap \<Rightarrow> piece list \<Rightarrow> ptr list \<Rightarrow> string val_result" where
  "render h [] args = Inr []"
| "render h (Text s # fs) args = bnd (render h fs args) (\<lambda>r. Inr (s @ r))"
| "render h (Str # fs) (p # ps) = bnd (to_s_at h p) (\<lambda>s. bnd (render h fs ps) (\<lambda>r. Inr (s @ r)))"
| "render h (Dec # fs) (p # ps) = bnd (to_int_at h p) (\<lambda>i. bnd (render h fs ps) (\<lambda>r. Inr (show_i32 i @ r)))"
| "render h (_ # fs) [] = Inl Undefined"

definition holes :: "piece list \<Rightarrow> nat" where
  "holes fs = length (filter (\<lambda>f. f = Str \<or> f = Dec) fs)"

lemma sprintf_text:
  "sprintf_loop h pat (escape_percent s @ cs) args = bnd (sprintf_loop h pat cs args) (\<lambda>r. Inr (s @ r))"
proof (induction s)
  case Nil
  then show ?case by (cases "sprintf_loop h pat cs args") (simp_all add: escape_percent_def)
next
  case (Cons c s)
  then show ?case by (cases "sprintf_loop h pat cs args") (auto simp: escape_percent_def)
qed

lemma sprintf_render:
  "holes fs \<le> length args \<Longrightarrow> sprintf_loop h pat (concat (map piece_pattern fs)) args = render h fs args"
proof (induction fs arbitrary: args)
  case (Cons f fs)
  show ?case
  proof (cases f)
    case (Text s)
    then show ?thesis using Cons by (simp add: sprintf_text holes_def)
  next
    case Str
    then obtain p ps where "args = p # ps" using Cons.prems by (cases args) (auto simp: holes_def)
    then show ?thesis using Cons Str by (simp add: holes_def)
  next
    case Dec
    then obtain p ps where "args = p # ps" using Cons.prems by (cases args) (auto simp: holes_def)
    then show ?thesis using Cons Dec by (simp add: holes_def)
  qed
qed simp

text \<open>C37. \<open>sprintf\<close> of a pattern that is put together from texts, with their percent signs doubled, and
  conversions gives the texts as they are with the arguments in order between them, each converted by
  its conversion; arguments beyond the conversions are ignored.\<close>
theorem sprintf_formats:
  assumes "deref h p = Inr (StrValue (concat (map piece_pattern fs)))" "holes fs \<le> length args"
  shows "tora_sprintf h (p # args) = render h fs args"
  using sprintf_render [OF assms(2)] assms(1) by (simp add: tora_sprintf_def to_s_at_def)

theorem sprintf_formats_witness:
  "tora_sprintf [StrValue ''100%%: %d'', IntValue 7] [Some 0, Some 1] = Inr ''100%: 7''"
proof -
  have "concat (map piece_pattern [Text ''100%: '', Dec]) = ''100%%: %d''" by (simp add: escape_percent_def)
  with sprintf_formats [of "[StrValue ''100%%: %d'', IntValue 7]" "Some 0" "[Text ''100%: '', Dec]" "[Some 1]"]
  have "tora_sprintf [StrValue ''100%%: %d'', IntValue 7] [Some 0, Some 1] =
      render [StrValue ''100%%: %d'', IntValue 7] [Text ''100%: '', Dec] [Some 1]" by (simp add: holes_def)
  moreover have "show_i32 7 = ''7''" by code_simp
  ultimately show ?thesis by (simp add: to_int_at_def to_int_def)
qed

end
