(* ===== verification/Tora_Builtin.thy ===== *)
theory Tora_Builtin
  imports Tora_Vm_Run Tora_Inspect
begin

text \<open>
  The built-in functions (\<open>tora/builtin.cc\<close>) and the methods of code, objects, classes and symbols
  (\<open>tora/object/code.cc\<close>, \<open>object.cc\<close>, \<open>metaclass.cc\<close>, \<open>class.cc\<close>, \<open>symbol.cc\<close>, \<open>caller.cc\<close>,
  \<open>internals.cc\<close>, and \<open>map\<close> and \<open>grep\<close> of \<open>array.cc\<close>). A function takes the machine and its
  arguments and returns the machine and the address of its result; a function that prints returns
  what it prints beside that.
\<close>

text \<open>What the functions take from the operating system, the random generator and \<open>math.h\<close>.\<close>

record os =
  strerror :: "i32 \<Rightarrow> string"
  draw_real :: "vm \<Rightarrow> dbl \<Rightarrow> dbl"
  draw_int :: "vm \<Rightarrow> i32 \<Rightarrow> i32"
  libm :: "string \<Rightarrow> dbl \<Rightarrow> dbl"
  c_atan2 :: "dbl \<Rightarrow> dbl \<Rightarrow> dbl"
  c_getcwd :: "string + i32"
  c_getpid :: i32
  c_getppid :: i32
  c_system :: "string \<Rightarrow> i32"

type_synonym native_result = "(vm \<times> ptr) vm_result"

definition vm_new :: "obj \<Rightarrow> vm \<Rightarrow> native_result" where
  "vm_new x s = (let (h, a) = alloc x (heap s) in Inr (s\<lparr>heap := h\<rparr>, Some a))"

text \<open>A new value that is computed from an argument.\<close>

definition vm_compute :: "vm \<Rightarrow> 'a val_result \<Rightarrow> ('a \<Rightarrow> obj) \<Rightarrow> native_result" where
  "vm_compute s r f = bnd (lift_val s r) (\<lambda>a. vm_new (f a) s)"

definition errno_exception_value :: "os \<Rightarrow> i32 \<Rightarrow> obj" where
  "errno_exception_value E e = ExceptionValue EXCEPTION_TYPE_ERRNO (Some e) (strerror E e)"

definition ERANGE :: i32 where "ERANGE = 34"

subsection \<open>Output\<close>

text \<open>The text that is printed and how the printing ended; an element that cannot be converted keeps what was printed before.\<close>

fun print_all :: "(string \<Rightarrow> string) \<Rightarrow> heap \<Rightarrow> ptr list \<Rightarrow> string \<times> unit val_result" where
  "print_all f h [] = ('''', Inr ())"
| "print_all f h (p # ps) = (case to_s_at h p of
       Inl e \<Rightarrow> ('''', Inl e)
     | Inr s \<Rightarrow> (case print_all f h ps of (t, r) \<Rightarrow> (f s @ t, r)))"

definition returning_undef :: "vm \<Rightarrow> unit val_result \<Rightarrow> native_result" where
  "returning_undef s r = bnd (lift_val s r) (\<lambda>_. vm_new UndefValue s)"

text \<open>\<open>say\<close> writes every byte with \<open>fwrite\<close>, \<open>print\<close> formats a C string.\<close>

definition builtin_say :: "vm \<Rightarrow> ptr list \<Rightarrow> string \<times> native_result" where
  "builtin_say s args = (case print_all (\<lambda>t. t @ ''\<newline>'') (heap s) args of (t, r) \<Rightarrow> (t, returning_undef s r))"

definition builtin_print :: "vm \<Rightarrow> ptr list \<Rightarrow> string \<times> native_result" where
  "builtin_print s args = (case print_all c_str (heap s) args of (t, r) \<Rightarrow> (t, returning_undef s r))"

definition builtin_p :: "nat \<Rightarrow> vm \<Rightarrow> ptr \<Rightarrow> (string \<times> native_result) option" where
  "builtin_p n s p = (case obnd (Some (deref (heap s) p)) (inspect n (symbol_table s) (heap s)) of
       None \<Rightarrow> None
     | Some (Inl e) \<Rightarrow> Some ('''', returning_undef s (Inl e))
     | Some (Inr t) \<Rightarrow> Some (c_str t @ ''\<newline>'', returning_undef s (Inr ())))"

definition builtin_printf :: "vm \<Rightarrow> ptr list \<Rightarrow> string \<times> native_result" where
  "builtin_printf s args = (case tora_sprintf (heap s) args of
       Inl e \<Rightarrow> ('''', returning_undef s (Inl e))
     | Inr t \<Rightarrow> (t, returning_undef s (Inr ())))"

definition builtin_sprintf :: "vm \<Rightarrow> ptr list \<Rightarrow> native_result" where
  "builtin_sprintf s args = vm_compute s (tora_sprintf (heap s) args) StrValue"

definition builtin_exit :: "vm \<Rightarrow> ptr \<Rightarrow> native_result" where
  "builtin_exit s v = bnd (lift_val s (to_int_at (heap s) v)) (\<lambda>_. Inl Exit)"

definition builtin_typeof :: "vm \<Rightarrow> ptr \<Rightarrow> native_result" where
  "builtin_typeof s v = vm_compute s (bnd (deref (heap s) v) type_str) StrValue"

subsection \<open>The operating system\<close>

definition builtin_getcwd :: "os \<Rightarrow> vm \<Rightarrow> native_result" where
  "builtin_getcwd E s = (case c_getcwd E of
       Inl d \<Rightarrow> vm_new (StrValue (c_str d)) s
     | Inr e \<Rightarrow> vm_throw s (errno_exception_value E e))"

definition builtin_getpid :: "os \<Rightarrow> vm \<Rightarrow> native_result" where
  "builtin_getpid E s = vm_new (IntValue (c_getpid E)) s"

definition builtin_getppid :: "os \<Rightarrow> vm \<Rightarrow> native_result" where
  "builtin_getppid E s = vm_new (IntValue (c_getppid E)) s"

definition builtin_system :: "os \<Rightarrow> vm \<Rightarrow> ptr \<Rightarrow> native_result" where
  "builtin_system E s v = vm_compute s (to_s_at (heap s) v) (\<lambda>t. IntValue (c_system E (c_str t)))"

text \<open>
  A distribution over an empty range is undefined. Wrong arguments make an exception value that is
  returned, not thrown.
\<close>

definition builtin_rand :: "os \<Rightarrow> vm \<Rightarrow> ptr list \<Rightarrow> native_result" where
  "builtin_rand E s args = (case args of
       [] \<Rightarrow> vm_new (DoubleValue (draw_real E s (dbl_of_int 1))) s
     | [p] \<Rightarrow> bnd (vm_deref s p) (\<lambda>x. case x of
           DoubleValue d \<Rightarrow> if dle (DFin True 0) d then vm_new (DoubleValue (draw_real E s d)) s else Inl Undefined
         | IntValue i \<Rightarrow> if 0 \<le> sint i then vm_new (IntValue (draw_int E s i)) s else Inl Undefined
         | _ \<Rightarrow> bnd (lift_val s (type_str x)) (\<lambda>t.
             vm_new (exception_value (''Invalid arguments for rand() : '' @ t)) s))
     | _ \<Rightarrow> vm_new (exception_value ''Too many arguments for rand()'') s)"

subsection \<open>Numbers\<close>

text \<open>The negation of the least integer overflows.\<close>

definition builtin_abs :: "vm \<Rightarrow> ptr \<Rightarrow> native_result" where
  "builtin_abs s v = bnd (vm_deref s v) (\<lambda>x. case x of
       IntValue i \<Rightarrow> if sint i < 0 then (if sint i = - (2 ^ 31) then Inl Undefined else vm_new (IntValue (- i)) s)
                     else vm_new (IntValue i) s
     | DoubleValue d \<Rightarrow> vm_new (DoubleValue (if dlt d (dbl_of_int 0) then dneg d else d)) s
     | _ \<Rightarrow> vm_throw s (exception_value ''abs() is not supported in non numeric value.''))"

definition builtin_math :: "os \<Rightarrow> string \<Rightarrow> vm \<Rightarrow> ptr \<Rightarrow> native_result" where
  "builtin_math E f s v = vm_compute s (to_double_at (heap s) v) (\<lambda>d. DoubleValue (libm E f d))"

text \<open>Of two arguments that cannot be converted either is reported; the model takes the first.\<close>

definition builtin_atan2 :: "os \<Rightarrow> vm \<Rightarrow> ptr \<Rightarrow> ptr \<Rightarrow> native_result" where
  "builtin_atan2 E s y x = vm_compute s (bnd (to_double_at (heap s) y) (\<lambda>a.
     bnd (to_double_at (heap s) x) (\<lambda>b. Inr (c_atan2 E a b)))) DoubleValue"

definition builtin_int :: "vm \<Rightarrow> ptr \<Rightarrow> native_result" where
  "builtin_int s v = vm_compute s (to_int_at (heap s) v) IntValue"

text \<open>The value of a character as a digit.\<close>

definition digit_of :: "char \<Rightarrow> nat option" where
  "digit_of c = (let n = byte_of c in
     if 48 \<le> n \<and> n \<le> 57 then Some (n - 48)
     else if 97 \<le> n \<and> n \<le> 122 then Some (n - 87)
     else if 65 \<le> n \<and> n \<le> 90 then Some (n - 55)
     else None)"

definition is_digit_of :: "nat \<Rightarrow> char \<Rightarrow> bool" where
  "is_digit_of base c = (case digit_of c of Some d \<Rightarrow> d < base | None \<Rightarrow> False)"

definition digits_value :: "nat \<Rightarrow> string \<Rightarrow> nat" where
  "digits_value base ds = foldl (\<lambda>n c. n * base + the (digit_of c)) 0 ds"

text \<open>\<open>0x\<close> or \<open>0X\<close> before a digit is skipped in base 16.\<close>

definition skip_prefix :: "nat \<Rightarrow> string \<Rightarrow> string" where
  "skip_prefix base s = (case s of
       a # b # c # t \<Rightarrow> if base = 16 \<and> a = CHR ''0'' \<and> (b = CHR ''x'' \<or> b = CHR ''X'') \<and> is_digit_of 16 c
                        then c # t else s
     | _ \<Rightarrow> s)"

text \<open>
  \<open>strtol(s, &endp, base)\<close> of a C string: the value and what is left from \<open>endp\<close> on. Without a digit
  nothing is converted and \<open>endp\<close> is \<open>s\<close>.
\<close>

definition strtol_base :: "nat \<Rightarrow> string \<Rightarrow> int \<times> string" where
  "strtol_base base s =
     (let t = dropWhile is_space s;
          signed = t \<noteq> [] \<and> (hd t = CHR ''-'' \<or> hd t = CHR ''+'');
          u = skip_prefix base (if signed then tl t else t);
          ds = takeWhile (is_digit_of base) u;
          n = int (digits_value base ds)
      in if ds = [] then (0, s)
         else (if signed \<and> hd t = CHR ''-'' then - n else n, dropWhile (is_digit_of base) u))"

definition in_long :: "int \<Rightarrow> bool" where
  "in_long n = (- (2 ^ 63) \<le> n \<and> n < 2 ^ 63)"

text \<open>The conversion of the \<open>long\<close> to \<open>int\<close> keeps the low 32 bits.\<close>

definition read_based :: "os \<Rightarrow> nat \<Rightarrow> string \<Rightarrow> string \<Rightarrow> vm \<Rightarrow> ptr \<Rightarrow> native_result" where
  "read_based E base name bad s v = bnd (vm_deref s v) (\<lambda>x. case x of
       StrValue str \<Rightarrow> (case strtol_base base (c_str str) of (n, rest) \<Rightarrow>
         if \<not> in_long n then vm_throw s (errno_exception_value E ERANGE)
         else if rest \<noteq> [] then vm_throw s (exception_value (bad @ c_str str @ ''.''))
         else vm_new (IntValue (word_of_int n)) s)
     | _ \<Rightarrow> vm_throw s (exception_value (name @ ''() requires string value.'')))"

definition builtin_hex :: "os \<Rightarrow> vm \<Rightarrow> ptr \<Rightarrow> native_result" where
  "builtin_hex E = read_based E 16 ''hex'' ''The value is not hexadecimal: ''"

definition builtin_oct :: "os \<Rightarrow> vm \<Rightarrow> ptr \<Rightarrow> native_result" where
  "builtin_oct E = read_based E 8 ''oct'' ''The value is not oct: ''"

subsection \<open>The frames of the machine\<close>

definition function_frames :: "vm \<Rightarrow> frame list" where
  "function_frames s = filter (\<lambda>f. frame_type f = FRAME_TYPE_FUNCTION) (rev (frame_stack s))"

definition builtin_self :: "vm \<Rightarrow> native_result" where
  "builtin_self s = bnd (get_self s) (\<lambda>s1. bnd (pop s1) (\<lambda>(p, s2). Inr (s2, p)))"

definition builtin_callee :: "vm \<Rightarrow> native_result" where
  "builtin_callee s = (case function_frames s of
       [] \<Rightarrow> vm_new UndefValue s | f # _ \<Rightarrow> Inr (s, frame_code f))"

definition SYMBOL_CALLER_CLASS :: ID where "SYMBOL_CALLER_CLASS = 7"
definition SYMBOL_METACLASS_CLASS :: ID where "SYMBOL_METACLASS_CLASS = 23"

text \<open>The class is looked up for each frame; adding one to the greatest integer overflows.\<close>

definition builtin_caller :: "vm \<Rightarrow> ptr list \<Rightarrow> native_result" where
  "builtin_caller s args =
     (let class = lift_val s (get_builtin_class (builtin_classes s) SYMBOL_CALLER_CLASS);
          fs = function_frames s
      in case args of
        [] \<Rightarrow> if drop 1 fs = [] then vm_new (ArrayValue []) s
          else bnd class (\<lambda>k. let (h, ps) = push_objs (map (\<lambda>f. ObjectValue k (frame_code f) False) (drop 1 fs)) (heap s) []
            in vm_new (ArrayValue ps) (s\<lparr>heap := h\<rparr>))
      | [p] \<Rightarrow> bnd (lift_val s (to_int_at (heap s) p)) (\<lambda>need.
          if fs \<noteq> [] \<and> sint need = 2 ^ 31 - 1 then Inl Undefined
          else if 0 \<le> sint need + 1 \<and> sint need + 1 < int (length fs) then
            bnd class (\<lambda>k. vm_new (ObjectValue k (frame_code (fs ! nat (sint need + 1))) False) s)
          else vm_new UndefValue s)
      | _ \<Rightarrow> vm_throw s (exception_value ''Too many arguments for caller.''))"

definition stack_size :: "vm \<Rightarrow> ptr \<Rightarrow> native_result" where
  "stack_size s _ = vm_new (IntValue (of_nat (length (stack s)))) s"

subsection \<open>Methods of arrays that call code (tora/object/array.cc)\<close>

text \<open>
  The loops hold an iterator of a \<open>std::deque\<close>. Code that changes the length of the array invalidates
  it, which the model takes as undefined whatever the change. \<open>k\<close> elements of \<open>n\<close> are left.
\<close>

definition call_element :: "host \<Rightarrow> runner \<Rightarrow> ptr \<Rightarrow> ptr \<Rightarrow> nat \<Rightarrow> nat \<Rightarrow> vm \<Rightarrow> (vm \<times> ptr) vm_result option" where
  "call_element H ex code src n i s = obnd (ret (lift_val s (as_array (heap s) src))) (\<lambda>ps.
     let (h, u) = alloc UndefValue (heap s)
     in obnd (function_call_ex H ex 1 code (Some u) (push (ps ! i) (s\<lparr>heap := h\<rparr>))) (\<lambda>s1.
        obnd (ret (pop s1)) (\<lambda>(p, s2). obnd (ret (lift_val s2 (as_array (heap s2) src))) (\<lambda>qs.
          if length qs \<noteq> n then ret (Inl Undefined) else ret (Inr (s2, p))))))"

fun map_loop :: "host \<Rightarrow> runner \<Rightarrow> ptr \<Rightarrow> ptr \<Rightarrow> nat \<Rightarrow> nat \<Rightarrow> vm \<Rightarrow> ptr list \<Rightarrow> (vm \<times> ptr list) vm_result option" where
  "map_loop H ex code src n 0 s res = ret (Inr (s, res))"
| "map_loop H ex code src n (Suc k) s res = obnd (call_element H ex code src n (n - Suc k) s) (\<lambda>(s1, p).
     map_loop H ex code src n k s1 (res @ [p]))"

fun grep_loop :: "host \<Rightarrow> runner \<Rightarrow> ptr \<Rightarrow> ptr \<Rightarrow> nat \<Rightarrow> nat \<Rightarrow> vm \<Rightarrow> ptr list \<Rightarrow> (vm \<times> ptr list) vm_result option" where
  "grep_loop H ex code src n 0 s res = ret (Inr (s, res))"
| "grep_loop H ex code src n (Suc k) s res = obnd (call_element H ex code src n (n - Suc k) s) (\<lambda>(s1, p).
     obnd (ret (lift_val s1 (to_bool_at (heap s1) p))) (\<lambda>b.
     obnd (ret (lift_val s1 (as_array (heap s1) src))) (\<lambda>ps.
       grep_loop H ex code src n k s1 (if b then res @ [ps ! (n - Suc k)] else res))))"

fun grep_regexp :: "(string \<Rightarrow> bool) \<Rightarrow> heap \<Rightarrow> ptr list \<Rightarrow> ptr list val_result" where
  "grep_regexp m h [] = Inr []"
| "grep_regexp m h (p # ps) = bnd (to_s_at h p) (\<lambda>str. bnd (grep_regexp m h ps) (\<lambda>qs.
     Inr (if m str then p # qs else qs)))"

definition new_array :: "vm \<times> ptr list \<Rightarrow> native_result option" where
  "new_array r = (case r of (s, ps) \<Rightarrow> ret (vm_new (ArrayValue ps) s))"

definition self_array :: "vm \<Rightarrow> ptr \<Rightarrow> ptr list vm_result" where
  "self_array s p = bnd (vm_deref s p) (\<lambda>x. case x of ArrayValue ps \<Rightarrow> Inr ps | _ \<Rightarrow> Inl Abort)"

definition av_map :: "host \<Rightarrow> runner \<Rightarrow> vm \<Rightarrow> ptr \<Rightarrow> ptr \<Rightarrow> native_result option" where
  "av_map H ex s this code = obnd (ret (self_array s this)) (\<lambda>ps. obnd (ret (vm_deref s code)) (\<lambda>c. case c of
       CodeValue _ \<Rightarrow> obnd (map_loop H ex code this (length ps) (length ps) s []) new_array
     | _ \<Rightarrow> ret (vm_throw s (exception_value ''Code is not a foo''))))"

definition av_grep :: "re_host \<Rightarrow> host \<Rightarrow> runner \<Rightarrow> vm \<Rightarrow> ptr \<Rightarrow> ptr \<Rightarrow> native_result option" where
  "av_grep R H ex s this stuff = obnd (ret (self_array s this)) (\<lambda>ps. obnd (ret (vm_deref s stuff)) (\<lambda>c. case c of
       CodeValue _ \<Rightarrow> obnd (grep_loop H ex stuff this (length ps) (length ps) s []) new_array
     | RegexpValue pat flags \<Rightarrow> obnd (ret (lift_val s (grep_regexp (RE2RegexpValue_match_bool R pat flags) (heap s) ps)))
         (\<lambda>qs. new_array (s, qs))
     | _ \<Rightarrow> ret (vm_throw s (exception_value ''Second argument for Array#grep should be Code or Regexp''))))"

subsection \<open>Methods of code (tora/object/code.cc)\<close>

definition self_code :: "vm \<Rightarrow> ptr \<Rightarrow> code vm_result" where
  "self_code s p = bnd (vm_deref s p) (\<lambda>x. case x of CodeValue c \<Rightarrow> Inr c | _ \<Rightarrow> Inl Abort)"

definition new_name :: "vm \<Rightarrow> ID \<Rightarrow> native_result" where
  "new_name s i = (let (s1, n) = vm_id2name i s in vm_new (StrValue n) s1)"

definition code_package :: "vm \<Rightarrow> ptr \<Rightarrow> native_result" where
  "code_package s this = bnd (self_code s this) (\<lambda>c. new_name s (package_id c))"

definition code_name :: "vm \<Rightarrow> ptr \<Rightarrow> native_result" where
  "code_name s this = bnd (self_code s this) (\<lambda>c. new_name s (func_name_id c))"

definition code_line :: "vm \<Rightarrow> ptr \<Rightarrow> native_result" where
  "code_line s this = bnd (self_code s this) (\<lambda>c. vm_new (IntValue (code_lineno c)) s)"

definition Code_filename :: "vm \<Rightarrow> ptr \<Rightarrow> native_result" where
  "Code_filename s this = bnd (self_code s this) (\<lambda>c. vm_new (StrValue (code_filename c)) s)"

text \<open>The list of closed-over names of a native function is null.\<close>

definition code_is_closure :: "vm \<Rightarrow> ptr \<Rightarrow> native_result" where
  "code_is_closure s this = bnd (self_code s this) (\<lambda>c.
     if is_native c then Inl Undefined else vm_new (BoolValue (closure_var_names c \<noteq> [])) s)"

text \<open>\<open>$code.(...)\<close>: the arguments are pushed again, the first one first.\<close>

definition code_call :: "vm \<Rightarrow> ptr list \<Rightarrow> native_result" where
  "code_call s values = (case values of
       [] \<Rightarrow> Inl Undefined
     | code # args \<Rightarrow> bnd (lift_val s (as_code (heap s) code)) (\<lambda>c.
         if is_native c then Inl Abort
         else bnd (function_call (int (length args)) code code (extract_tuple args s)) (vm_new UndefValue)))"

subsection \<open>Methods of objects, classes and symbols\<close>

definition object_tora :: "nat \<Rightarrow> vm \<Rightarrow> ptr \<Rightarrow> native_result option" where
  "object_tora n s this = obnd (map_option (lift_val s) (obnd (Some (deref (heap s) this)) (inspect n (symbol_table s) (heap s))))
     (\<lambda>t. ret (vm_new (StrValue t) s))"

text \<open>\<open>VM::get_class\<close>: the current file scope, then the built-in classes.\<close>

definition get_class :: "vm \<Rightarrow> ID \<Rightarrow> (vm \<times> ptr) vm_result" where
  "get_class s i =
     (let fail = (\<lambda>msg. let (s1, n) = vm_id2name i s in vm_throw s1 (exception_value (msg (c_str n))));
          found = (\<lambda>p. bnd (vm_deref s p) (\<lambda>x. case x of
            ClassValue _ _ _ \<Rightarrow> Inr (s, p) | _ \<Rightarrow> fail (\<lambda>n. n @ '' is not a class'')))
      in case map_of (current_scope s) i of
           Some p \<Rightarrow> found p
         | None \<Rightarrow> (case map_of (builtin_classes s) i of
             Some p \<Rightarrow> found p
           | None \<Rightarrow> fail (\<lambda>n. ''There is no class named '' @ n)))"

definition object_meta :: "vm \<Rightarrow> ptr \<Rightarrow> native_result" where
  "object_meta s this = bnd (lift_val s (get_builtin_class (builtin_classes s) SYMBOL_METACLASS_CLASS)) (\<lambda>n.
     bnd (vm_deref s this) (\<lambda>x. case x of
       SymbolValue i \<Rightarrow> bnd (get_class s i) (\<lambda>(s1, k). vm_new (ObjectValue n k False) s1)
     | ObjectValue k _ _ \<Rightarrow> vm_new (ObjectValue n k False) s
     | ClassValue _ _ _ \<Rightarrow> vm_new (ObjectValue n this False) s
     | _ \<Rightarrow> bnd (lift_val s (object_package_id (heap s) x)) (\<lambda>i.
         bnd (lift_val s (get_builtin_class (builtin_classes s) i)) (\<lambda>k. vm_new (ObjectValue n k False) s))))"

definition object_isa :: "vm \<Rightarrow> ptr \<Rightarrow> ptr \<Rightarrow> native_result option" where
  "object_isa s this target = obnd (ret (vm_deref s this)) (\<lambda>x. case x of
       ObjectValue k _ _ \<Rightarrow> obnd (ret (lift_val s (to_s_at (heap s) target))) (\<lambda>name.
         let (s1, i) = vm_get_id name s
         in obnd (map_option (lift_val s1) (class_isa (Suc (length (heap s1))) (heap s1) k i)) (\<lambda>b.
           ret (vm_new (BoolValue b) s1)))
     | _ \<Rightarrow> ret (Inl Abort))"

definition object_bless :: "vm \<Rightarrow> ptr \<Rightarrow> ptr \<Rightarrow> native_result" where
  "object_bless s this data = bnd (vm_deref s this) (\<lambda>x. case x of
       ClassValue _ _ _ \<Rightarrow> vm_new (ObjectValue this data False) s
     | _ \<Rightarrow> vm_throw s (exception_value ''You cannot bless non-class value.''))"

definition Symbol_bless :: "vm \<Rightarrow> ptr \<Rightarrow> ptr \<Rightarrow> native_result" where
  "Symbol_bless s this data = bnd (vm_deref s this) (\<lambda>x. case x of
       SymbolValue i \<Rightarrow> bnd (get_class s i) (\<lambda>(s1, k). vm_new (ObjectValue k data False) s1)
     | _ \<Rightarrow> Inl Abort)"

definition caller_code :: "vm \<Rightarrow> ptr \<Rightarrow> native_result" where
  "caller_code s this = bnd (vm_deref s this) (\<lambda>x. case x of ObjectValue _ d _ \<Rightarrow> Inr (s, d) | _ \<Rightarrow> Inl Abort)"

definition Class_name :: "vm \<Rightarrow> ptr \<Rightarrow> native_result" where
  "Class_name s this = bnd (lift_val s (as_class (heap s) this)) (\<lambda>(i, _). new_name s i)"

subsection \<open>Methods of meta objects (tora/object/metaclass.cc)\<close>

definition meta_class :: "vm \<Rightarrow> ptr \<Rightarrow> ptr vm_result" where
  "meta_class s this = bnd (vm_deref s this) (\<lambda>x. case x of ObjectValue _ d _ \<Rightarrow> Inr d | _ \<Rightarrow> Inl Undefined)"

definition mc_has_method :: "vm \<Rightarrow> ptr \<Rightarrow> ptr \<Rightarrow> native_result" where
  "mc_has_method s this name = bnd (lift_val s (to_s_at (heap s) name)) (\<lambda>n.
     let (s1, i) = vm_get_id n s
     in bnd (meta_class s1 this) (\<lambda>k. vm_compute s1 (has_method (heap s1) k i) BoolValue))"

fun names_of_ids :: "ID list \<Rightarrow> vm \<Rightarrow> vm \<times> string list" where
  "names_of_ids [] s = (s, [])"
| "names_of_ids (i # is) s = (let (s1, n) = vm_id2name i s; (s2, ns) = names_of_ids is s1 in (s2, n # ns))"

text \<open>\<open>ClassValue::get_method_list\<close>\<close>

definition get_method_list :: "vm \<Rightarrow> ptr \<Rightarrow> native_result" where
  "get_method_list s k = bnd (lift_val s (as_class (heap s) k)) (\<lambda>(_, _, ms).
     let (s1, ns) = names_of_ids (map fst ms) s;
         (h, ps) = push_strs ns (heap s1) []
     in vm_new (ArrayValue ps) (s1\<lparr>heap := h\<rparr>))"

definition mc_get_method_list :: "vm \<Rightarrow> ptr \<Rightarrow> native_result" where
  "mc_get_method_list s this = bnd (meta_class s this) (get_method_list s)"

definition mc_name :: "vm \<Rightarrow> ptr \<Rightarrow> native_result" where
  "mc_name s this = bnd (meta_class s this) (Class_name s)"

definition mc_superclass :: "vm \<Rightarrow> ptr \<Rightarrow> native_result" where
  "mc_superclass s this = bnd (meta_class s this) (\<lambda>k. bnd (lift_val s (as_class (heap s) k)) (\<lambda>(_, super, _).
     if super \<noteq> None then Inr (s, super) else vm_new UndefValue s))"

text \<open>\<open>bless\<close> of a meta object takes the object itself for a class.\<close>

definition mc_bless :: "vm \<Rightarrow> ptr \<Rightarrow> ptr \<Rightarrow> native_result" where
  "mc_bless s this data = bnd (vm_deref s this) (\<lambda>x. case x of
       ClassValue _ _ _ \<Rightarrow> vm_new (ObjectValue this data False) s | _ \<Rightarrow> Inl Undefined)"

end
