(* ===== verification/Tora_Eval.thy ===== *)
theory Tora_Eval
  imports Tora_Builtin Tora_Compiler
begin

text \<open>
  Evaluating and loading source text while a program runs (\<open>VM::eval\<close>, \<open>VM::require_package\<close>,
  \<open>VM::use\<close> of \<open>tora/vm.cc\<close>), the table of built-in functions, and the machine with these functions
  as its host. The scanner and the parser are generated by re2c and lemon and are a parameter: for a
  file name and a text they say whether the text ends inside a here-document and give the tree.
\<close>

record loader =
  parse_text :: "string \<Rightarrow> string \<Rightarrow> bool \<times> node option"
  re2_accepts :: "string \<Rightarrow> i32 \<Rightarrow> bool"
  stat_exists :: "string \<Rightarrow> bool"
  open_text :: "string \<Rightarrow> string + i32"

subsection \<open>Evaluating a text (VM::eval)\<close>

definition drop_frames :: "nat \<Rightarrow> vm \<Rightarrow> vm" where
  "drop_frames n s = (pop_frame ^^ (length (frame_stack s) - n)) s"

text \<open>What runs between saving and restoring the state: scanning, parsing, compiling.\<close>

definition compile_text :: "loader \<Rightarrow> string \<Rightarrow> string \<Rightarrow> vm \<Rightarrow> (vm \<times> op_array) vm_result" where
  "compile_text L text fname s = (case parse_text L fname text of (heredoc, tree) \<Rightarrow>
     if heredoc then vm_throw s (exception_value ''Unexpected EOF in heredoc.'')
     else case tree of
       None \<Rightarrow> vm_throw s (exception_value ''Parsing failed.'')
     | Some n \<Rightarrow> bnd (lift_val s (seq comp_init_globals (compile (re2_accepts L) 0 n)
           (new_compiler (symbol_table s) (heap s) fname))) (\<lambda>c.
         let s1 = s\<lparr>heap := values c, symbol_table := comp_symtab c\<rparr>
         in if error c \<noteq> 0 then vm_throw s1 (exception_value ''Compilation failed.'')
            else Inr (s1, comp_ops c)))"

definition leave_eval :: "vm \<Rightarrow> vm \<Rightarrow> native_result" where
  "leave_eval orig s =
     (let s1 = drop_frames (length (frame_stack orig)) (s\<lparr>vm_ops := vm_ops orig, pc := pc orig\<rparr>);
          n = length (stack orig)
      in if n < length (stack s1) then Inr (s1\<lparr>stack := take n (stack s1)\<rparr>, last (stack s1))
         else vm_new UndefValue s1)"

definition vm_eval :: "loader \<Rightarrow> runner \<Rightarrow> string \<Rightarrow> string \<Rightarrow> vm \<Rightarrow> native_result option" where
  "vm_eval L ex text fname s = obnd (ret (compile_text L text fname s)) (\<lambda>(s1, code).
     obnd (ex (s1\<lparr>vm_ops := code, pc := 0\<rparr>)) (\<lambda>s2. ret (leave_eval s1 s2)))"

definition builtin_eval :: "loader \<Rightarrow> runner \<Rightarrow> vm \<Rightarrow> ptr \<Rightarrow> native_result option" where
  "builtin_eval L ex s v = obnd (ret (vm_deref s v)) (\<lambda>x. case x of
       StrValue t \<Rightarrow> vm_eval L ex (t @ '';'') ''<eval>'' s | _ \<Rightarrow> ret (Inl Abort))"

definition builtin_do :: "os \<Rightarrow> loader \<Rightarrow> runner \<Rightarrow> vm \<Rightarrow> ptr \<Rightarrow> native_result option" where
  "builtin_do E L ex s v = obnd (ret (vm_deref s v)) (\<lambda>x. case x of
       StrValue t \<Rightarrow> (case open_text L (c_str t) of
           Inl text \<Rightarrow> vm_eval L ex text t s
         | Inr e \<Rightarrow> ret (vm_throw s (exception_of_string (t @ '' : '' @ strerror E e))))
     | _ \<Rightarrow> ret (Inl Abort))"

subsection \<open>Packages (VM::require_package, VM::use)\<close>

function slashes :: "string \<Rightarrow> string" where
  "slashes s = (case str_find s ''::'' 0 of
       Some i \<Rightarrow> slashes (take i s @ ''/'' @ drop (i + 2) s)
     | None \<Rightarrow> s)"
  by pat_completeness auto
termination
  by (relation "measure length") (auto simp: str_find_def find_at_Some)

declare slashes.simps [simp del]

definition package_file :: "string \<Rightarrow> string" where
  "package_file pkg = slashes pkg @ ''.tra''"

text \<open>The first directory of \<open>$LIBPATH\<close> with such a file.\<close>

fun find_library :: "loader \<Rightarrow> heap \<Rightarrow> string \<Rightarrow> ptr list \<Rightarrow> string option val_result" where
  "find_library L h f [] = Inr None"
| "find_library L h f (p # ps) = bnd (to_s_at h p) (\<lambda>d. let r = d @ ''/'' @ f
     in if stat_exists L (c_str r) then Inr (Some r) else find_library L h f ps)"

fun library_paths :: "heap \<Rightarrow> ptr list \<Rightarrow> string val_result" where
  "library_paths h [] = Inr ''''"
| "library_paths h (p # ps) = bnd (to_s_at h p) (\<lambda>d. bnd (library_paths h ps) (\<lambda>t. Inr ('' '' @ d @ t)))"

text \<open>\<open>required->set_item\<close>\<close>

definition set_required :: "ptr \<Rightarrow> string \<Rightarrow> ptr \<Rightarrow> vm \<Rightarrow> vm vm_result" where
  "set_required req f v s = bnd (lift_val s (as_hash (heap s) req)) (\<lambda>m.
     Inr (s\<lparr>heap := store req (HashValue (hash_set f v m)) (heap s)\<rparr>))"

text \<open>A new file scope; one that the map already has for the package stays in the map.\<close>

definition enter_file_scope :: "ID \<Rightarrow> vm \<Rightarrow> vm" where
  "enter_file_scope i s = s\<lparr>scopes := scopes s @ [[]], file_scope := length (scopes s),
     file_scope_map := map_insert i (length (scopes s)) (file_scope_map s)\<rparr>"

definition load_file :: "os \<Rightarrow> loader \<Rightarrow> runner \<Rightarrow> string \<Rightarrow> ptr \<Rightarrow> string \<Rightarrow> string \<Rightarrow> vm \<Rightarrow> vm vm_result option" where
  "load_file E L ex pkg req f r s = (case open_text L (c_str r) of
       Inl text \<Rightarrow>
         (let (h, a) = alloc (StrValue r) (heap s);
              (s1, i) = vm_get_id pkg (s\<lparr>heap := h\<rparr>)
          in obnd (vm_eval L ex text r (enter_file_scope i s1)) (\<lambda>(s2, _).
             obnd (ret (set_required req f (Some a) s2)) (\<lambda>s3. ret (Inr (s3\<lparr>file_scope := file_scope s\<rparr>)))))
     | Inr e \<Rightarrow>
         (let (h, a) = alloc UndefValue (heap s)
          in obnd (ret (set_required req f (Some a) (s\<lparr>heap := h\<rparr>))) (\<lambda>s1.
             ret (vm_throw s1 (exception_of_string (r @ '' : '' @ strerror E e))))))"

definition require_package :: "os \<Rightarrow> loader \<Rightarrow> runner \<Rightarrow> string \<Rightarrow> vm \<Rightarrow> vm vm_result option" where
  "require_package E L ex pkg s =
     (if length (global_vars s) \<le> 3 then ret (Inl Std_exception)
      else let libpath = global_vars s ! 2; req = global_vars s ! 3; f = package_file pkg in
      obnd (ret (lift_val s (as_hash (heap s) req))) (\<lambda>m. case map_of m f of
        Some v \<Rightarrow> obnd (ret (vm_deref s v)) (\<lambda>x.
          if x = UndefValue then ret (vm_throw s (StrValue ''Compilation failed in require'')) else ret (Inr s))
      | None \<Rightarrow> obnd (ret (lift_val s (as_array (heap s) libpath))) (\<lambda>ps.
          obnd (ret (lift_val s (find_library L (heap s) f ps))) (\<lambda>r. case r of
            Some r \<Rightarrow> load_file E L ex pkg req f r s
          | None \<Rightarrow> obnd (ret (lift_val s (library_paths (heap s) ps))) (\<lambda>t.
              ret (vm_throw s (exception_of_string (''Cannot find '' @ f @ '' in $LIBPATH\<newline>'' @ t))))))))"

definition builtin_require :: "os \<Rightarrow> loader \<Rightarrow> runner \<Rightarrow> vm \<Rightarrow> ptr \<Rightarrow> native_result option" where
  "builtin_require E L ex s v = obnd (ret (vm_deref s v)) (\<lambda>x. case x of
       SymbolValue i \<Rightarrow> (let (s1, name) = vm_id2name i s
         in obnd (require_package E L ex name s1) (\<lambda>s2. ret (vm_new UndefValue s2)))
     | _ \<Rightarrow> ret (Inl Undefined))"

text \<open>
  \<open>file_scope_map_[i]\<close> of a package without an entry is a null pointer, which is read here or when the
  file package is used; the model takes both as undefined.
\<close>

definition copy_all_public_symbols :: "nat \<Rightarrow> vm \<Rightarrow> vm" where
  "copy_all_public_symbols src s = foldl (\<lambda>s (i, p). scope_insert i p s) s (scopes s ! src)"

definition vm_use :: "os \<Rightarrow> loader \<Rightarrow> runner \<Rightarrow> vm \<Rightarrow> ptr \<Rightarrow> bool \<Rightarrow> vm vm_result option" where
  "vm_use E L ex s pkg need_copy = obnd (ret (vm_deref s pkg)) (\<lambda>x. case x of
       SymbolValue i \<Rightarrow> (let (s1, name) = vm_id2name i s
         in obnd (require_package E L ex name s1) (\<lambda>s2. case map_of (file_scope_map s2) i of
              None \<Rightarrow> ret (Inl Undefined)
            | Some src \<Rightarrow>
                if need_copy then ret (Inr (copy_all_public_symbols src s2))
                else let (h, a) = alloc (FilePackageValue i src) (heap s2)
                  in ret (Inr (scope_insert i (Some a) (s2\<lparr>heap := h\<rparr>)))))
     | _ \<Rightarrow> ret (Inl Undefined))"

subsection \<open>The table of built-in functions (Init_builtins, VM::register_standard_methods)\<close>

definition add_builtin_class :: "ptr \<Rightarrow> vm \<Rightarrow> vm vm_result" where
  "add_builtin_class k s = bnd (lift_val s (as_class (heap s) k)) (\<lambda>(i, _).
     Inr (s\<lparr>builtin_classes := map_insert i k (builtin_classes s)\<rparr>))"

definition add_builtin_function :: "string \<times> callback \<Rightarrow> vm \<Rightarrow> vm" where
  "add_builtin_function f s = (case f of (name, cb) \<Rightarrow>
     (let (s1, i) = vm_get_id name s; (h, a) = alloc (CodeValue (new_native_code 0 i cb)) (heap s1)
      in s1\<lparr>heap := h, builtin_functions := map_insert i (Some a) (builtin_functions s1)\<rparr>))"

definition builtin_table :: "(string \<times> callback) list" where
  "builtin_table = [
     (''p'', Func_vm1 0), (''exit'', Func_vm1 1), (''say'', Func_vmv 2), (''typeof'', Func_vm1 3),
     (''open'', Func_vmv 4), (''print'', Func_vmv 5), (''require'', Func_vm1 6), (''self'', Func_vm0 7),
     (''opendir'', Func_vm1 8), (''rand'', Func_vmv 9), (''caller'', Func_vmv 10), (''callee'', Func_vm0 11),
     (''getcwd'', Func_vm0 12), (''getpid'', Func_vm0 13), (''getppid'', Func_vm0 14), (''system'', Func_vm1 15),
     (''printf'', Func_vmv 16), (''sprintf'', Func_vmv 17), (''sqrt'', Func_vm1 18), (''abs'', Func_vm1 19),
     (''atan2'', Func_vm2 20), (''cos'', Func_vm1 21), (''exp'', Func_vm1 22), (''hex'', Func_vm1 23),
     (''int'', Func_vm1 24), (''log'', Func_vm1 25), (''oct'', Func_vm1 26), (''sin'', Func_vm1 27),
     (''eval'', Func_vm1 28), (''do'', Func_vm1 29)]"

definition Init_builtins :: "vm \<Rightarrow> vm" where
  "Init_builtins s = foldl (\<lambda>s f. add_builtin_function f s) s builtin_table"

end
