(* ===== verification/Tora_Program.thy ===== *)
theory Tora_Program
  imports Tora_Eval Tora_Vm_Props
begin

text \<open>
  The machine with the built-in functions as its native code: running a program runs functions that
  run programs again (\<open>eval\<close>, \<open>do\<close>, \<open>require\<close>, \<open>use\<close>), so the host of a run with fuel is built from
  the run with less fuel. What is printed is dropped here. \<open>open\<close> and \<open>opendir\<close> and the native
  methods stay those of the host \<open>H\<^sub>0\<close>.
\<close>

subsection \<open>Calling a built-in function by its number\<close>





subsection \<open>The machine\<close>



subsection \<open>More fuel keeps the result\<close>

definition host_extends :: "host \<Rightarrow> host \<Rightarrow> bool" where
  "host_extends H H' = ((\<forall>f s args. le_opt (native H f s args) (native H' f s args)) \<and>
     (\<forall>s p b. le_opt (use_package H s p b) (use_package H' s p b)) \<and>
     host_pow H' = host_pow H \<and> file_stat H' = file_stat H \<and> refcnt H' = refcnt H)"

named_theorems host_mono

lemma le_native [host_mono]: "host_extends H H' \<Longrightarrow> le_opt (native H f s args) (native H' f s args)"
  by (simp add: host_extends_def)

lemma le_use [host_mono]: "host_extends H H' \<Longrightarrow> le_opt (use_package H s p b) (use_package H' s p b)"
  by (simp add: host_extends_def)

lemma host_same:
  assumes "host_extends H H'"
  shows "host_pow H' = host_pow H" "file_stat H' = file_stat H" "refcnt H' = refcnt H"
  using assms by (simp_all add: host_extends_def)

lemma le_call_fixed [host_mono]:
  assumes e: "host_extends H H'" shows "le_opt (call_fixed H b w f n s) (call_fixed H' b w f n s)"
  by (auto simp: call_fixed_def intro!: le_opt_intros host_mono e)

lemma le_call_native_func [host_mono]:
  assumes e: "host_extends H H'" shows "le_opt (call_native_func H cb n s) (call_native_func H' cb n s)"
  by (auto simp: call_native_func_def intro!: le_opt_intros host_mono e split: callback.split)

lemma le_function_call_ex2 [host_mono]:
  assumes e: "host_extends H H'" and x: "extends ex ex'"
  shows "le_opt (function_call_ex H ex n p v s) (function_call_ex H' ex' n p v s)"
  by (auto simp: function_call_ex_def Let_def intro!: le_opt_intros host_mono e le_opt_extends [OF x] split: option.split)

lemma le_invoke_method [host_mono]:
  assumes e: "host_extends H H'" shows "le_opt (invoke_method H p q s) (invoke_method H' p q s)"
  by (auto simp: invoke_method_def Let_def intro!: le_opt_intros host_mono e split: option.split obj.split)

lemma le_call_method_of [host_mono]:
  assumes e: "host_extends H H'" shows "le_opt (call_method_of H p b k f s) (call_method_of H' p b k f s)"
  by (auto simp: call_method_of_def Let_def intro!: le_opt_intros host_mono e split: option.split sum.split)

lemma le_call_builtin_class_method [host_mono]:
  assumes e: "host_extends H H'" shows "le_opt (call_builtin_class_method H p x f s) (call_builtin_class_method H' p x f s)"
  by (auto simp: call_builtin_class_method_def Let_def intro!: le_opt_intros host_mono e split: prod.split)

lemma le_call_method2 [host_mono]:
  assumes e: "host_extends H H'" and x: "extends ex ex'"
  shows "le_opt (call_method H ex p q s) (call_method H' ex' p q s)"
  by (auto simp: call_method_def Let_def intro!: le_opt_intros host_mono e x split: option.split obj.split)

lemma le_pp_builtin_funcall [host_mono]:
  assumes e: "host_extends H H'" shows "le_opt (pp_builtin_funcall H s) (pp_builtin_funcall H' s)"
  by (auto simp: pp_builtin_funcall_def Let_def intro!: le_opt_intros host_mono e split: option.split)

lemma le_pp_method_call [host_mono]:
  assumes e: "host_extends H H'" and x: "extends ex ex'"
  shows "le_opt (pp_method_call H ex s) (pp_method_call H' ex' s)"
  by (auto simp: pp_method_call_def Let_def intro!: le_opt_intros host_mono e x)

lemma le_pp_funcall2 [host_mono]:
  assumes e: "host_extends H H'" and x: "extends ex ex'"
  shows "le_opt (pp_funcall H ex s) (pp_funcall H' ex' s)"
  by (auto simp: pp_funcall_def Let_def intro!: le_opt_intros host_mono e x split: option.split obj.split prod.split)

lemma le_call_without_arguments [host_mono]:
  assumes e: "host_extends H H'" shows "le_opt (call_without_arguments H p s) (call_without_arguments H' p s)"
  by (auto simp: call_without_arguments_def Let_def intro!: le_opt_intros host_mono e split: option.split)

lemma le_pp_instanciate_identifier [host_mono]:
  assumes e: "host_extends H H'" shows "le_opt (pp_instanciate_identifier H s) (pp_instanciate_identifier H' s)"
  by (auto simp: pp_instanciate_identifier_def Let_def intro!: le_opt_intros host_mono e split: option.split obj.split)

lemma le_object_item [host_mono]:
  assumes e: "host_extends H H'"
  shows "le_opt (object_get_item H k p q s) (object_get_item H' k p q s)"
    "le_opt (object_set_item H k p q v s) (object_set_item H' k p q v s)"
  by (auto simp: object_get_item_def object_set_item_def Let_def intro!: le_opt_intros host_mono e
      split: option.split callback.split obj.split)

lemma le_pp_item [host_mono]:
  assumes e: "host_extends H H'"
  shows "le_opt (pp_get_item H s) (pp_get_item H' s)" "le_opt (pp_set_item H s) (pp_set_item H' s)"
  by (auto simp: pp_get_item_def pp_set_item_def Let_def intro!: le_opt_intros host_mono e split: option.split obj.split)

lemma le_new_iterator [host_mono]:
  assumes e: "host_extends H H'" shows "le_opt (new_iterator H a x s) (new_iterator H' a x s)"
  by (auto simp: new_iterator_def Let_def intro!: le_opt_intros host_mono e split: option.split obj.split prod.split)

lemma le_pp_enter_foreach [host_mono]:
  assumes e: "host_extends H H'" shows "le_opt (pp_enter_foreach H s) (pp_enter_foreach H' s)"
  by (auto simp: pp_enter_foreach_def Let_def intro!: le_opt_intros host_mono e)

lemma le_pp_for_iter [host_mono]:
  assumes e: "host_extends H H'" shows "le_opt (pp_for_iter H s) (pp_for_iter H' s)"
proof -
  have "range_value H' = range_value H" by (intro ext) (simp add: range_value_def host_same [OF e])
  then show ?thesis
    by (auto simp: pp_for_iter_def Let_def intro!: le_opt_intros host_mono e split: option.split obj.split prod.split)
qed

lemma le_pp_use [host_mono]:
  assumes e: "host_extends H H'" shows "le_opt (pp_use H s) (pp_use H' s)"
  by (auto simp: pp_use_def Let_def intro!: le_opt_intros host_mono e)







lemma le_vm_eval [host_mono]:
  assumes x: "extends ex ex'" shows "le_opt (vm_eval L ex text f s) (vm_eval L ex' text f s)"
  by (auto simp: vm_eval_def intro!: le_opt_intros le_opt_extends [OF x])

lemma le_load_file [host_mono]:
  assumes x: "extends ex ex'" shows "le_opt (load_file E L ex p q f r s) (load_file E L ex' p q f r s)"
  by (auto simp: load_file_def Let_def intro!: le_opt_intros host_mono x split: sum.split prod.split)

lemma le_require_package [host_mono]:
  assumes x: "extends ex ex'" shows "le_opt (require_package E L ex p s) (require_package E L ex' p s)"
  by (auto simp: require_package_def Let_def intro!: le_opt_intros host_mono x split: option.split)









end
