(* ===== verification/Tora_Builtin_Props.thy ===== *)
theory Tora_Builtin_Props
  imports Tora_Eval Tora_Vm_Props
begin

text \<open>
  What the built-in functions do: which of them the machine knows, hexadecimal and octal numbers, the
  objects of \<open>caller\<close>, and the arguments of a call through \<open>$code.(...)\<close>.
\<close>

subsection \<open>Registration\<close>

definition registered :: "(string \<times> callback) list \<Rightarrow> vm \<Rightarrow> bool" where
  "registered fs s = (symtab_ok (symbol_table s) \<and>
     (\<forall>(n, cb) \<in> set fs. \<exists>i p c. symbol_known n i (symbol_table s) \<and> map_of (builtin_functions s) i = Some p \<and>
       as_code (heap s) p = Inr c \<and> callback c = Some cb) \<and>
     (\<forall>i. map_of (builtin_functions s) i \<noteq> None \<longrightarrow> (\<exists>n \<in> fst ` set fs. symbol_known n i (symbol_table s))))"

lemma symbol_known_unique:
  "symbol_known n i t \<Longrightarrow> symbol_known n j t \<Longrightarrow> i = j" "symbol_known n i t \<Longrightarrow> symbol_known m i t \<Longrightarrow> n = m"
  by (auto simp: symbol_known_def intro: signed_word_eqI)

lemma as_code_iff: "as_code h p = Inr c \<longleftrightarrow> deref h p = Inr (CodeValue c)"
  by (cases "deref h p") (auto simp: as_code_def split: obj.splits)

lemma as_code_append: "as_code h p = Inr c \<Longrightarrow> as_code (h @ h') p = Inr c"
  by (simp add: as_code_iff deref_append)

lemma get_id_counter: "counter (fst (get_id n t)) \<le> counter t + 1"
  by (auto simp: get_id_def Let_def split: option.split)

lemma registered_add:
  assumes "registered fs s" "counter (symbol_table s) < 2 ^ 31" "n \<notin> fst ` set fs"
  shows "registered (fs @ [(n, cb)]) (add_builtin_function (n, cb) s)"
    "counter (symbol_table (add_builtin_function (n, cb) s)) \<le> counter (symbol_table s) + 1"
proof -
  obtain t i where g: "get_id n (symbol_table s) = (t, i)" by fastforce
  let ?a = "length (heap s)"
  let ?c = "CodeValue (new_native_code 0 i cb)"
  have s': "add_builtin_function (n, cb) s = s\<lparr>symbol_table := t, heap := heap s @ [?c],
      builtin_functions := map_insert i (Some ?a) (builtin_functions s)\<rparr>" (is "_ = ?s")
    by (simp add: add_builtin_function_def vm_get_id_def g alloc_def Let_def)
  have ok: "symtab_ok (symbol_table s)" using assms(1) by (simp add: registered_def)
  have kn: "symbol_known n i t" using symbol_known_get_id [OF ok assms(2), of n] g by simp
  have st: "symbol_known m j (symbol_table s) \<Longrightarrow> symbol_known m j t" for m j
    using symbol_known_stable [OF ok, of m j n] g by simp
  have none: "map_of (builtin_functions s) i = None"
  proof (rule ccontr)
    assume "map_of (builtin_functions s) i \<noteq> None"
    then obtain m where "m \<in> fst ` set fs" "symbol_known m i (symbol_table s)" using assms(1) unfolding registered_def by blast
    then show False using symbol_known_unique(2) [OF kn st] assms(3) by blast
  qed
  then have look: "map_of (builtin_functions ?s) j = (if j = i then Some (Some ?a) else map_of (builtin_functions s) j)" for j
    by (simp add: map_of_map_insert)
  have old: "\<exists>j p c. symbol_known m j t \<and> map_of (builtin_functions ?s) j = Some p \<and> as_code (heap ?s) p = Inr c \<and> callback c = Some d"
    if "(m, d) \<in> set fs" for m d
  proof -
    obtain j p c where j: "symbol_known m j (symbol_table s)" "map_of (builtin_functions s) j = Some p"
      "as_code (heap s) p = Inr c" "callback c = Some d" using assms(1) \<open>(m, d) \<in> set fs\<close> unfolding registered_def by blast
    then have "j \<noteq> i" using none by auto
    then show ?thesis using j st look as_code_append [OF j(3)] by (intro exI [of _ j] exI [of _ p] exI [of _ c]) simp
  qed
  have new: "\<exists>j p c. symbol_known n j t \<and> map_of (builtin_functions ?s) j = Some p \<and> as_code (heap ?s) p = Inr c \<and> callback c = Some cb"
    using kn look by (intro exI [of _ i] exI [of _ "Some ?a"] exI [of _ "new_native_code 0 i cb"])
      (simp add: as_code_iff new_native_code_def)
  have dom: "\<exists>m \<in> fst ` set (fs @ [(n, cb)]). symbol_known m j t" if "map_of (builtin_functions ?s) j \<noteq> None" for j
  proof (cases "j = i")
    case True
    then show ?thesis using kn by simp
  next
    case False
    then have "map_of (builtin_functions s) j \<noteq> None" using that look by simp
    then obtain m where "m \<in> fst ` set fs" "symbol_known m j (symbol_table s)" using assms(1) unfolding registered_def by blast
    then show ?thesis using st by auto
  qed
  have "symtab_ok t" using symtab_ok_get_id [OF ok, of n] g by simp
  then have "registered (fs @ [(n, cb)]) ?s"
    unfolding registered_def by (intro conjI ballI allI impI) (use old new dom in \<open>auto simp del: map_of_map_insert\<close>)
  then show "registered (fs @ [(n, cb)]) (add_builtin_function (n, cb) s)" unfolding s' .
  show "counter (symbol_table (add_builtin_function (n, cb) s)) \<le> counter (symbol_table s) + 1"
    unfolding s' using get_id_counter [of n "symbol_table s"] g by simp
qed

lemma registered_all:
  "registered fs s \<Longrightarrow> counter (symbol_table s) + int (length gs) \<le> 2 ^ 31 \<Longrightarrow> distinct (map fst (fs @ gs)) \<Longrightarrow>
    registered (fs @ gs) (foldl (\<lambda>s f. add_builtin_function f s) s gs)"
proof (induction gs arbitrary: fs s)
  case (Cons g gs)
  obtain n cb where g: "g = (n, cb)" by fastforce
  have *: "counter (symbol_table s) < 2 ^ 31" "n \<notin> fst ` set fs" using Cons.prems g by auto
  have "registered ((fs @ [(n, cb)]) @ gs) (foldl (\<lambda>s f. add_builtin_function f s) (add_builtin_function (n, cb) s) gs)"
    by (rule Cons.IH [OF registered_add(1) [OF Cons.prems(1) *]]) (use registered_add(2) [OF Cons.prems(1) *, of cb] Cons.prems g in auto)
  then show ?case using g by simp
qed simp

lemma table_names: "distinct (map fst builtin_table)" "length builtin_table = 30"
  by code_simp+

definition compiler_list :: "string list" where
  "compiler_list = [''say'', ''__PACKAGE__'', ''p'', ''require'', ''eval'', ''do'', ''print'', ''self'',
     ''opendir'', ''typeof'', ''rand'', ''open'', ''exit'', ''dump_stack'', ''caller'', ''callee'', ''getcwd'',
     ''getpid'', ''getppid'', ''system'', ''abs'', ''atan2'', ''cos'', ''exp'', ''hex'', ''int'', ''log'', ''oct'',
     ''rand'', ''sin'', ''sqrt'', ''srand'', ''sprintf'', ''printf'']"

lemma compiler_names: "is_builtin n \<longleftrightarrow> n \<in> fst ` set builtin_table \<or> n \<in> {''__PACKAGE__'', ''dump_stack'', ''srand''}"
proof -
  let ?machine = "map fst builtin_table @ [''__PACKAGE__'', ''dump_stack'', ''srand'']"
  have "list_all (\<lambda>n. n \<in> set ?machine) compiler_list" "list_all (\<lambda>n. n \<in> set compiler_list) ?machine" by code_simp+
  then have "set compiler_list = set ?machine" unfolding list_all_iff by blast
  then show ?thesis unfolding is_builtin_def compiler_list_def [symmetric] by auto
qed

text \<open>C5. After \<open>register_standard_methods\<close> every built-in function has its native code under the
  number of its name, and nothing else is registered. The compiler emits calls of built-in functions
  for exactly these names and three more, \<open>__PACKAGE__\<close>, \<open>dump_stack\<close> and \<open>srand\<close>, which the
  machine does not know: such a call reads behind the end of the table.\<close>

theorem builtins_registered:
  assumes "symtab_ok (symbol_table s)" "counter (symbol_table s) + 30 \<le> 2 ^ 31" "builtin_functions s = []"
    "symbol_known name i (symbol_table (Init_builtins s))"
  shows "(is_builtin name \<longleftrightarrow> name \<in> fst ` set builtin_table \<or> name \<in> {''__PACKAGE__'', ''dump_stack'', ''srand''}) \<and>
    (case map_of builtin_table name of
       Some cb \<Rightarrow> \<exists>p c. map_of (builtin_functions (Init_builtins s)) i = Some p \<and>
         as_code (heap (Init_builtins s)) p = Inr c \<and> callback c = Some cb
     | None \<Rightarrow> map_of (builtin_functions (Init_builtins s)) i = None)"
proof -
  have "registered [] s" using assms(1,3) by (simp add: registered_def)
  then have "registered ([] @ builtin_table) (foldl (\<lambda>s f. add_builtin_function f s) s builtin_table)"
    by (rule registered_all) (use assms(2) table_names in simp_all)
  then have r: "registered builtin_table (Init_builtins s)" by (simp only: append_Nil Init_builtins_def)
  then have fwd: "\<exists>j p c. symbol_known n j (symbol_table (Init_builtins s)) \<and> map_of (builtin_functions (Init_builtins s)) j = Some p \<and>
      as_code (heap (Init_builtins s)) p = Inr c \<and> callback c = Some cb" if "(n, cb) \<in> set builtin_table" for n cb
    using that unfolding registered_def by fast
  from r have bwd: "\<exists>n \<in> fst ` set builtin_table. symbol_known n j (symbol_table (Init_builtins s))"
    if "map_of (builtin_functions (Init_builtins s)) j \<noteq> None" for j
    using that unfolding registered_def by fast
  have "case map_of builtin_table name of
      Some cb \<Rightarrow> \<exists>p c. map_of (builtin_functions (Init_builtins s)) i = Some p \<and>
        as_code (heap (Init_builtins s)) p = Inr c \<and> callback c = Some cb
    | None \<Rightarrow> map_of (builtin_functions (Init_builtins s)) i = None" (is "?known")
  proof (cases "map_of builtin_table name")
    case None
    then have "name \<notin> fst ` set builtin_table" by (simp only: map_of_eq_None_iff not_False_eq_True)
    then have "map_of (builtin_functions (Init_builtins s)) i = None"
      using bwd [of i] symbol_known_unique(2) [OF assms(4)] by fast
    then show ?thesis unfolding None option.case .
  next
    case (Some cb)
    obtain j p c where j: "symbol_known name j (symbol_table (Init_builtins s))"
      "map_of (builtin_functions (Init_builtins s)) j = Some p" "as_code (heap (Init_builtins s)) p = Inr c" "callback c = Some cb"
      using fwd [OF map_of_SomeD [OF Some]] by (elim exE conjE)
    show ?thesis unfolding Some option.case symbol_known_unique(1) [OF assms(4) j(1)] using j(2-) by (intro exI conjI)
  qed
  with compiler_names show ?thesis by (rule conjI)
qed

theorem builtins_registered_witness:
  "\<exists>i p c. symbol_known ''abs'' i (symbol_table (Init_builtins (new_vm end_ops empty_symtab))) \<and>
    map_of (builtin_functions (Init_builtins (new_vm end_ops empty_symtab))) i = Some p \<and>
    as_code (heap (Init_builtins (new_vm end_ops empty_symtab))) p = Inr c \<and> callback c = Some (Func_vm1 19)"
proof -
  let ?s = "new_vm end_ops empty_symtab"
  have s: "symbol_table ?s = empty_symtab" "builtin_functions ?s = []" by (simp_all add: new_vm_def new_frame_def new_pad_def)
  have c: "counter (symbol_table ?s) = 0" unfolding s(1) by (simp add: empty_symtab_def)
  have "registered [] ?s" using symtab_ok_empty by (simp add: registered_def s)
  then have "registered ([] @ builtin_table) (foldl (\<lambda>s f. add_builtin_function f s) ?s builtin_table)"
    by (rule registered_all) (use table_names c in simp_all)
  then have r: "registered builtin_table (Init_builtins ?s)" by (simp only: append_Nil Init_builtins_def)
  have m: "map_of builtin_table ''abs'' = Some (Func_vm1 19)" by code_simp
  obtain i where i: "symbol_known ''abs'' i (symbol_table (Init_builtins ?s))"
    using r map_of_SomeD [OF m] unfolding registered_def by fast
  from builtins_registered [OF _ _ s(2) i] symtab_ok_empty c i show ?thesis unfolding m s(1) option.case by auto
qed

subsection \<open>Calling a code value\<close>

text \<open>\<open>$code.(a, b)\<close> passes its arguments in reverse: \<open>code_call\<close> takes them off the stack, first one
  first, and pushes them in that order, while the first parameter of a function is the topmost
  argument. So parameter \<open>k\<close> of \<open>n\<close> reads argument \<open>n - 1 - k\<close>.\<close>

theorem code_call_reverses_arguments:
  assumes "as_code (heap s) code = Inr c" "callback c = None"
    "\<forall>ps. code_params c = Some ps \<longrightarrow> length ps = length args"
  shows "\<exists>s' p. code_call s (code # args) = Inr (s', p) \<and>
    (\<forall>t k no ys. k < length args \<and> stack t = stack s' @ ys \<and> mark_stack t = mark_stack s' \<and> get_int_operand t = Inr no \<and> sint no = int k \<longrightarrow>
      pp_getarg t = Inr (push (args ! (length args - 1 - k)) t))"
proof -
  let ?s = "extract_tuple args s"
  have code: "as_code (heap ?s) code = Inr c" "code \<noteq> None"
    using assms(1) by (auto simp: extract_tuple_def as_code_iff elim: deref_InrE)
  obtain s' where s': "function_call (int (length args)) code code ?s = Inr s'" "stack s' = stack s @ args"
    "mark_stack s' = mark_stack s @ [int (length (stack s) + length args)]" "heap s' = heap s"
  proof -
    obtain f s1 where e: "enter_frame FRAME_TYPE_FUNCTION (length args) ?s = (f, s1)" by fastforce
    then have s1: "stack s1 = stack s @ args" "heap s1 = heap s"
      by (auto simp: enter_frame_def extract_tuple_def split: prod.splits)
    have "function_call (int (length args)) code code ?s = Inr (push_frame
        (f\<lparr>orig_ops := vm_ops ?s, return_address := pc ?s, argcnt := int (length args), frame_code := code, self := code\<rparr>)
        (s1\<lparr>pc := -1, vm_ops := code_opcodes c, mark_stack := mark_stack ?s @ [int (length (stack ?s))]\<rparr>))"
      using code assms(3) e by (cases "code_params c") (simp_all add: function_call_def lift_val_def Let_def)
    then show ?thesis by (rule that) (simp_all add: s1 push_frame_def extract_tuple_def)
  qed
  have "pp_getarg t = Inr (push (args ! (length args - 1 - k)) t)"
    if "k < length args" "stack t = (stack s @ args) @ ys" "mark_stack t = mark_stack s'" "get_int_operand t = Inr no" "sint no = int k" for t k no ys
  proof -
    have "nat (int (length (stack s) + length args) - int k - 1) = length (stack s) + (length args - 1 - k)"
      using that(1) by linarith
    then show ?thesis using that s'(3) by (auto simp: pp_getarg_def mark_top_def nth_append)
  qed
  moreover have "code_call s (code # args) = Inr (s'\<lparr>heap := heap s' @ [UndefValue]\<rparr>, Some (length (heap s')))"
    using assms(1,2) s'(1) by (simp add: code_call_def lift_val_def is_native_def vm_new_def alloc_def)
  ultimately show ?thesis using s'(2)
    by (intro exI [of _ "s'\<lparr>heap := heap s' @ [UndefValue]\<rparr>"] exI [of _ "Some (length (heap s'))"]) auto
qed

theorem code_call_reverses_arguments_witness:
  "\<exists>s' p. code_call ((new_vm end_ops empty_symtab)\<lparr>heap := [CodeValue (new_code 0 0 [] 1 (Some [''a'', ''b'']))]\<rparr>)
      [Some 0, Some 7, Some 8] = Inr (s', p) \<and>
    (\<forall>t. stack t = stack s' \<and> mark_stack t = mark_stack s' \<and> get_int_operand t = Inr 0 \<longrightarrow>
      pp_getarg t = Inr (push (Some 8) t))"
proof -
  let ?c = "new_code 0 0 [] 1 (Some [''a'', ''b''])"
  let ?s = "(new_vm end_ops empty_symtab)\<lparr>heap := [CodeValue ?c]\<rparr>"
  have "as_code (heap ?s) (Some 0) = Inr ?c" by (simp add: as_code_def)
  from code_call_reverses_arguments [OF this, of "[Some 7, Some 8]"]
  obtain s' p where s': "code_call ?s [Some 0, Some 7, Some 8] = Inr (s', p)"
    "\<And>t k no ys. k < 2 \<and> stack t = stack s' @ ys \<and> mark_stack t = mark_stack s' \<and> get_int_operand t = Inr no \<and> sint no = int k \<Longrightarrow>
      pp_getarg t = Inr (push ([Some 7, Some 8] ! (2 - 1 - k)) t)"
    by (auto simp: new_code_def)
  have "pp_getarg t = Inr (push (Some 8) t)"
    if "stack t = stack s'" "mark_stack t = mark_stack s'" "get_int_operand t = Inr 0" for t
    using s'(2) [of 0 t "[]" 0] that by simp
  with s'(1) show ?thesis by blast
qed

subsection \<open>The objects of caller\<close>

lemma caller_agrees:
  assumes "builtin_caller s [] = Inr (s1, p)" "deref (heap s1) p = Inr (ArrayValue ps)"
    "deref (heap s) q = Inr (IntValue n)" "0 \<le> sint n" "sint n < 2 ^ 31 - 1" "builtin_caller s [q] = Inr (s2, r)"
  shows "if nat (sint n) < length ps then deref (heap s2) r = deref (heap s1) (ps ! nat (sint n))
    else deref (heap s2) r = Inr UndefValue"
proof -
  let ?fs = "function_frames s"
  let ?k = "nat (sint n)"
  have n: "to_int_at (heap s) q = Inr n" using assms(3) by (simp add: to_int_at_def to_int_def)
  have push: "push_objs xs h qs = (h @ xs, qs @ map Some [length h..<length h + length xs])" for xs h qs
    by (induction xs arbitrary: h qs) (simp_all add: alloc_def upt_rec)
  show ?thesis
  proof (cases "drop 1 ?fs = []")
    case True
    then have ps: "ps = []" using assms(1,2) by (auto simp: builtin_caller_def vm_new_def alloc_def Let_def)
    have "\<not> sint n + 1 < int (length ?fs)" using True assms(4) by simp
    then have "deref (heap s2) r = Inr UndefValue"
      using assms(4-6) n by (auto simp: builtin_caller_def lift_val_def vm_new_def alloc_def Let_def split: if_splits)
    then show ?thesis using ps by simp
  next
    case False
    obtain k where k: "lift_val s (get_builtin_class (builtin_classes s) SYMBOL_CALLER_CLASS) = Inr k"
      using assms(1) False by (auto simp: builtin_caller_def bnd_Inr_iff Let_def)
    let ?o = "\<lambda>f. ObjectValue k (frame_code f) False"
    have s1: "heap s1 = heap s @ map ?o (drop 1 ?fs) @ [ArrayValue (map Some [length (heap s)..<length (heap s) + length (drop 1 ?fs)])]"
      "p = Some (length (heap s) + length (drop 1 ?fs))"
      using assms(1) False k by (auto simp: builtin_caller_def push vm_new_def alloc_def Let_def)
    have ps: "ps = map Some [length (heap s)..<length (heap s) + length (drop 1 ?fs)]"
      using assms(2) unfolding s1 by (simp add: nth_append)
    show ?thesis
    proof (cases "?k < length ps")
      case True
      then have l: "sint n + 1 < int (length ?fs)" "?k < length (drop 1 ?fs)" using ps assms(4) by auto
      have "deref (heap s2) r = Inr (?o (?fs ! nat (sint n + 1)))"
        using assms(4-6) n k l by (auto simp: builtin_caller_def lift_val_def vm_new_def alloc_def Let_def split: if_splits)
      moreover have "deref (heap s1) (ps ! ?k) = Inr (?o (drop 1 ?fs ! ?k))"
        using l(2) True unfolding s1 ps by (simp add: nth_append)
      moreover have "nat (sint n + 1) = Suc ?k" using assms(4) by simp
      ultimately show ?thesis using True l(2) by simp
    next
      case False
      then have "\<not> sint n + 1 < int (length ?fs)" using ps assms(4) by auto
      then have "deref (heap s2) r = Inr UndefValue"
        using assms(4-6) n by (auto simp: builtin_caller_def lift_val_def vm_new_def alloc_def Let_def split: if_splits)
      then show ?thesis using False by simp
    qed
  qed
qed

text \<open>\<open>caller(n)\<close> is the element \<open>n\<close> of the list that \<open>caller()\<close> returns, and undef where the list
  ends: both make an object of the class Caller for the code of the same frame, the function frames
  being counted from the innermost one outwards without the function that asks.\<close>

theorem caller_nth:
  assumes "get_builtin_class (builtin_classes s) SYMBOL_CALLER_CLASS = Inr k"
    "deref (heap s) q = Inr (IntValue n)" "0 \<le> sint n" "sint n < 2 ^ 31 - 1"
  shows "\<exists>s1 p ps s2 r. builtin_caller s [] = Inr (s1, p) \<and> deref (heap s1) p = Inr (ArrayValue ps) \<and>
    length ps = length (function_frames s) - 1 \<and> builtin_caller s [q] = Inr (s2, r) \<and>
    deref (heap s2) r = (if nat (sint n) < length ps then deref (heap s1) (ps ! nat (sint n)) else Inr UndefValue)"
proof -
  let ?fs = "function_frames s"
  have n: "to_int_at (heap s) q = Inr n" using assms(2) by (simp add: to_int_at_def to_int_def)
  have push: "push_objs xs h qs = (h @ xs, qs @ map Some [length h..<length h + length xs])" for xs h qs
    by (induction xs arbitrary: h qs) (simp_all add: alloc_def upt_rec)
  obtain gs where g: "drop (Suc 0) ?fs = gs" "length gs = length ?fs - 1" by simp
  obtain s1 p ps where 1: "builtin_caller s [] = Inr (s1, p)" "deref (heap s1) p = Inr (ArrayValue ps)" "length ps = length ?fs - 1"
  proof (cases "gs = []")
    case True
    then show ?thesis using that g by (auto simp: builtin_caller_def lift_val_def vm_new_def alloc_def Let_def)
  next
    case False
    let ?h = "heap s @ map (\<lambda>f. ObjectValue k (frame_code f) False) gs"
    let ?ps = "map Some [length (heap s)..<length (heap s) + length gs]"
    have "builtin_caller s [] = Inr (s\<lparr>heap := ?h @ [ArrayValue ?ps]\<rparr>, Some (length ?h))"
      using False unfolding builtin_caller_def Let_def One_nat_def g(1)
      by (simp add: assms(1) lift_val_def push vm_new_def alloc_def)
    then show ?thesis by (rule that) (simp add: nth_append, simp only: length_map length_upt g(2) add_diff_cancel_left')
  qed
  obtain s2 r where 2: "builtin_caller s [q] = Inr (s2, r)"
    using assms(4) by (cases "0 \<le> sint n + 1 \<and> sint n + 1 < int (length ?fs)")
      (auto simp: builtin_caller_def assms(1) n lift_val_def vm_new_def alloc_def Let_def)
  show ?thesis using 1 2 caller_agrees [OF 1(1,2) assms(2-4) 2] by (intro exI conjI) (auto split: if_splits)
qed

theorem caller_nth_witness:
  "\<exists>s2 r. builtin_caller ((new_vm end_ops empty_symtab)\<lparr>heap := [IntValue 0], builtin_classes := [(7, Some 9)],
      frame_stack := replicate 2 ((snd (new_frame FRAME_TYPE_FUNCTION 0 0 [] []))\<lparr>frame_code := Some 5\<rparr>)\<rparr>) [Some 0] = Inr (s2, r) \<and>
    deref (heap s2) r = Inr (ObjectValue (Some 9) (Some 5) False)"
proof -
  let ?f = "(snd (new_frame FRAME_TYPE_FUNCTION 0 0 [] []))\<lparr>frame_code := Some 5\<rparr>"
  let ?s = "(new_vm end_ops empty_symtab)\<lparr>heap := [IntValue 0], builtin_classes := [(7, Some 9)], frame_stack := replicate 2 ?f\<rparr>"
  have "get_builtin_class (builtin_classes ?s) SYMBOL_CALLER_CLASS = Inr (Some 9)"
    by (simp add: get_builtin_class_def SYMBOL_CALLER_CLASS_def)
  from caller_nth [OF this, of "Some 0" 0]
  obtain s1 p ps s2 r where r: "builtin_caller ?s [] = Inr (s1, p)" "deref (heap s1) p = Inr (ArrayValue ps)"
    "length ps = length (function_frames ?s) - 1" "builtin_caller ?s [Some 0] = Inr (s2, r)"
    "deref (heap s2) r = (if nat (sint (0 :: i32)) < length ps then deref (heap s1) (ps ! nat (sint (0 :: i32))) else Inr UndefValue)"
    by (fastforce simp del: sint_0)
  have "function_frames ?s = [?f, ?f]" by (simp add: function_frames_def new_frame_def new_pad_def numeral_2_eq_2)
  then have "ps = [Some 1]" "deref (heap s1) (Some 1) = Inr (ObjectValue (Some 9) (Some 5) False)"
    using r(1-3) by (auto simp: builtin_caller_def get_builtin_class_def SYMBOL_CALLER_CLASS_def lift_val_def vm_new_def alloc_def
        Let_def new_vm_def new_frame_def new_pad_def)
  then show ?thesis using r(4,5) by auto
qed

subsection \<open>Hexadecimal and octal numbers\<close>

definition base_char :: "nat \<Rightarrow> char" where
  "base_char d = char_of (if d < 10 then 48 + d else 87 + d)"

fun show_base :: "nat \<Rightarrow> nat \<Rightarrow> string" where
  "show_base b n = (if n < b \<or> b < 2 then [base_char n] else show_base b (n div b) @ [base_char (n mod b)])"

declare show_base.simps [simp del]

lemma base_char_facts:
  assumes "d < 16"
  shows "digit_of (base_char d) = Some d" "\<not> is_space (base_char d)" "base_char d \<notin> {CHR ''-'', CHR ''+'', CHR ''x'', CHR ''X'', CHR 0x00}"
proof -
  let ?n = "if d < 10 then 48 + d else 87 + d"
  have n: "(of_char (base_char d) :: nat) = ?n" using assms by (simp add: base_char_def)
  show "digit_of (base_char d) = Some d" using assms n by (simp add: digit_of_def byte_of_def Let_def)
  show "\<not> is_space (base_char d)" using assms n by (simp add: is_space_def)
  have "(of_char (base_char d) :: nat) \<noteq> of_char c" if "c \<in> {CHR ''-'', CHR ''+'', CHR ''x'', CHR ''X'', CHR 0x00}" for c
    using that assms unfolding n by auto
  then show "base_char d \<notin> {CHR ''-'', CHR ''+'', CHR ''x'', CHR ''X'', CHR 0x00}" by blast
qed

lemma show_base_digits: "2 \<le> b \<Longrightarrow> \<exists>ds. show_base b n = map base_char ds \<and> ds \<noteq> [] \<and> (\<forall>d \<in> set ds. d < b) \<and>
    foldl (\<lambda>m d. m * b + d) 0 ds = n"
proof (induction b n rule: show_base.induct)
  case (1 b n)
  show ?case
  proof (cases "n < b")
    case True
    then show ?thesis by (intro exI [of _ "[n]"]) (simp add: show_base.simps)
  next
    case False
    then obtain ds where ds: "show_base b (n div b) = map base_char ds" "ds \<noteq> []" "\<forall>d \<in> set ds. d < b"
      "foldl (\<lambda>m d. m * b + d) 0 ds = n div b" using 1 by auto
    then show ?thesis using False "1.prems"
      by (intro exI [of _ "ds @ [n mod b]"]) (auto simp: show_base.simps [of b n])
  qed
qed

lemma digits_value_chars: "\<forall>d \<in> set ds. d < 16 \<Longrightarrow> digits_value b (map base_char ds) = foldl (\<lambda>m d. m * b + d) 0 ds"
proof -
  have "foldl (\<lambda>n c. n * b + the (digit_of c)) m (map base_char ds) = foldl (\<lambda>m d. m * b + d) m ds"
    if "\<forall>d \<in> set ds. d < 16" for m using that by (induction ds arbitrary: m) (simp_all add: base_char_facts)
  then show "\<forall>d \<in> set ds. d < 16 \<Longrightarrow> ?thesis" by (simp add: digits_value_def)
qed

lemma strtol_digits:
  assumes "\<forall>d \<in> set ds. d < b" "ds \<noteq> []" "b \<le> 16" "pre = [] \<or> b = 16 \<and> pre \<in> {''0x'', ''0X''}"
  shows "strtol_base b (pre @ map base_char ds) = (int (foldl (\<lambda>m d. m * b + d) 0 ds), [])"
proof -
  let ?s = "map base_char ds"
  have small: "\<forall>d \<in> set ds. d < 16" using assms(1,3) by auto
  obtain d ds' where d: "ds = d # ds'" "d < 16" using assms(2) small by (cases ds) auto
  have dig: "\<forall>c \<in> set ?s. is_digit_of b c" using assms(1) small by (auto simp: is_digit_of_def base_char_facts)
  have sp: "dropWhile is_space (pre @ ?s) = pre @ ?s" "(hd (pre @ ?s) = CHR ''-'') = False" "(hd (pre @ ?s) = CHR ''+'') = False"
    using assms(4) d base_char_facts(2,3) [OF d(2)] by (auto simp: is_space_def)
  have skip: "skip_prefix b (pre @ ?s) = ?s"
  proof (cases "pre = []")
    case True
    have "c \<noteq> CHR ''x'' \<and> c \<noteq> CHR ''X''" if "c \<in> set ?s" for c using that small base_char_facts(3) by auto
    then have "?s = a # c # e # t \<Longrightarrow> c \<noteq> CHR ''x'' \<and> c \<noteq> CHR ''X''" for a c e t
      by (metis list.set_intros(1,2))
    then show ?thesis using True unfolding skip_prefix_def by (auto split: list.split)
  next
    case False
    then show ?thesis using assms(4) d dig by (auto simp: skip_prefix_def)
  qed
  have tk: "takeWhile (is_digit_of b) ?s = ?s" "dropWhile (is_digit_of b) ?s = []" using dig by (auto simp: takeWhile_eq_all_conv)
  show ?thesis
    using assms(2) unfolding strtol_base_def Let_def sp simp_thms if_False skip tk
    by (simp add: digits_value_chars [OF small])
qed

text \<open>\<open>hex\<close> and \<open>oct\<close> read back every integer from its 32 bits printed in base 16, with or without
  \<open>0x\<close>, or in base 8: the conversion to \<open>int\<close> keeps the low 32 bits, so the negative integers are read
  from the upper half of the range.\<close>

theorem hex_oct_round_trip:
  assumes "deref (heap s) v = Inr (StrValue (pre @ show_base 16 (unat i)))" "pre \<in> {[], ''0x'', ''0X''}"
    "deref (heap s) w = Inr (StrValue (show_base 8 (unat i)))"
  shows "builtin_hex E s v = vm_new (IntValue i) s \<and> builtin_oct E s w = vm_new (IntValue i) s"
proof -
  have read: "read_based E b name bad s u = vm_new (IntValue i) s"
    if b: "b \<in> {8, 16}" and p: "pre = [] \<or> b = 16 \<and> pre \<in> {''0x'', ''0X''}"
      and u: "deref (heap s) u = Inr (StrValue (pre @ show_base b (unat i)))"
    for b name bad u pre
  proof -
    obtain ds where ds: "show_base b (unat i) = map base_char ds" "ds \<noteq> []" "\<forall>d \<in> set ds. d < b"
      "foldl (\<lambda>m d. m * b + d) 0 ds = unat i" using show_base_digits [of b "unat i"] b by fastforce
    have "base_char d \<noteq> CHR 0x00" if "d \<in> set ds" for d using base_char_facts(3) [of d] that ds(3) b by auto
    then have "\<forall>c \<in> set (map base_char ds). c \<noteq> CHR 0x00" by simp
    then have c: "c_str (pre @ map base_char ds) = pre @ map base_char ds" using p by (auto simp: c_str_def takeWhile_eq_all_conv)
    have "strtol_base b (pre @ map base_char ds) = (int (unat i), [])"
      using strtol_digits [OF ds(3,2) _ p] b ds(4) by auto
    moreover have "in_long (int (unat i))"
    proof -
      have l: "in_long (int n)" if "n < 4294967296" for n using that by (simp add: in_long_def)
      have "unat i < 2 ^ 32" using unsigned_less [of i, where ?'a = nat] by simp
      then show ?thesis by (intro l) simp
    qed
    ultimately show ?thesis using u c unfolding ds(1) read_based_def by (simp add: vm_deref_def lift_val_def)
  qed
  show ?thesis using read [of 16 pre v] read [of 8 "[]" w] assms by (auto simp: builtin_hex_def builtin_oct_def)
qed

theorem hex_oct_round_trip_witness:
  "\<forall>E. builtin_hex E ((new_vm end_ops empty_symtab)\<lparr>heap := [StrValue ''0xffffffff'', StrValue ''37777777777'']\<rparr>) (Some 0) =
    vm_new (IntValue (- 1)) ((new_vm end_ops empty_symtab)\<lparr>heap := [StrValue ''0xffffffff'', StrValue ''37777777777'']\<rparr>)"
proof
  fix E :: os
  let ?s = "(new_vm end_ops empty_symtab)\<lparr>heap := [StrValue ''0xffffffff'', StrValue ''37777777777'']\<rparr>"
  have "show_base 16 4294967295 = ''ffffffff''" "show_base 8 4294967295 = ''37777777777''"
    by (simp_all add: show_base.simps base_char_def char_of_def bit_Suc_0_iff)
  moreover have "unat (- 1 :: i32) = 4294967295" by (simp add: unsigned_minus_1_eq_mask mask_eq_exp_minus_1)
  ultimately show "builtin_hex E ?s (Some 0) = vm_new (IntValue (- 1)) ?s"
    using hex_oct_round_trip [of ?s "Some 0" "''0x''" "- 1" "Some 1" E] by simp
qed

end
