(* ===== verification/Tora_Json.thy ===== *)
theory Tora_Json
  imports "Tora_Inspect"
begin

text \<open>
  The JSON extension: values, output and the parser of \<open>ext/JSON/picojson.h\<close>, and the binding
  \<open>ext/JSON/json.cc\<close>. The parser reads characters through a class with one character of push-back,
  whose assertion is kept; a failed parse also leaves a partial value, which its caller drops.
\<close>

subsection \<open>Values (class value)\<close>

datatype jval =
    JNull
  | JBool bool
  | JNumber dbl
  | JString string
  | JArray "jval list"
  | JObject "(string \<times> jval) list"

text \<open>\<open>printf\<close> of a double with \<open>p\<close> digits after the point (\<open>%.f\<close>, \<open>%f\<close>), rounded to even.\<close>

definition pad_left :: "nat \<Rightarrow> string \<Rightarrow> string" where
  "pad_left n s = replicate (n - length s) (CHR ''0'') @ s"

fun show_fixed :: "nat \<Rightarrow> dbl \<Rightarrow> string" where
  "show_fixed p DNaN = ''nan''"
| "show_fixed p (DInf s) = (if s then ''-inf'' else ''inf'')"
| "show_fixed p (DFin s m) = (let n = nat (round_half_even (m * 10 ^ p))
     in (if s then ''-'' else '''') @ show_nat (n div 10 ^ p) @
        (if p = 0 then '''' else ''.'' @ pad_left p (show_nat (n mod 10 ^ p))))"

text \<open>\<open>modf(d, &tmp) == 0\<close>\<close>

fun is_integral :: "dbl \<Rightarrow> bool" where
  "is_integral DNaN = False"
| "is_integral (DInf s) = True"
| "is_integral (DFin s m) = (of_int \<lfloor>m\<rfloor> = m)"

text \<open>The text of a number is cut by a buffer of 256 bytes.\<close>

definition number_str :: "dbl \<Rightarrow> string" where
  "number_str d = take 255 (show_fixed (if is_integral d then 0 else 6) d)"

fun to_str :: "jval \<Rightarrow> string" where
  "to_str JNull = ''null''"
| "to_str (JBool b) = (if b then ''true'' else ''false'')"
| "to_str (JNumber d) = number_str d"
| "to_str (JString s) = s"
| "to_str (JArray _) = ''array''"
| "to_str (JObject _) = ''object''"

fun evaluate_as_boolean :: "jval \<Rightarrow> bool" where
  "evaluate_as_boolean JNull = False"
| "evaluate_as_boolean (JBool b) = b"
| "evaluate_as_boolean (JNumber d) = (\<not> deq d (DFin False 0))"
| "evaluate_as_boolean (JString s) = (s \<noteq> [])"
| "evaluate_as_boolean _ = True"

subsection \<open>Output (serialize)\<close>

definition escape_char :: "char \<Rightarrow> string" where
  "escape_char c =
     (if c = CHR 0x22 then [CHR 0x5C, CHR 0x22]
      else if c = CHR 0x5C then [CHR 0x5C, CHR 0x5C]
      else if c = CHR ''/'' then [CHR 0x5C, CHR ''/'']
      else if c = CHR 0x08 then [CHR 0x5C, CHR ''b'']
      else if c = CHR 0x0C then [CHR 0x5C, CHR ''f'']
      else if c = CHR 0x0A then [CHR 0x5C, CHR ''n'']
      else if c = CHR 0x0D then [CHR 0x5C, CHR ''r'']
      else if c = CHR 0x09 then [CHR 0x5C, CHR ''t'']
      else if byte_of c < 32 \<or> c = CHR 0x7F then
        [CHR 0x5C, CHR ''u'', CHR ''0'', CHR ''0'', hex_digit (byte_of c div 16), hex_digit (byte_of c mod 16)]
      else [c])"

definition serialize_str :: "string \<Rightarrow> string" where
  "serialize_str s = [CHR 0x22] @ concat (map escape_char s) @ [CHR 0x22]"

fun serialize :: "jval \<Rightarrow> string" where
  "serialize (JString s) = serialize_str s"
| "serialize (JArray vs) = ''['' @ comma_list (map serialize vs) @ '']''"
| "serialize (JObject m) = ''{'' @ comma_list (map (\<lambda>kv. serialize_str (fst kv) @ '':'' @ serialize (snd kv)) m) @ ''}''"
| "serialize v = to_str v"

subsection \<open>Input (class input)\<close>

text \<open>\<open>None\<close> is the \<open>-1\<close> that stands for the end of the text.\<close>

record input =
  in_cur :: string
  last_ch :: "char option"
  ungot :: bool
  in_line :: nat

definition input_of :: "string \<Rightarrow> input" where
  "input_of s = \<lparr>in_cur = s, last_ch = None, ungot = False, in_line = 1\<rparr>"

definition getc :: "input \<Rightarrow> char option \<times> input" where
  "getc i = (if ungot i then (last_ch i, i\<lparr>ungot := False\<rparr>)
     else case in_cur i of
       [] \<Rightarrow> (None, i\<lparr>last_ch := None\<rparr>)
     | c # cs \<Rightarrow> (Some c, i\<lparr>in_cur := cs, last_ch := Some c,
         in_line := (if last_ch i = Some (CHR 0x0A) then in_line i + 1 else in_line i)\<rparr>))"

definition ungetc :: "input \<Rightarrow> input val_result" where
  "ungetc i = (if last_ch i = None then Inr i
     else if ungot i then Inl Abort
     else Inr (i\<lparr>ungot := True\<rparr>))"

text \<open>The characters that are left.\<close>

definition left :: "input \<Rightarrow> string" where
  "left i = (if ungot i then (case last_ch i of Some c \<Rightarrow> c # in_cur i | None \<Rightarrow> in_cur i) else in_cur i)"

lemma getc_left:
  "getc i = (Some c, j) \<Longrightarrow> left i = c # left j \<and> \<not> ungot j \<and> last_ch j = Some c"
  by (auto simp: getc_def left_def split: if_splits list.splits)

lemma left_getc: "left i = c # cs \<Longrightarrow> \<not> (ungot i \<and> last_ch i = None) \<Longrightarrow> \<exists>j. getc i = (Some c, j) \<and> left j = cs"
  by (auto simp: getc_def left_def split: if_splits list.splits option.splits)

definition is_ws :: "char \<Rightarrow> bool" where
  "is_ws c = (c = CHR '' '' \<or> c = CHR 0x09 \<or> c = CHR 0x0A \<or> c = CHR 0x0D)"

function skip_ws :: "input \<Rightarrow> input val_result" where
  "skip_ws i = (case getc i of
       (None, j) \<Rightarrow> ungetc j
     | (Some c, j) \<Rightarrow> if is_ws c then skip_ws j else ungetc j)"
  by pat_completeness auto
termination
  by (relation "measure (length o left)") (auto dest: getc_left [OF sym])

declare skip_ws.simps [simp del]

definition expect :: "char \<Rightarrow> input \<Rightarrow> (bool \<times> input) val_result" where
  "expect e i = bnd (skip_ws i) (\<lambda>j. case getc j of (c, k) \<Rightarrow>
     if c \<noteq> Some e then bnd (ungetc k) (\<lambda>l. Inr (False, l)) else Inr (True, k))"

fun match_text :: "string \<Rightarrow> input \<Rightarrow> (bool \<times> input) val_result" where
  "match_text [] i = Inr (True, i)"
| "match_text (p # ps) i = (case getc i of (c, j) \<Rightarrow>
     if c \<noteq> Some p then bnd (ungetc j) (\<lambda>k. Inr (False, k)) else match_text ps j)"

subsection \<open>Strings\<close>

definition hex_of :: "char \<Rightarrow> int option" where
  "hex_of c = (let n = int (byte_of c) in
     if 48 \<le> n \<and> n \<le> 57 then Some (n - 48)
     else if 65 \<le> n \<and> n \<le> 70 then Some (n - 55)
     else if 97 \<le> n \<and> n \<le> 102 then Some (n - 87)
     else None)"

text \<open>\<open>n\<close> digits are left to read.\<close>

fun quadhex :: "nat \<Rightarrow> int \<Rightarrow> input \<Rightarrow> (int option \<times> input) val_result" where
  "quadhex 0 u i = Inr (Some u, i)"
| "quadhex (Suc n) u i = (case getc i of
       (None, j) \<Rightarrow> Inr (None, j)
     | (Some c, j) \<Rightarrow> (case hex_of c of
         None \<Rightarrow> bnd (ungetc j) (\<lambda>k. Inr (None, k))
       | Some h \<Rightarrow> quadhex n (u * 16 + h) j))"

text \<open>\<open>push_back\<close> of an \<open>int\<close> keeps the low byte.\<close>

definition byte_char :: "int \<Rightarrow> char" where
  "byte_char u = char_of (nat (u mod 256))"

definition utf8 :: "int \<Rightarrow> string" where
  "utf8 u = (if u < 0x80 then [byte_char u]
     else (if u < 0x800 then [byte_char (0xc0 OR drop_bit 6 u)]
           else (if u < 0x10000 then [byte_char (0xe0 OR drop_bit 12 u)]
                 else [byte_char (0xf0 OR drop_bit 18 u), byte_char (0x80 OR (drop_bit 12 u AND 0x3f))])
                @ [byte_char (0x80 OR (drop_bit 6 u AND 0x3f))])
          @ [byte_char (0x80 OR (u AND 0x3f))])"

definition parse_codepoint :: "input \<Rightarrow> (string option \<times> input) val_result" where
  "parse_codepoint i = bnd (quadhex 4 0 i) (\<lambda>(u, i1). case u of
       None \<Rightarrow> Inr (None, i1)
     | Some u \<Rightarrow>
         if 0xd800 \<le> u \<and> u \<le> 0xdfff then
           (if 0xdc00 \<le> u then Inr (None, i1)
            else case getc i1 of (c, i2) \<Rightarrow>
              if c \<noteq> Some (CHR 0x5C) then bnd (ungetc i2) (\<lambda>k. Inr (None, k))
              else case getc i2 of (c, i3) \<Rightarrow>
              if c \<noteq> Some (CHR ''u'') then bnd (ungetc i3) (\<lambda>k. Inr (None, k))
              else bnd (quadhex 4 0 i3) (\<lambda>(w, i4). case w of
                Some w \<Rightarrow> if 0xdc00 \<le> w \<and> w \<le> 0xdfff then
                    Inr (Some (utf8 ((push_bit 10 (u - 0xd800) OR ((w - 0xdc00) AND 0x3ff)) + 0x10000)), i4)
                  else Inr (None, i4)
              | None \<Rightarrow> Inr (None, i4)))
         else Inr (Some (utf8 u), i1))"

text \<open>What is left never grows.\<close>

lemma getc_le: "getc i = (c, j) \<Longrightarrow> length (left j) \<le> length (left i)"
  by (auto simp: getc_def left_def split: if_splits list.splits option.splits)

lemma ungetc_left:
  assumes "ungetc j = Inr k" "getc i = (c, j)"
  shows "left k = left i"
  using assms by (auto simp: ungetc_def getc_def left_def split: if_splits list.splits option.splits)

lemma quadhex_le: "quadhex n u i = Inr (w, j) \<Longrightarrow> length (left j) \<le> length (left i)"
proof (induction n arbitrary: u i)
  case (Suc n)
  obtain c k where g: "getc i = (c, k)" by fastforce
  then show ?case using Suc getc_le [OF g] ungetc_left [OF _ g]
    by (fastforce split: option.splits simp: bnd_Inr_iff)
qed simp

lemma parse_codepoint_le: "parse_codepoint i = Inr (w, j) \<Longrightarrow> length (left j) \<le> length (left i)"
proof -
  assume p: "parse_codepoint i = Inr (w, j)"
  obtain u i1 where q: "quadhex 4 0 i = Inr (u, i1)" using p by (auto simp: parse_codepoint_def bnd_Inr_iff)
  obtain c2 i2 where g2: "getc i1 = (c2, i2)" by fastforce
  obtain c3 i3 where g3: "getc i2 = (c3, i3)" by fastforce
  note le = quadhex_le [OF q] getc_le [OF g2] getc_le [OF g3]
  show ?thesis
    using p le q g2 g3 by (auto simp: parse_codepoint_def bnd_Inr_iff split: option.splits if_splits
        dest!: quadhex_le ungetc_left [OF _ g2] ungetc_left [OF _ g3])
qed

text \<open>The character that an escape stands for; \<open>\u\<close> is treated apart.\<close>

definition unescape :: "char \<Rightarrow> char option" where
  "unescape c =
     (if c = CHR 0x22 \<or> c = CHR 0x5C \<or> c = CHR ''/'' then Some c
      else if c = CHR ''b'' then Some (CHR 0x08)
      else if c = CHR ''f'' then Some (CHR 0x0C)
      else if c = CHR ''n'' then Some (CHR 0x0A)
      else if c = CHR ''r'' then Some (CHR 0x0D)
      else if c = CHR ''t'' then Some (CHR 0x09)
      else None)"

function parse_string :: "string \<Rightarrow> input \<Rightarrow> (string option \<times> input) val_result" where
  "parse_string out i = (case getc i of
       (None, j) \<Rightarrow> bnd (ungetc j) (\<lambda>k. Inr (None, k))
     | (Some c, j) \<Rightarrow>
         if byte_of c < 32 then bnd (ungetc j) (\<lambda>k. Inr (None, k))
         else if c = CHR 0x22 then Inr (Some out, j)
         else if c = CHR 0x5C then (case getc j of
             (None, k) \<Rightarrow> Inr (None, k)
           | (Some e, k) \<Rightarrow>
               if e = CHR ''u'' then (case parse_codepoint k of
                   Inl f \<Rightarrow> Inl f
                 | Inr (None, l) \<Rightarrow> Inr (None, l)
                 | Inr (Some t, l) \<Rightarrow> parse_string (out @ t) l)
               else (case unescape e of None \<Rightarrow> Inr (None, k) | Some d \<Rightarrow> parse_string (out @ [d]) k))
         else parse_string (out @ [c]) j)"
  by pat_completeness auto
termination
  by (relation "measure (length o left o snd)") (auto dest!: getc_left [OF sym] parse_codepoint_le)

declare parse_string.simps [simp del]

subsection \<open>Numbers\<close>

definition is_number_char :: "char \<Rightarrow> bool" where
  "is_number_char c = (is_digit c \<or> c = CHR ''+'' \<or> c = CHR ''-'' \<or> c = CHR ''.'' \<or> c = CHR ''e'' \<or> c = CHR ''E'')"

function number_chars :: "string \<Rightarrow> input \<Rightarrow> (string \<times> input) val_result" where
  "number_chars out i = (case getc i of
       (None, j) \<Rightarrow> bnd (ungetc j) (\<lambda>k. Inr (out, k))
     | (Some c, j) \<Rightarrow> if is_number_char c then number_chars (out @ [c]) j else bnd (ungetc j) (\<lambda>k. Inr (out, k)))"
  by pat_completeness auto
termination
  by (relation "measure (length o left o snd)") (auto dest!: getc_left [OF sym])

declare number_chars.simps [simp del]

text \<open>
  \<open>strtod\<close> of a text of the characters above: the double and what is left from \<open>endp\<close> on. A sign,
  digits with a point among them, and an exponent if digits follow it; the value is rounded to the
  nearest double.
\<close>

definition digits_nat :: "string \<Rightarrow> nat" where
  "digits_nat ds = foldl (\<lambda>n c. n * 10 + digit_val c) 0 ds"

definition strtod_exponent :: "string \<Rightarrow> int \<times> string" where
  "strtod_exponent s = (case s of
       [] \<Rightarrow> (0, s)
     | c # t \<Rightarrow>
         if c = CHR ''e'' \<or> c = CHR ''E'' then
           (let sgn = t \<noteq> [] \<and> (hd t = CHR ''-'' \<or> hd t = CHR ''+'');
                u = (if sgn then tl t else t);
                ds = takeWhile is_digit u
            in if ds = [] then (0, s)
               else (if sgn \<and> hd t = CHR ''-'' then - int (digits_nat ds) else int (digits_nat ds), dropWhile is_digit u))
         else (0, s))"

definition strtod :: "string \<Rightarrow> dbl \<times> string" where
  "strtod s =
     (let sgn = s \<noteq> [] \<and> (hd s = CHR ''-'' \<or> hd s = CHR ''+'');
          neg = (sgn \<and> hd s = CHR ''-'');
          t = (if sgn then tl s else s);
          a = takeWhile is_digit t; u = dropWhile is_digit t;
          point = u \<noteq> [] \<and> hd u = CHR ''.'';
          b = (if point then takeWhile is_digit (tl u) else []);
          v = (if point then dropWhile is_digit (tl u) else u)
      in if a = [] \<and> b = [] then (DFin False 0, s)
         else (case strtod_exponent v of (e, rest) \<Rightarrow>
           (mk_dbl neg (of_nat (digits_nat (a @ b)) * 10 powi (e - int (length b))), rest)))"

definition parse_number :: "input \<Rightarrow> (dbl option \<times> input) val_result" where
  "parse_number i = bnd (number_chars [] i) (\<lambda>(s, j). case strtod s of (d, rest) \<Rightarrow>
     Inr (if rest = [] then Some d else None, j))"

subsection \<open>The parser\<close>

text \<open>
  \<open>_parse\<close>, and the loops of \<open>_parse_array\<close> and \<open>_parse_object\<close> from an element on. The first argument
  bounds the calls; \<open>None\<close> means that it was too small.
\<close>

definition parse_word :: "string \<Rightarrow> jval \<Rightarrow> input \<Rightarrow> (jval option \<times> input) val_result" where
  "parse_word w v i = bnd (match_text w i) (\<lambda>(b, j). Inr (if b then Some v else None, j))"

definition close_with :: "char \<Rightarrow> jval \<Rightarrow> input \<Rightarrow> (jval option \<times> input) val_result" where
  "close_with c v i = bnd (expect c i) (\<lambda>(b, j). Inr (if b then Some v else None, j))"

definition parse_key :: "input \<Rightarrow> (string option \<times> input) val_result" where
  "parse_key i = bnd (expect (CHR 0x22) i) (\<lambda>(b, j). if \<not> b then Inr (None, j)
     else bnd (parse_string [] j) (\<lambda>(k, l). case k of
       None \<Rightarrow> Inr (None, l)
     | Some key \<Rightarrow> bnd (expect (CHR '':'') l) (\<lambda>(b, m). Inr (if b then Some key else None, m))))"

fun parse_value :: "nat \<Rightarrow> input \<Rightarrow> (jval option \<times> input) val_result option"
and parse_items :: "nat \<Rightarrow> jval list \<Rightarrow> input \<Rightarrow> (jval option \<times> input) val_result option"
and parse_members :: "nat \<Rightarrow> (string \<times> jval) list \<Rightarrow> input \<Rightarrow> (jval option \<times> input) val_result option" where
  "parse_value 0 i = None"
| "parse_value (Suc n) i = obnd (Some (skip_ws i)) (\<lambda>i. case getc i of (c, j) \<Rightarrow>
     if c = Some (CHR ''n'') then Some (parse_word ''ull'' JNull j)
     else if c = Some (CHR ''f'') then Some (parse_word ''alse'' (JBool False) j)
     else if c = Some (CHR ''t'') then Some (parse_word ''rue'' (JBool True) j)
     else if c = Some (CHR 0x22) then Some (bnd (parse_string [] j) (\<lambda>(t, k). Inr (map_option JString t, k)))
     else if c = Some (CHR ''['') then obnd (Some (expect (CHR '']'') j)) (\<lambda>(b, k).
       if b then Some (Inr (Some (JArray []), k)) else parse_items n [] k)
     else if c = Some (CHR ''{'') then obnd (Some (expect (CHR ''}'') j)) (\<lambda>(b, k).
       if b then Some (Inr (Some (JObject []), k)) else parse_members n [] k)
     else if c \<noteq> None \<and> (is_digit (the c) \<or> the c = CHR ''-'') then
       Some (bnd (ungetc j) (\<lambda>k. bnd (parse_number k) (\<lambda>(d, l). Inr (map_option JNumber d, l))))
     else Some (bnd (ungetc j) (\<lambda>k. Inr (None, k))))"
| "parse_items 0 vs i = None"
| "parse_items (Suc n) vs i = obnd (parse_value n i) (\<lambda>(r, j). case r of
       None \<Rightarrow> Some (Inr (None, j))
     | Some v \<Rightarrow> obnd (Some (expect (CHR '','') j)) (\<lambda>(b, k).
         if b then parse_items n (vs @ [v]) k else Some (close_with (CHR '']'') (JArray (vs @ [v])) k)))"
| "parse_members 0 m i = None"
| "parse_members (Suc n) m i = obnd (Some (parse_key i)) (\<lambda>(key, j). case key of
       None \<Rightarrow> Some (Inr (None, j))
     | Some key \<Rightarrow> obnd (parse_value n j) (\<lambda>(r, k). case r of
         None \<Rightarrow> Some (Inr (None, k))
       | Some v \<Rightarrow> obnd (Some (expect (CHR '','') k)) (\<lambda>(b, l).
           if b then parse_members n (map_set key v m) l
           else Some (close_with (CHR ''}'') (JObject (map_set key v m)) l))))"

text \<open>The message for a text that cannot be parsed: the rest of the line without control characters.\<close>

function rest_of_line :: "input \<Rightarrow> string" where
  "rest_of_line i = (case getc i of
       (None, j) \<Rightarrow> []
     | (Some c, j) \<Rightarrow> if c = CHR 0x0A then [] else (if 32 \<le> byte_of c then [c] else []) @ rest_of_line j)"
  by pat_completeness auto
termination
  by (relation "measure (length o left)") (auto dest!: getc_left [OF sym])

declare rest_of_line.simps [simp del]

definition syntax_error :: "input \<Rightarrow> string" where
  "syntax_error i = ''syntax error at line '' @ show_nat (in_line i) @ '' near: '' @ rest_of_line i"

text \<open>\<open>picojson::parse\<close>: the value, or the message.\<close>

definition picojson_parse :: "nat \<Rightarrow> string \<Rightarrow> (string + jval) val_result option" where
  "picojson_parse n s = obnd (parse_value n (input_of s)) (\<lambda>(r, i). Some (Inr (case r of
     Some v \<Rightarrow> Inr v | None \<Rightarrow> Inl (syntax_error i))))"

subsection \<open>The binding (ext/JSON/json.cc)\<close>

text \<open>\<open>json_encode2\<close>; between the entries of a hash nothing is written.\<close>

fun json_encode2 :: "nat \<Rightarrow> heap \<Rightarrow> obj \<Rightarrow> string val_result option" where
  "json_encode2 0 h x = None"
| "json_encode2 (Suc n) h x = (let encode_at = (\<lambda>p. obnd (Some (deref h p)) (json_encode2 n h)) in case x of
       HashValue m \<Rightarrow> obnd (each encode_at (map snd m)) (\<lambda>ts. Some (Inr (''{'' @
         concat (map2 (\<lambda>k t. serialize (JString k) @ '':'' @ t) (map fst m) ts) @ ''}'')))
     | StrValue s \<Rightarrow> Some (Inr (serialize (JString s)))
     | IntValue i \<Rightarrow> Some (Inr (serialize (JNumber (dbl_of_int i))))
     | DoubleValue d \<Rightarrow> Some (Inr (serialize (JNumber d)))
     | BoolValue b \<Rightarrow> Some (Inr (if b then ''true'' else ''false''))
     | UndefValue \<Rightarrow> Some (Inr ''null'')
     | ArrayValue ps \<Rightarrow> obnd (each encode_at ps) (\<lambda>ts. Some (Inr (''['' @ comma_list ts @ '']'')))
     | _ \<Rightarrow> Some (throw_type '''' x '' is not JSON serializable.''))"

definition json_encode :: "nat \<Rightarrow> heap \<Rightarrow> ptr \<Rightarrow> (heap \<times> ptr) val_result option" where
  "json_encode n h p = obnd (Some (deref h p)) (\<lambda>x. obnd (json_encode2 n h x) (\<lambda>t. Some (ret_new (StrValue t) h)))"

text \<open>\<open>json_decode2\<close> aborts on null.\<close>

fun json_decode2 :: "jval \<Rightarrow> heap \<Rightarrow> (heap \<times> ptr) val_result"
and decode_items :: "jval list \<Rightarrow> heap \<Rightarrow> (heap \<times> ptr list) val_result"
and decode_members :: "(string \<times> jval) list \<Rightarrow> heap \<Rightarrow> hash \<Rightarrow> (heap \<times> hash) val_result" where
  "json_decode2 (JNumber d) h = ret_new (DoubleValue d) h"
| "json_decode2 (JBool b) h = ret_new (BoolValue b) h"
| "json_decode2 (JString s) h = ret_new (StrValue s) h"
| "json_decode2 (JArray vs) h = bnd (decode_items vs h) (\<lambda>(h, ps). ret_new (ArrayValue ps) h)"
| "json_decode2 (JObject m) h = bnd (decode_members m h []) (\<lambda>(h, m). ret_new (HashValue m) h)"
| "json_decode2 JNull h = Inl Abort"
| "decode_items [] h = Inr (h, [])"
| "decode_items (v # vs) h = bnd (json_decode2 v h) (\<lambda>(h, p). bnd (decode_items vs h) (\<lambda>(h, ps). Inr (h, p # ps)))"
| "decode_members [] h acc = Inr (h, acc)"
| "decode_members ((k, v) # m) h acc = bnd (json_decode2 v h) (\<lambda>(h, p). decode_members m h (hash_set k p acc))"

text \<open>
  \<open>json_decode\<close> for the bytes that its pointer \<open>in\<close> reads. The pointer is that of a string returned by
  value, which is destroyed before it is used; whether its bytes are still there is not modelled.
\<close>

definition json_decode_text :: "nat \<Rightarrow> heap \<Rightarrow> string \<Rightarrow> (heap \<times> ptr) val_result option" where
  "json_decode_text n h t = obnd (picojson_parse n t) (\<lambda>r. Some (case r of
     Inl err \<Rightarrow> Inl (Raise (exception_of_string err)) | Inr v \<Rightarrow> json_decode2 v h))"

end
