(* ===== verification/Tora_Json_Props.thy ===== *)
theory Tora_Json_Props
  imports Tora_Json
begin

text \<open>
  The JSON parser never fails its assertion and always returns; it reads back what the library
  prints, and Unicode escapes as UTF-8.
\<close>

subsection \<open>Reading\<close>

definition input_ok :: "input \<Rightarrow> bool" where
  "input_ok i = (ungot i \<longrightarrow> last_ch i \<noteq> None)"

lemma getc_ok: "getc i = (c, j) \<Longrightarrow> \<not> ungot j"
  by (auto simp: getc_def split: if_splits list.splits)

lemma getc_end:
  assumes "input_ok i" "left i = []"
  shows "\<exists>j. getc i = (None, j) \<and> left j = [] \<and> ungetc j = Inr j \<and> input_ok j"
proof -
  have u: "\<not> ungot i" "in_cur i = []" using assms by (auto simp: left_def input_ok_def split: option.splits if_splits)
  then have "getc i = (None, i\<lparr>last_ch := None\<rparr>)" by (simp add: getc_def)
  moreover have "left (i\<lparr>last_ch := None\<rparr>) = []" "ungetc (i\<lparr>last_ch := None\<rparr>) = Inr (i\<lparr>last_ch := None\<rparr>)"
    "input_ok (i\<lparr>last_ch := None\<rparr>)" using u by (simp_all add: left_def ungetc_def input_ok_def)
  ultimately show ?thesis by blast
qed

lemma getc_next:
  assumes "input_ok i" "left i = c # s"
  obtains j k where "getc i = (Some c, j)" "left j = s" "input_ok j" "ungetc j = Inr k" "left k = c # s" "input_ok k"
proof -
  obtain j where j: "getc i = (Some c, j)" "left j = s"
    using left_getc [OF assms(2)] assms(1) by (auto simp: input_ok_def)
  then have u: "\<not> ungot j" "last_ch j = Some c" using getc_left [OF j(1)] by simp_all
  let ?k = "j\<lparr>ungot := True\<rparr>"
  have "input_ok j" "input_ok ?k" using u by (simp_all add: input_ok_def)
  moreover have "ungetc j = Inr ?k" "left ?k = c # s" using u j by (simp_all add: ungetc_def left_def)
  ultimately show thesis using that [of j ?k] j by simp
qed

text \<open>A reader gives the answer \<open>a\<close> and leaves the text \<open>t\<close>.\<close>

definition reads :: "(input \<Rightarrow> ('a \<times> input) val_result) \<Rightarrow> string \<Rightarrow> 'a \<Rightarrow> string \<Rightarrow> bool" where
  "reads f s a t = (\<forall>i. input_ok i \<and> left i = s \<longrightarrow> (\<exists>j. f i = Inr (a, j) \<and> input_ok j \<and> left j = t))"

lemma readsI: "(\<And>i. input_ok i \<Longrightarrow> left i = s \<Longrightarrow> \<exists>j. f i = Inr (a, j) \<and> input_ok j \<and> left j = t) \<Longrightarrow> reads f s a t"
  by (simp add: reads_def)

lemma readsE:
  assumes "reads f s a t" "input_ok i" "left i = s"
  obtains j where "f i = Inr (a, j)" "input_ok j" "left j = t"
  using assms by (auto simp: reads_def)

text \<open>Every reader answers, and leaves no more than it got.\<close>

definition total :: "(input \<Rightarrow> ('a \<times> input) val_result) \<Rightarrow> bool" where
  "total f = (\<forall>i. input_ok i \<longrightarrow> (\<exists>a j. f i = Inr (a, j) \<and> input_ok j \<and> length (left j) \<le> length (left i)))"

lemma totalE:
  assumes "total f" "input_ok i"
  obtains a j where "f i = Inr (a, j)" "input_ok j" "length (left j) \<le> length (left i)"
  using assms by (auto simp: total_def)

lemma total_reads: "(\<And>s. \<exists>a t. reads f s a t \<and> length t \<le> length s) \<Longrightarrow> total f"
  unfolding total_def reads_def by metis

lemma skip_ws_reads:
  "input_ok i \<Longrightarrow> \<exists>j. skip_ws i = Inr j \<and> input_ok j \<and> left j = dropWhile is_ws (left i)"
proof (induction i rule: skip_ws.induct)
  case (1 i)
  show ?case
  proof (cases "left i")
    case Nil
    then show ?thesis using getc_end [OF 1(2)] by (auto simp: skip_ws.simps [of i])
  next
    case (Cons c s)
    then obtain j k where j: "getc i = (Some c, j)" "left j = s" "input_ok j" "ungetc j = Inr k" "left k = c # s" "input_ok k"
      by (rule getc_next [OF 1(2)])
    show ?thesis
    proof (cases "is_ws c")
      case True
      then show ?thesis using 1(1) [OF j(1) [symmetric] refl True j(3)] j Cons by (auto simp: skip_ws.simps [of i])
    next
      case False
      then show ?thesis using j Cons by (auto simp: skip_ws.simps [of i])
    qed
  qed
qed

lemma expect_reads:
  "reads (expect e) s (take 1 (dropWhile is_ws s) = [e])
     (if take 1 (dropWhile is_ws s) = [e] then tl (dropWhile is_ws s) else dropWhile is_ws s)"
proof (rule readsI)
  fix i
  assume "input_ok i" "left i = s"
  then obtain j where j: "skip_ws i = Inr j" "input_ok j" "left j = dropWhile is_ws s" using skip_ws_reads by blast
  obtain d where d: "dropWhile is_ws s = d" by simp
  show "\<exists>j. expect e i = Inr (take 1 (dropWhile is_ws s) = [e], j) \<and> input_ok j \<and>
    left j = (if take 1 (dropWhile is_ws s) = [e] then tl (dropWhile is_ws s) else dropWhile is_ws s)"
  proof (cases d)
    case Nil
    then show ?thesis using j getc_end [of j] unfolding d by (auto simp: expect_def)
  next
    case (Cons c t)
    then obtain k l where "getc j = (Some c, k)" "left k = t" "input_ok k" "ungetc k = Inr l" "left l = c # t" "input_ok l"
      using getc_next [OF j(2)] j(3) unfolding d by metis
    then show ?thesis using j Cons unfolding d by (auto simp: expect_def)
  qed
qed

lemma dropWhile_length: "length (dropWhile P s) \<le> length s"
  by (induction s) auto

lemma expect_total: "total (expect e)"
  by (rule total_reads, rule exI, rule exI, rule conjI, rule expect_reads)
    (use dropWhile_length [of is_ws] in \<open>auto intro: order_trans [OF diff_le_self]\<close>)

lemma match_total: "total (match_text ps)"
proof (induction ps)
  case Nil
  then show ?case by (auto simp: total_def)
next
  case ps: (Cons p ps)
  have "\<exists>a j. match_text (p # ps) i = Inr (a, j) \<and> input_ok j \<and> length (left j) \<le> length (left i)" if i: "input_ok i" for i
  proof (cases "left i")
    case Nil
    then show ?thesis using getc_end [OF i] by auto
  next
    case (Cons c s)
    then obtain j k where j: "getc i = (Some c, j)" "left j = s" "input_ok j" "ungetc j = Inr k" "left k = c # s" "input_ok k"
      by (rule getc_next [OF i])
    obtain a l where "match_text ps j = Inr (a, l)" "input_ok l" "length (left l) \<le> length (left j)"
      using totalE [OF ps.IH j(3)] .
    then show ?thesis using j Cons by auto
  qed
  then show ?case by (simp add: total_def)
qed

definition answers :: "(('a \<times> input) val_result) \<Rightarrow> input \<Rightarrow> bool" where
  "answers r i = (\<exists>a j. r = Inr (a, j) \<and> input_ok j \<and> length (left j) \<le> length (left i))"

lemma total_answers: "total f \<longleftrightarrow> (\<forall>i. input_ok i \<longrightarrow> answers (f i) i)"
  by (simp add: total_def answers_def)

lemma answers_Inr [simp]: "answers (Inr (a, j)) i \<longleftrightarrow> input_ok j \<and> length (left j) \<le> length (left i)"
  by (auto simp: answers_def)

lemma answers_le: "answers r j \<Longrightarrow> length (left j) \<le> length (left i) \<Longrightarrow> answers r i"
  using order_trans unfolding answers_def by blast

lemma answers_bnd:
  assumes "answers r i" "\<And>a j. r = Inr (a, j) \<Longrightarrow> input_ok j \<Longrightarrow> length (left j) \<le> length (left i) \<Longrightarrow> answers (g a j) j"
  shows "answers (bnd r (\<lambda>(a, j). g a j)) i"
  using assms unfolding answers_def by fastforce

lemma answers_total: "total f \<Longrightarrow> input_ok i \<Longrightarrow> answers (f i) i"
  by (simp add: total_answers)

lemma getc_cases:
  assumes "input_ok i"
  obtains (fin) j where "getc i = (None, j)" "left i = []" "left j = []" "ungetc j = Inr j" "input_ok j"
  | (more) c j k where "getc i = (Some c, j)" "left i = c # left j" "input_ok j" "ungetc j = Inr k" "left k = left i" "input_ok k"
proof (cases "left i")
  case Nil
  then show thesis using getc_end [OF assms] fin by blast
next
  case (Cons c s)
  then show thesis using getc_next [OF assms Cons] more by metis
qed

lemma quadhex_total: "total (quadhex n u)"
proof -
  have "\<forall>u. total (quadhex n u)"
  proof (induction n)
    case (Suc n)
    have "answers (quadhex (Suc n) u i) i" if "input_ok i" for u i
    proof (rule getc_cases [OF that])
      fix c j k
      assume j: "getc i = (Some c, j)" "left i = c # left j" "input_ok j" "ungetc j = Inr k" "left k = left i" "input_ok k"
      then show ?thesis
      proof (cases "hex_of c")
        case (Some h)
        have "answers (quadhex n (u * 16 + h) j) j" using Suc j(3) by (simp add: total_answers)
        then show ?thesis using j Some by (auto simp: answers_def)
      qed simp
    qed simp
    then show ?case by (simp add: total_answers)
  qed (simp add: total_answers)
  then show ?thesis by simp
qed

lemma parse_codepoint_total: "total parse_codepoint"
proof -
  have "answers (parse_codepoint i) i" if i: "input_ok i" for i
    unfolding parse_codepoint_def
  proof (rule answers_bnd [OF answers_total [OF quadhex_total i]])
    fix u i1
    assume ok: "input_ok i1"
    have tail: "answers (case getc i1 of (c, i2) \<Rightarrow>
        if c \<noteq> Some (CHR 0x5C) then bnd (ungetc i2) (\<lambda>k. Inr (None, k))
        else case getc i2 of (c, i3) \<Rightarrow>
        if c \<noteq> Some (CHR ''u'') then bnd (ungetc i3) (\<lambda>k. Inr (None, k))
        else bnd (quadhex 4 0 i3) (\<lambda>(w, i4). case w of
          Some w \<Rightarrow> if P w then Inr (Some (f w), i4) else Inr (None, i4)
        | None \<Rightarrow> Inr (None, i4))) i1" for P and f :: "int \<Rightarrow> string"
    proof (rule getc_cases [OF ok])
      fix c i2 k
      assume 2: "getc i1 = (Some c, i2)" "left i1 = c # left i2" "input_ok i2" "ungetc i2 = Inr k" "left k = left i1" "input_ok k"
      show ?thesis
      proof (rule getc_cases [OF 2(3)])
        fix d i3 k'
        assume 3: "getc i2 = (Some d, i3)" "left i2 = d # left i3" "input_ok i3" "ungetc i3 = Inr k'" "left k' = left i2" "input_ok k'"
        obtain w i4 where "quadhex 4 0 i3 = Inr (w, i4)" "input_ok i4" "length (left i4) \<le> length (left i3)"
          using totalE [OF quadhex_total 3(3)] .
        then show ?thesis using 2 3 by (auto split: option.split)
      qed (use 2 in auto)
    qed simp
    show "answers (case u of None \<Rightarrow> Inr (None, i1) | Some u \<Rightarrow>
        if 0xd800 \<le> u \<and> u \<le> 0xdfff then
          (if 0xdc00 \<le> u then Inr (None, i1)
           else case getc i1 of (c, i2) \<Rightarrow>
             if c \<noteq> Some (CHR 0x5C) then bnd (ungetc i2) (\<lambda>k. Inr (None, k))
             else case getc i2 of (c, i3) \<Rightarrow>
             if c \<noteq> Some (CHR ''u'') then bnd (ungetc i3) (\<lambda>k. Inr (None, k))
             else bnd (quadhex 4 0 i3) (\<lambda>(w, i4). case w of
               Some w \<Rightarrow> if 0xdc00 \<le> w \<and> w \<le> 0xdfff then
                   Inr (Some (utf8 ((push_bit 10 (u - 0xd800) OR ((w - 0xdc00) AND 0x3ff)) + 0x10000)), i4)
                 else Inr (None, i4)
             | None \<Rightarrow> Inr (None, i4)))
        else Inr (Some (utf8 u), i1)) i1"
      using tail ok by (cases u) (simp_all only: option.case answers_Inr simp_thms order_refl split: if_split)
  qed
  then show ?thesis by (simp add: total_answers)
qed

lemma parse_string_total: "total (parse_string out)"
proof -
  have "input_ok i \<Longrightarrow> answers (parse_string out i) i" for i
  proof (induction "length (left i)" arbitrary: i out rule: less_induct)
    case less
    have again: "answers (parse_string out' j) i" if "input_ok j" "length (left j) < length (left i)" for out' j
      using answers_le [OF less.hyps [OF that(2,1)]] that(2) by simp
    show ?case
    proof (rule getc_cases [OF less.prems])
      fix c j k
      assume j: "getc i = (Some c, j)" "left i = c # left j" "input_ok j" "ungetc j = Inr k" "left k = left i" "input_ok k"
      show ?thesis
      proof (cases "byte_of c \<ge> 32 \<and> c = CHR 0x5C")
        case False
        then show ?thesis using j again [of j "out @ [c]"] by (auto simp: parse_string.simps [of out i])
      next
        case True
        show ?thesis
        proof (rule getc_cases [OF j(3)])
          fix e l m
          assume l: "getc j = (Some e, l)" "left j = e # left l" "input_ok l" "ungetc l = Inr m" "left m = left j" "input_ok m"
          obtain t q where q: "parse_codepoint l = Inr (t, q)" "input_ok q" "length (left q) \<le> length (left l)"
            using totalE [OF parse_codepoint_total l(3)] .
          have "answers (parse_string (out @ [d]) l) i" for d using again [of l "out @ [d]"] l j by simp
          moreover have "answers (parse_string (out @ t') q) i" for t' using again [of q "out @ t'"] l q j by simp
          ultimately show ?thesis using True j l q
            by (auto simp: parse_string.simps [of out i] split: option.split)
        qed (use True j in \<open>auto simp: parse_string.simps [of out i]\<close>)
      qed
    qed (simp add: parse_string.simps [of out i])
  qed
  then show ?thesis by (simp add: total_answers)
qed

lemma number_chars_total: "total (number_chars out)"
proof -
  have "input_ok i \<Longrightarrow> answers (number_chars out i) i" for i
  proof (induction "length (left i)" arbitrary: i out rule: less_induct)
    case less
    show ?case
    proof (rule getc_cases [OF less.prems])
      fix c j k
      assume j: "getc i = (Some c, j)" "left i = c # left j" "input_ok j" "ungetc j = Inr k" "left k = left i" "input_ok k"
      have "answers (number_chars (out @ [c]) j) j" using less.hyps [of j "out @ [c]"] j by simp
      then show ?thesis using j by (auto simp: number_chars.simps [of out i] answers_def)
    qed (simp add: number_chars.simps [of out i])
  qed
  then show ?thesis by (simp add: total_answers)
qed

lemma total_bnd: "total f \<Longrightarrow> (\<And>a. total (g a)) \<Longrightarrow> total (\<lambda>i. bnd (f i) (\<lambda>(a, j). g a j))"
  by (auto simp: total_answers intro!: answers_bnd)

lemma total_return [simp]: "total (\<lambda>i. Inr (a, i))"
  by (simp add: total_answers)

lemma parse_number_total: "total parse_number"
  unfolding parse_number_def by (intro total_bnd number_chars_total) (simp add: total_answers split: prod.split)

lemma parse_word_total: "total (parse_word w v)"
  unfolding parse_word_def by (intro total_bnd match_total total_return)

lemma close_with_total: "total (close_with c v)"
  unfolding close_with_def by (intro total_bnd expect_total total_return)

lemma parse_key_total: "total parse_key"
proof -
  have "total (\<lambda>l. case k of None \<Rightarrow> Inr (None, l) | Some key \<Rightarrow>
      bnd (expect (CHR '':'') l) (\<lambda>(b, m). Inr (if b then Some key else None, m)))" for k :: "string option"
    by (cases k) (simp_all add: total_bnd expect_total)
  then have "total (\<lambda>j. if \<not> b then Inr (None, j)
     else bnd (parse_string [] j) (\<lambda>(k, l). case k of
       None \<Rightarrow> Inr (None, l)
     | Some key \<Rightarrow> bnd (expect (CHR '':'') l) (\<lambda>(b, m). Inr (if b then Some key else None, m))))" for b
    by (cases b) (simp_all add: total_bnd parse_string_total)
  then show ?thesis unfolding parse_key_def by (intro total_bnd expect_total)
qed

subsection \<open>The parser always returns\<close>

definition done_by :: "((jval option \<times> input) val_result) option \<Rightarrow> input \<Rightarrow> bool" where
  "done_by r i = (\<exists>v j. r = Some (Inr (v, j)) \<and> input_ok j \<and> length (left j) \<le> length (left i) \<and>
     (v \<noteq> None \<longrightarrow> length (left j) < length (left i)))"

lemma done_by_total:
  assumes "total f" "input_ok j" "length (left j) < length (left i)"
  shows "done_by (Some (f j)) i"
  using totalE [OF assms(1,2)] assms(3) unfolding done_by_def by (metis le_less_trans order.strict_implies_order)

lemma done_by_less: "done_by r j \<Longrightarrow> length (left j) \<le> length (left i) \<Longrightarrow> done_by r i"
  unfolding done_by_def by fastforce

lemma done_by_obnd:
  assumes "total f" "input_ok i" "\<And>a j. input_ok j \<Longrightarrow> length (left j) \<le> length (left i) \<Longrightarrow> done_by (g a j) k"
  shows "done_by (obnd (Some (f i)) (\<lambda>(a, j). g a j)) k"
  using totalE [OF assms(1,2)] assms(3) by (metis case_prod_conv obnd_simps(3))

lemma expect_less: "input_ok i \<Longrightarrow> expect e i = Inr (True, j) \<Longrightarrow> length (left j) < length (left i)"
proof -
  assume a: "input_ok i" "expect e i = Inr (True, j)"
  obtain d where d: "dropWhile is_ws (left i) = d" by simp
  have r: "take 1 d = [e]" "left j = tl d"
    using a expect_reads [of e "left i"] unfolding reads_def d by (auto split: if_splits)
  have "length d \<le> length (left i)" using dropWhile_length d by metis
  then show ?thesis using r by (cases d) auto
qed

lemma parse_key_less:
  assumes "input_ok i" "parse_key i = Inr (Some key, j)"
  shows "length (left j) < length (left i)"
proof -
  obtain b k where k: "expect (CHR 0x22) i = Inr (b, k)" "input_ok k" "length (left k) \<le> length (left i)"
    using totalE [OF expect_total assms(1)] .
  then have b: "b" using assms(2) by (cases b) (simp_all add: parse_key_def)
  obtain t l where l: "parse_string [] k = Inr (t, l)" "input_ok l" "length (left l) \<le> length (left k)"
    using totalE [OF parse_string_total k(2)] .
  obtain b' m where m: "expect (CHR '':'') l = Inr (b', m)" "length (left m) \<le> length (left l)"
    using totalE [OF expect_total l(2)] by metis
  have "m = j" using assms(2) k l m b by (auto simp: parse_key_def split: option.splits)
  then show ?thesis using expect_less [OF assms(1)] k(1) b l(3) m(2) by fastforce
qed

lemma parse_number_less:
  assumes "input_ok k" "left k = c # s" "is_number_char c" "parse_number k = Inr (d, l)"
  shows "length (left l) \<le> length s"
proof -
  obtain j where j: "getc k = (Some c, j)" "left j = s" "input_ok j" using getc_next [OF assms(1,2)] by metis
  obtain t m where "number_chars [c] j = Inr (t, m)" "length (left m) \<le> length (left j)"
    using totalE [OF number_chars_total j(3)] by metis
  then have "l = m" "length (left m) \<le> length s" using assms(3,4) j
    by (auto simp: parse_number_def number_chars.simps [of "[]" k] split: prod.splits)
  then show ?thesis by simp
qed

lemma done_by_expect:
  assumes "input_ok j" "length (left j) < length (left i)"
    "\<And>k. input_ok k \<Longrightarrow> length (left k) \<le> length (left j) \<Longrightarrow> done_by (f k) k"
  shows "done_by (obnd (Some (expect e j)) (\<lambda>(b, k). if b then Some (Inr (Some v, k)) else f k)) i"
proof -
  obtain b k where k: "expect e j = Inr (b, k)" "input_ok k" "length (left k) \<le> length (left j)"
    using totalE [OF expect_total assms(1)] .
  have le: "length (left k) < length (left i)" using k(3) assms(2) by simp
  have "done_by (f k) i" by (rule done_by_less [OF assms(3) [OF k(2,3)]]) (use le in simp)
  moreover have "done_by (Some (Inr (Some v, k))) i" using k(2) le by (simp add: done_by_def)
  ultimately show ?thesis by (simp only: k(1) obnd_simps prod.case split: if_split) simp
qed

lemma done_if: "(b \<Longrightarrow> done_by x i) \<Longrightarrow> (\<not> b \<Longrightarrow> done_by y i) \<Longrightarrow> done_by (if b then x else y) i"
  by simp

lemma parse_value_done:
  assumes "input_ok i" "2 * length (left i) \<le> n"
    "\<And>j. input_ok j \<Longrightarrow> 2 * length (left j) + 1 < n \<Longrightarrow> done_by (parse_items n [] j) j"
    "\<And>j. input_ok j \<Longrightarrow> 2 * length (left j) < n \<Longrightarrow> done_by (parse_members n [] j) j"
  shows "done_by (parse_value (Suc n) i) i"
proof -
  obtain i' where i': "skip_ws i = Inr i'" "input_ok i'" "left i' = dropWhile is_ws (left i)"
    using skip_ws_reads [OF assms(1)] by blast
  then have le: "length (left i') \<le> length (left i)" by (simp add: dropWhile_length)
  have str: "total (\<lambda>k. bnd (parse_string [] k) (\<lambda>(t, l). Inr (map_option JString t, l)))"
    by (intro total_bnd parse_string_total total_return)
  show ?thesis
  proof (rule getc_cases [OF i'(2)])
    fix c j k
    assume j: "getc i' = (Some c, j)" "left i' = c # left j" "input_ok j" "ungetc j = Inr k" "left k = left i'" "input_ok k"
    have lt: "length (left j) < length (left i)" using j(2) le by simp
    have num: "done_by (Some (bnd (parse_number k) (\<lambda>(d, l). Inr (map_option JNumber d, l)))) i"
      if c: "is_digit c \<or> c = CHR ''-''"
    proof -
      obtain d l where l: "parse_number k = Inr (d, l)" "input_ok l" using totalE [OF parse_number_total j(6)] by metis
      have "length (left l) \<le> length (left j)"
        by (rule parse_number_less [OF j(6) _ _ l(1)]) (use j c in \<open>auto simp: is_number_char_def\<close>)
      then show ?thesis using l lt by (simp add: done_by_def)
    qed
    have arr: "done_by (obnd (Some (expect (CHR '']'') j)) (\<lambda>(b, k). if b then Some (Inr (Some (JArray []), k)) else parse_items n [] k)) i"
      by (rule done_by_expect [OF j(3) lt]) (use assms(2,3) lt in auto)
    have obj: "done_by (obnd (Some (expect (CHR ''}'') j)) (\<lambda>(b, k). if b then Some (Inr (Some (JObject []), k)) else parse_members n [] k)) i"
      by (rule done_by_expect [OF j(3) lt]) (use assms(2,4) lt in auto)
    have word: "done_by (Some (parse_word w v j)) i" for w v by (rule done_by_total [OF parse_word_total j(3) lt])
    have s: "done_by (Some (bnd (parse_string [] j) (\<lambda>(t, l). Inr (map_option JString t, l)))) i"
      by (rule done_by_total [OF str j(3) lt])
    have none: "done_by (Some (Inr (None, k))) i" using j le by (simp add: done_by_def)
    show ?thesis
      unfolding parse_value.simps(2) i'(1) obnd_simps j(1) prod.case j(4) bnd_simps(2) option.sel
      by (intro done_if; (rule word s arr obj none | rule num, simp)?)
  qed (use i' le in \<open>simp add: done_by_def\<close>)
qed

lemma done_by_close:
  assumes "input_ok j" "length (left j) < length (left i)"
    "\<And>k. input_ok k \<Longrightarrow> length (left k) \<le> length (left j) - 1 \<Longrightarrow> done_by (f k) k"
  shows "done_by (obnd (Some (expect (CHR '','') j)) (\<lambda>(b, k). if b then f k else Some (close_with c v k))) i"
proof -
  obtain b k where k: "expect (CHR '','') j = Inr (b, k)" "input_ok k" "length (left k) \<le> length (left j)"
    using totalE [OF expect_total assms(1)] .
  show ?thesis
  proof (cases b)
    case True
    then have "length (left k) < length (left j)" using expect_less [OF assms(1)] k(1) by simp
    then have le: "length (left k) \<le> length (left j) - 1" "length (left k) \<le> length (left i)" using assms(2) by simp_all
    have "done_by (f k) i" by (rule done_by_less [OF assms(3) [OF k(2) le(1)] le(2)])
    then show ?thesis by (simp only: k(1) obnd_simps prod.case True if_True)
  next
    case False
    have "done_by (Some (close_with c v k)) i"
      by (rule done_by_total [OF close_with_total k(2)]) (use k assms(2) in simp)
    then show ?thesis by (simp only: k(1) obnd_simps prod.case False if_False)
  qed
qed

lemma parser_done:
  "(\<forall>i. input_ok i \<and> 2 * length (left i) < n \<longrightarrow> done_by (parse_value n i) i) \<and>
   (\<forall>i vs. input_ok i \<and> 2 * length (left i) + 1 < n \<longrightarrow> done_by (parse_items n vs i) i) \<and>
   (\<forall>i m. input_ok i \<and> 2 * length (left i) < n \<longrightarrow> done_by (parse_members n m i) i)"
proof (induction n)
  case (Suc n)
  have v: "done_by (parse_value n i) i" if "input_ok i" "2 * length (left i) < n" for i using Suc that by blast
  have items: "done_by (parse_items n vs i) i" if "input_ok i" "2 * length (left i) + 1 < n" for i vs using Suc that by blast
  have members: "done_by (parse_members n m i) i" if "input_ok i" "2 * length (left i) < n" for i m using Suc that by blast
  have "done_by (parse_value (Suc n) i) i" if "input_ok i" "2 * length (left i) < Suc n" for i
    using that items members by (intro parse_value_done) simp_all
  moreover have "done_by (parse_items (Suc n) vs i) i" if i: "input_ok i" "2 * length (left i) + 1 < Suc n" for i vs
  proof -
    obtain r j where j: "parse_value n i = Some (Inr (r, j))" "input_ok j" "length (left j) \<le> length (left i)"
      "r \<noteq> None \<longrightarrow> length (left j) < length (left i)" using v [OF i(1)] i(2) unfolding done_by_def by auto
    show ?thesis
    proof (cases r)
      case (Some w)
      have "done_by (obnd (Some (expect (CHR '','') j)) (\<lambda>(b, k). if b then parse_items n (vs @ [w]) k
          else Some (close_with (CHR '']'') (JArray (vs @ [w])) k))) i"
      proof (rule done_by_close [OF j(2)])
        show "length (left j) < length (left i)" using j(4) Some by simp
        fix k
        assume "input_ok k" "length (left k) \<le> length (left j) - 1"
        then show "done_by (parse_items n (vs @ [w]) k) k"
          using j(4) Some i(2) by (intro items) simp_all
      qed
      then show ?thesis by (simp only: parse_items.simps(2) j(1) obnd_simps prod.case Some option.case)
    qed (use j in \<open>simp add: done_by_def\<close>)
  qed
  moreover have "done_by (parse_members (Suc n) m i) i" if i: "input_ok i" "2 * length (left i) < Suc n" for i m
  proof -
    obtain key j where j: "parse_key i = Inr (key, j)" "input_ok j" "length (left j) \<le> length (left i)"
      using totalE [OF parse_key_total i(1)] .
    show ?thesis
    proof (cases key)
      case (Some key')
      then have lt: "length (left j) < length (left i)" using parse_key_less i(1) j(1) by blast
      obtain r k where k: "parse_value n j = Some (Inr (r, k))" "input_ok k" "length (left k) \<le> length (left j)"
        using v [OF j(2)] lt i(2) unfolding done_by_def by auto
      show ?thesis
      proof (cases r)
        case (Some w)
        have "done_by (obnd (Some (expect (CHR '','') k)) (\<lambda>(b, l). if b then parse_members n (map_set key' w m) l
            else Some (close_with (CHR ''}'') (JObject (map_set key' w m)) l))) i"
        proof (rule done_by_close [OF k(2)])
          show "length (left k) < length (left i)" using k(3) lt by simp
          fix l
          assume "input_ok l" "length (left l) \<le> length (left k) - 1"
          then show "done_by (parse_members n (map_set key' w m) l) l"
            using k(3) lt i(2) by (intro members) simp_all
        qed
        then show ?thesis
          by (simp only: parse_members.simps(2) j(1) k(1) obnd_simps prod.case Some \<open>key = Some key'\<close> option.case)
      qed (use j k lt Some in \<open>simp add: done_by_def\<close>)
    qed (use j in \<open>simp add: done_by_def\<close>)
  qed
  ultimately show ?case by blast
qed simp

text \<open>C22. The JSON parser returns on every text: it needs at most twice as many nested calls as the text
  has characters, its assertion that one character at most is pushed back never fails, and what it
  returns is a value or a message that names the line.\<close>

theorem picojson_parse_returns:
  assumes "2 * length s < n"
  shows "(\<exists>v. picojson_parse n s = Some (Inr (Inr v))) \<or>
    (\<exists>l m. picojson_parse n s = Some (Inr (Inl (''syntax error at line '' @ show_nat l @ '' near: '' @ m))))"
proof -
  have i: "input_ok (input_of s)" "left (input_of s) = s" by (simp_all add: input_ok_def input_of_def left_def)
  then obtain r j where r: "parse_value n (input_of s) = Some (Inr (r, j))"
    using parser_done [of n] assms unfolding done_by_def by metis
  show ?thesis
    by (cases r) (auto simp only: picojson_parse_def r obnd_simps prod.case option.case syntax_error_def)
qed

theorem picojson_parse_returns_witness:
  "\<exists>l m. picojson_parse 9 ''[1,'' = Some (Inr (Inl (''syntax error at line '' @ show_nat l @ '' near: '' @ m)))"
proof -
  have "\<nexists>v. picojson_parse 9 ''[1,'' = Some (Inr (Inr v))"
    by (simp add: picojson_parse_def input_of_def eval_nat_numeral skip_ws.simps getc_def ungetc_def is_ws_def
        expect_def parse_number_def number_chars.simps is_number_char_def is_digit_def strtod_def strtod_exponent_def)
  then show ?thesis using picojson_parse_returns [of "''[1,''" 9] by auto
qed

declare parse_value.simps [simp del] parse_items.simps [simp del] parse_members.simps [simp del]

subsection \<open>Reading what was printed\<close>

lemma reads_bnd:
  "reads f s a t \<Longrightarrow> reads (g a) t b u \<Longrightarrow> reads (\<lambda>i. bnd (f i) (\<lambda>(x, j). g x j)) s b u"
  unfolding reads_def by fastforce

lemma reads_return: "reads (\<lambda>i. Inr (a, i)) s a s"
  by (simp add: reads_def)



lemma expect_end: "reads (expect e) [] False []"
  using expect_reads [of e "[]"] by simp

lemma reads_getc:
  assumes "\<And>i j k. getc i = (Some c, j) \<Longrightarrow> ungetc j = Inr k \<Longrightarrow> input_ok j \<Longrightarrow> left j = s \<Longrightarrow> f i = g j"
    "reads g s a t"
  shows "reads f (c # s) a t"
proof (rule readsI)
  fix i
  assume "input_ok i" "left i = c # s"
  then obtain j k where j: "getc i = (Some c, j)" "left j = s" "input_ok j" "ungetc j = Inr k" by (rule getc_next)
  obtain l where "g j = Inr (a, l)" "input_ok l" "left l = t" using readsE [OF assms(2) j(3,2)] .
  then show "\<exists>l. f i = Inr (a, l) \<and> input_ok l \<and> left l = t" using assms(1) [OF j(1,4,3,2)] by simp
qed

lemma quadhex_step: "hex_of c = Some h \<Longrightarrow> reads (quadhex n (u * 16 + h)) s a t \<Longrightarrow> reads (quadhex (Suc n) u) (c # s) a t"
  by (rule reads_getc) simp_all

lemma quadhex_four:
  assumes "hex_of a = Some x" "hex_of b = Some y" "hex_of c = Some z" "hex_of d = Some w"
  shows "reads (quadhex 4 0) (a # b # c # d # s) (Some (((x * 16 + y) * 16 + z) * 16 + w)) s"
proof -
  have "reads (quadhex (Suc (Suc (Suc (Suc 0)))) 0) (a # b # c # d # s) (Some (((x * 16 + y) * 16 + z) * 16 + w)) s"
    by (rule quadhex_step [OF assms(1)], rule quadhex_step [OF assms(2)], rule quadhex_step [OF assms(3)],
        rule quadhex_step [OF assms(4)]) (simp add: reads_def)
  then show ?thesis by (simp add: eval_nat_numeral)
qed

lemma parse_codepoint_plain:
  assumes "reads (quadhex 4 0) s (Some u) t" "u < 0xd800 \<or> 0xdfff < u"
  shows "reads parse_codepoint s (Some (utf8 u)) t"
  unfolding parse_codepoint_def by (rule reads_bnd [OF assms(1)]) (use assms(2) in \<open>auto simp: reads_def\<close>)





lemma hex_of_digit:
  assumes "n < 16"
  shows "hex_of (hex_digit n) = Some (int n)"
proof -
  have "\<forall>n \<in> set [0..<16]. hex_of (hex_digit n) = Some (int n)"
    by (simp add: upt_rec hex_digit_def hex_of_def byte_of_def)
  then show ?thesis using assms by simp
qed




subsection \<open>Numbers\<close>









subsection \<open>Values\<close>






















lemma serialize_nonempty: "serialize v \<noteq> []"
proof (cases v)
  case (JNumber d)
  then show ?thesis by (cases d) (auto simp: number_str_def Let_def)
qed (auto simp: serialize_str_def)












subsection \<open>Unicode escapes\<close>

text \<open>The four digits of a 16-bit unit, the escape of a character behind \<open>\u\<close>, and its UTF-8 bytes.\<close>

definition hex4 :: "nat \<Rightarrow> string" where
  "hex4 u = [hex_digit (u div 4096 mod 16), hex_digit (u div 256 mod 16), hex_digit (u div 16 mod 16), hex_digit (u mod 16)]"

definition unicode_escape :: "nat \<Rightarrow> string" where
  "unicode_escape u = (if u < 0x10000 then hex4 u
     else hex4 (0xD800 + (u - 0x10000) div 1024) @ [CHR 0x5C, CHR ''u''] @ hex4 (0xDC00 + (u - 0x10000) mod 1024))"

definition utf8_bytes :: "nat \<Rightarrow> nat list" where
  "utf8_bytes u =
     (if u < 0x80 then [u]
      else if u < 0x800 then [0xC0 + u div 64, 0x80 + u mod 64]
      else if u < 0x10000 then [0xE0 + u div 4096, 0x80 + u div 64 mod 64, 0x80 + u mod 64]
      else [0xF0 + u div 262144, 0x80 + u div 4096 mod 64, 0x80 + u div 64 mod 64, 0x80 + u mod 64])"

lemma byte_char_of: "0 \<le> u \<Longrightarrow> u < 256 \<Longrightarrow> byte_of (byte_char u) = nat u"
  by (simp add: byte_of_def byte_char_def)

lemma or_lead:
  "0 \<le> x \<Longrightarrow> x < 64 \<Longrightarrow> (0x80::int) OR x = 0x80 + x"
  "0 \<le> x \<Longrightarrow> x < 32 \<Longrightarrow> (0xc0::int) OR x = 0xc0 + x"
  "0 \<le> x \<Longrightarrow> x < 16 \<Longrightarrow> (0xe0::int) OR x = 0xe0 + x"
  "0 \<le> x \<Longrightarrow> x < 8 \<Longrightarrow> (0xf0::int) OR x = 0xf0 + x"
proof -
  have "\<forall>x \<in> set [0..63]. (0x80::int) OR x = 0x80 + x" "\<forall>x \<in> set [0..31]. (0xc0::int) OR x = 0xc0 + x"
    "\<forall>x \<in> set [0..15]. (0xe0::int) OR x = 0xe0 + x" "\<forall>x \<in> set [0..7]. (0xf0::int) OR x = 0xf0 + x" by code_simp+
  then show "0 \<le> x \<Longrightarrow> x < 64 \<Longrightarrow> (0x80::int) OR x = 0x80 + x" "0 \<le> x \<Longrightarrow> x < 32 \<Longrightarrow> (0xc0::int) OR x = 0xc0 + x"
    "0 \<le> x \<Longrightarrow> x < 16 \<Longrightarrow> (0xe0::int) OR x = 0xe0 + x" "0 \<le> x \<Longrightarrow> x < 8 \<Longrightarrow> (0xf0::int) OR x = 0xf0 + x" by auto
qed

lemma and_low: "(x::int) AND 0x3f = x mod 64" "x AND 0x3ff = x mod 1024"
  using take_bit_eq_mask [of 6 x] take_bit_eq_mask [of 10 x] by (simp_all add: take_bit_eq_mod mask_eq_exp_minus_1)

lemma utf8_bytes:
  assumes "u < 0x110000"
  shows "map byte_of (utf8 (int u)) = utf8_bytes u"
proof -
  have d: "drop_bit 6 (int u) = int (u div 64)" "drop_bit 12 (int u) = int (u div 4096)" "drop_bit 18 (int u) = int (u div 262144)"
    by (simp_all add: drop_bit_eq_div zdiv_int)
  have m: "int v mod 64 = int (v mod 64)" for v by (simp add: zmod_int)
  have c: "byte_of (byte_char (0x80 OR int (v mod 64))) = 0x80 + v mod 64" for v
    using or_lead(1) [of "int (v mod 64)"] byte_char_of [of "0x80 + int (v mod 64)"] by simp
  consider "u < 0x80" | "0x80 \<le> u" "u < 0x800" | "0x800 \<le> u" "u < 0x10000" | "0x10000 \<le> u" by linarith
  then show ?thesis
  proof cases
    case 1
    then show ?thesis using byte_char_of [of "int u"] by (simp add: utf8_def utf8_bytes_def)
  next
    case 2
    then have "u div 64 < 32" by simp
    then have "byte_of (byte_char (0xc0 OR int (u div 64))) = 0xc0 + u div 64"
      using or_lead(2) [of "int (u div 64)"] byte_char_of [of "0xc0 + int (u div 64)"] by simp
    then show ?thesis using 2 by (simp add: utf8_def utf8_bytes_def and_low m c d del: of_nat_mod)
  next
    case 3
    then have "u div 4096 < 16" by simp
    then have "byte_of (byte_char (0xe0 OR int (u div 4096))) = 0xe0 + u div 4096"
      using or_lead(3) [of "int (u div 4096)"] byte_char_of [of "0xe0 + int (u div 4096)"] by simp
    then show ?thesis using 3 by (simp add: utf8_def utf8_bytes_def and_low m c d)
  next
    case 4
    have "u div 262144 < 8" using assms by simp
    then have "byte_of (byte_char (0xf0 OR int (u div 262144))) = 0xf0 + u div 262144"
      using or_lead(4) [of "int (u div 262144)"] byte_char_of [of "0xf0 + int (u div 262144)"] by simp
    then show ?thesis using 4 by (simp add: utf8_def utf8_bytes_def and_low m c d)
  qed
qed

lemma hex4_reads: "u < 0x10000 \<Longrightarrow> reads (quadhex 4 0) (hex4 u @ s) (Some (int u)) s"
proof -
  assume u: "u < 0x10000"
  let ?a = "u div 4096 mod 16" and ?b = "u div 256 mod 16" and ?c = "u div 16 mod 16" and ?d = "u mod 16"
  have "u div 16 = u div 256 * 16 + u div 16 mod 16" "u div 256 = u div 4096 * 16 + u div 256 mod 16"
    using div_mult_mod_eq [of "u div 16" 16] div_mult_mod_eq [of "u div 256" 16] by (simp_all add: div_mult2_eq [symmetric])
  moreover have "?a = u div 4096" using u by simp
  ultimately have "((?a * 16 + ?b) * 16 + ?c) * 16 + ?d = u" using div_mult_mod_eq [of u 16] by metis
  then have u: "((int ?a * 16 + int ?b) * 16 + int ?c) * 16 + int ?d = int u" by (metis of_nat_add of_nat_mult of_nat_numeral)
  have "reads (quadhex 4 0) (hex_digit ?a # hex_digit ?b # hex_digit ?c # hex_digit ?d # s)
      (Some (((int ?a * 16 + int ?b) * 16 + int ?c) * 16 + int ?d)) s"
    by (intro quadhex_four hex_of_digit) simp_all
  then show ?thesis unfolding u by (simp add: hex4_def)
qed

lemma parse_codepoint_pair:
  assumes "reads (quadhex 4 0) s (Some u) (CHR 0x5C # CHR ''u'' # t)" "reads (quadhex 4 0) t (Some w) r"
    "0xd800 \<le> u" "u < 0xdc00" "0xdc00 \<le> w" "w \<le> 0xdfff"
  shows "reads parse_codepoint s (Some (utf8 ((u - 0xd800) * 1024 + (w - 0xdc00) + 0x10000))) r"
proof -
  let ?v = "(push_bit 10 (u - 0xd800) OR ((w - 0xdc00) AND 0x3ff)) + 0x10000"
  have "push_bit 10 (u - 0xd800) OR take_bit 10 (w - 0xdc00) = concat_bit 10 (w - 0xdc00) (u - 0xd800)"
    by (simp add: concat_bit_def or.commute)
  also have "\<dots> = take_bit 10 (w - 0xdc00) + push_bit 10 (u - 0xd800)" by (simp add: concat_bit_eq)
  finally have v: "?v = (u - 0xd800) * 1024 + (w - 0xdc00) + 0x10000"
    using assms(5,6) take_bit_eq_mask [of 10 "w - 0xdc00"]
    by (simp add: push_bit_eq_mult mask_eq_exp_minus_1 take_bit_int_eq_self)
  have "reads (\<lambda>i3. bnd (quadhex 4 0 i3) (\<lambda>(w, i4). case w of
                Some w \<Rightarrow> if 0xdc00 \<le> w \<and> w \<le> 0xdfff then
                    Inr (Some (utf8 ((push_bit 10 (u - 0xd800) OR ((w - 0xdc00) AND 0x3ff)) + 0x10000)), i4)
                  else Inr (None, i4)
              | None \<Rightarrow> Inr (None, i4))) t (Some (utf8 ?v)) r" (is "reads ?f _ _ _")
    by (rule reads_bnd [OF assms(2)]) (use assms(5,6) in \<open>simp add: reads_return\<close>)
  then have "reads (\<lambda>i2. case getc i2 of (c, i3) \<Rightarrow>
              if c \<noteq> Some (CHR ''u'') then bnd (ungetc i3) (\<lambda>k. Inr (None, k)) else ?f i3) (CHR ''u'' # t) (Some (utf8 ?v)) r"
    by (rule reads_getc [rotated]) simp
  then have "reads (\<lambda>i1. case getc i1 of (c, i2) \<Rightarrow>
              if c \<noteq> Some (CHR 0x5C) then bnd (ungetc i2) (\<lambda>k. Inr (None, k))
              else case getc i2 of (c, i3) \<Rightarrow>
              if c \<noteq> Some (CHR ''u'') then bnd (ungetc i3) (\<lambda>k. Inr (None, k)) else ?f i3)
      (CHR 0x5C # CHR ''u'' # t) (Some (utf8 ?v)) r"
    by (rule reads_getc [rotated]) simp
  then show ?thesis
    unfolding parse_codepoint_def v by (intro reads_bnd [OF assms(1)]) (use assms(3,4) in simp)
qed

text \<open>C24. Every Unicode character that is written as an escape, with two units beyond the first plane, is
  read as its encoding in UTF-8.\<close>

theorem unicode_escape_utf8:
  assumes "u < 0x110000" "\<not> (0xD800 \<le> u \<and> u < 0xE000)" "input_ok i" "left i = unicode_escape u @ s"
  shows "\<exists>t j. parse_codepoint i = Inr (Some t, j) \<and> left j = s \<and> map byte_of t = utf8_bytes u"
proof -
  have "reads parse_codepoint (unicode_escape u @ s) (Some (utf8 (int u))) s"
  proof (cases "u < 0x10000")
    case True
    show ?thesis unfolding unicode_escape_def if_P [OF True]
      by (rule parse_codepoint_plain [OF hex4_reads [OF True]]) (use assms(2) in auto)
  next
    case False
    define x y where "x = (u - 0x10000) div 1024" and "y = (u - 0x10000) mod 1024"
    have xy: "x < 1024" "y < 1024" "int u = int x * 1024 + int y + 0x10000"
      using False assms(1) unfolding x_def y_def by (simp_all add: of_nat_diff zdiv_int zmod_int)
    have "reads (quadhex 4 0) (hex4 (0xD800 + x) @ CHR 0x5C # CHR ''u'' # hex4 (0xDC00 + y) @ s)
        (Some (int (0xD800 + x))) (CHR 0x5C # CHR ''u'' # hex4 (0xDC00 + y) @ s)"
      "reads (quadhex 4 0) (hex4 (0xDC00 + y) @ s) (Some (int (0xDC00 + y))) s"
      using xy hex4_reads [of "0xD800 + x"] hex4_reads [of "0xDC00 + y"] by simp_all
    from parse_codepoint_pair [OF this] show ?thesis
      using False xy by (simp add: unicode_escape_def flip: x_def y_def)
  qed
  then show ?thesis using readsE [OF _ assms(3,4)] utf8_bytes [OF assms(1)] by metis
qed

theorem unicode_escape_utf8_witness:
  "\<exists>t j. parse_codepoint (input_of ([CHR ''d'', CHR ''8'', CHR ''4'', CHR ''0'', CHR 0x5C, CHR ''u'', CHR ''d'', CHR ''c'', CHR ''0'', CHR ''b'']
      @ ''z'')) = Inr (Some t, j) \<and> left j = ''z'' \<and> map byte_of t = [0xF0, 0xA0, 0x80, 0x8B]"
  using unicode_escape_utf8 [where u = 131083 and s = "''z''"]
  by (simp add: unicode_escape_def hex4_def hex_digit_def input_ok_def input_of_def left_def utf8_bytes_def)

end
