(* ===== verification/Tora_Json_Binding.thy ===== *)
theory Tora_Json_Binding
  imports Tora_Json_Props
begin

text \<open>
  The binding \<open>ext/JSON/json.cc\<close> and the parser together: what \<open>JSON.encode\<close> writes is JSON except for
  hashes with two entries or more, and comes back from \<open>JSON.decode\<close> unless it holds null.
\<close>

subsection \<open>The binding\<close>


























end
