(* ===== verification/Tora_Parser.thy ===== *)
theory Tora_Parser
  imports Tora_Prelude
begin

text \<open>
  The driver of the generated parser (\<open>tora/lempar.c\<close>, class \<open>Parser\<close>): a stack automaton over the
  tables that lemon generates. The tables, the actions of the rules and the tokens of the scanner are
  not part of the repository and are parameters. The grammar of tora declares no error symbol, no
  fallback, no wildcard and no destructor, and leaves the depth of the stack at its default. Assertions
  are on (no \<open>NDEBUG\<close>); the trace and the messages on the standard error are not modelled.
\<close>

subsection \<open>Tables and state\<close>

text \<open>
  \<open>'m\<close> is the type of semantic values (\<open>Node*\<close>). \<open>rule_action\<close> is the switch of \<open>yy_reduce\<close> that lemon
  fills in: the value of the left-hand side and, for the rule of the start symbol, the root of the tree.
  \<open>put_lineno\<close> is the assignment of the line to a value that is not null.
\<close>

record 'm tables =
  nstate :: nat
  nrule :: nat
  yy_action :: "nat list"
  yy_lookahead :: "nat list"
  shift_count :: nat
  shift_ofst :: "int list"
  shift_use_dflt :: int
  reduce_count :: nat
  reduce_ofst :: "int list"
  reduce_use_dflt :: int
  yy_default :: "nat list"
  rule_info :: "(nat \<times> nat) list"
  yynocode :: nat
  stack_depth :: nat
  zero_minor :: 'm
  rule_action :: "nat \<Rightarrow> 'm list \<Rightarrow> 'm \<times> 'm option"
  put_lineno :: "int \<Rightarrow> 'm \<Rightarrow> 'm"

definition accept_action :: "'m tables \<Rightarrow> nat" where
  "accept_action T = nstate T + nrule T + 1"

definition error_action :: "'m tables \<Rightarrow> nat" where
  "error_action T = nstate T + nrule T"

record 'm yyStackEntry =
  stateno :: nat
  major :: nat
  minor :: 'm

text \<open>The entries up to \<open>yyidx\<close>, the topmost last.\<close>

record 'm yyParser =
  yystack :: "'m yyStackEntry list"
  yyerrcnt :: int

text \<open>\<open>ParserState\<close> (\<open>tora/lexer.h\<close>)\<close>

record 'm ParserState =
  perrors :: nat
  failure :: bool
  root_node :: "'m option"
  plineno :: int

type_synonym 'a run = "(unit, 'a) result"

definition fetch :: "'a list \<Rightarrow> nat \<Rightarrow> 'a run" where
  "fetch xs i = (if i < length xs then Inr (xs ! i) else Inl Undefined)"

definition assertion :: "bool \<Rightarrow> 'a run \<Rightarrow> 'a run" where
  "assertion b r = (if b then r else Inl Abort)"

text \<open>Only the index of the stack is set; the count of errors is what the allocated memory holds.\<close>

definition ParseAlloc :: "int \<Rightarrow> 'm yyParser" where
  "ParseAlloc e = \<lparr>yystack = [], yyerrcnt = e\<rparr>"

definition new_pstate :: "'m ParserState" where
  "new_pstate = \<lparr>perrors = 0, failure = False, root_node = None, plineno = 0\<rparr>"

subsection \<open>Actions\<close>

text \<open>\<open>yy_find_shift_action\<close> for the state on top of the stack.\<close>

definition shift_action :: "'m tables \<Rightarrow> nat \<Rightarrow> nat \<Rightarrow> nat run" where
  "shift_action T s a =
     (if shift_count T < s then fetch (yy_default T) s
      else bnd (fetch (shift_ofst T) s) (\<lambda>i.
        if i = shift_use_dflt T then fetch (yy_default T) s
        else assertion (a \<noteq> yynocode T)
          (let i = i + int a
           in if i < 0 \<or> int (length (yy_action T)) \<le> i then fetch (yy_default T) s
              else bnd (fetch (yy_lookahead T) (nat i)) (\<lambda>l.
                if l \<noteq> a then fetch (yy_default T) s else fetch (yy_action T) (nat i)))))"

definition yy_find_shift_action :: "'m tables \<Rightarrow> 'm yyParser \<Rightarrow> nat \<Rightarrow> nat run" where
  "yy_find_shift_action T p a = (if yystack p = [] then Inl Undefined
     else shift_action T (stateno (last (yystack p))) a)"

definition yy_find_reduce_action :: "'m tables \<Rightarrow> nat \<Rightarrow> nat \<Rightarrow> nat run" where
  "yy_find_reduce_action T s a = assertion (s \<le> reduce_count T)
     (bnd (fetch (reduce_ofst T) s) (\<lambda>i.
        assertion (i \<noteq> reduce_use_dflt T) (assertion (a \<noteq> yynocode T)
          (let i = i + int a
           in assertion (0 \<le> i \<and> i < int (length (yy_action T)))
             (bnd (fetch (yy_lookahead T) (nat i)) (\<lambda>l.
                assertion (l = a) (fetch (yy_action T) (nat i))))))))"

subsection \<open>Moves\<close>

definition pop_all :: "'m yyParser \<Rightarrow> 'm yyParser" where
  "pop_all p = p\<lparr>yystack := []\<rparr>"

text \<open>A full stack is emptied and counts as an error.\<close>

definition yy_shift :: "'m tables \<Rightarrow> nat \<Rightarrow> nat \<Rightarrow> 'm \<Rightarrow> 'm yyParser \<times> 'm ParserState \<Rightarrow> 'm yyParser \<times> 'm ParserState" where
  "yy_shift T s a m ps = (case ps of (p, st) \<Rightarrow>
     if stack_depth T \<le> length (yystack p) then (pop_all p, st\<lparr>perrors := perrors st + 1\<rparr>)
     else (p\<lparr>yystack := yystack p @ [\<lparr>stateno = s, major = a, minor = m\<rparr>]\<rparr>, st))"

definition yy_accept :: "'m yyParser \<Rightarrow> 'm yyParser" where
  "yy_accept p = pop_all p"

definition yy_reduce :: "'m tables \<Rightarrow> nat \<Rightarrow> 'm yyParser \<times> 'm ParserState \<Rightarrow> ('m yyParser \<times> 'm ParserState) run" where
  "yy_reduce T r ps = (case ps of (p, st) \<Rightarrow>
     bnd (fetch (rule_info T) r) (\<lambda>(lhs, nrhs).
       let n = length (yystack p)
       in if n \<le> nrhs then Inl Undefined
       else let below = take (n - nrhs) (yystack p);
                (m, new_root) = rule_action T r (map minor (drop (n - nrhs) (yystack p)));
                st1 = (case new_root of None \<Rightarrow> st | Some t \<Rightarrow> st\<lparr>root_node := Some t\<rparr>);
                m = put_lineno T (plineno st) m;
                p1 = p\<lparr>yystack := below\<rparr>
            in bnd (yy_find_reduce_action T (stateno (last below)) lhs) (\<lambda>a.
              if a < nstate T then Inr (yy_shift T a lhs m (p1, st1))
              else assertion (a = accept_action T) (Inr (yy_accept p1, st1)))))"

definition yy_syntax_error :: "'m ParserState \<Rightarrow> 'm ParserState" where
  "yy_syntax_error st = st\<lparr>perrors := perrors st + 1\<rparr>"

definition yy_parse_failed :: "'m yyParser \<times> 'm ParserState \<Rightarrow> 'm yyParser \<times> 'm ParserState" where
  "yy_parse_failed ps = (case ps of (p, st) \<Rightarrow> (pop_all p, st\<lparr>failure := True\<rparr>))"

subsection \<open>The main loop (Parser::Parse)\<close>

text \<open>
  The token 0 is the end of the input. A turn of the loop shifts the token, reduces, or reports the
  token as an error and drops it; only a reduction that leaves a stack is followed by another turn.
\<close>

fun parse_loop :: "'m tables \<Rightarrow> nat \<Rightarrow> nat \<Rightarrow> 'm \<Rightarrow> 'm yyParser \<times> 'm ParserState \<Rightarrow> ('m yyParser \<times> 'm ParserState) run option" where
  "parse_loop T 0 tok m ps = None"
| "parse_loop T (Suc n) tok m ps = (case yy_find_shift_action T (fst ps) tok of
       Inl e \<Rightarrow> Some (Inl e)
     | Inr a \<Rightarrow>
         if a < nstate T then
           Some (assertion (tok \<noteq> 0) (case yy_shift T a tok m ps of (p, st) \<Rightarrow> Inr (p\<lparr>yyerrcnt := yyerrcnt p - 1\<rparr>, st)))
         else if a < nstate T + nrule T then
           (case yy_reduce T (a - nstate T) ps of
              Inl e \<Rightarrow> Some (Inl e)
            | Inr ps1 \<Rightarrow> if yystack (fst ps1) = [] then Some (Inr ps1) else parse_loop T n tok m ps1)
         else Some (assertion (a = error_action T)
           (case ps of (p, st) \<Rightarrow>
              let st1 = (if yyerrcnt p \<le> 0 then yy_syntax_error st else st);
                  p1 = p\<lparr>yyerrcnt := 3\<rparr>
              in Inr (if tok = 0 then yy_parse_failed (p1, st1) else (p1, st1)))))"

definition restart :: "'m tables \<Rightarrow> 'm yyParser \<Rightarrow> 'm yyParser" where
  "restart T p = (if yystack p = [] then p\<lparr>yystack := [\<lparr>stateno = 0, major = 0, minor = zero_minor T\<rparr>], yyerrcnt := - 1\<rparr> else p)"

definition Parse :: "'m tables \<Rightarrow> nat \<Rightarrow> nat \<Rightarrow> 'm \<Rightarrow> 'm yyParser \<times> 'm ParserState \<Rightarrow> ('m yyParser \<times> 'm ParserState) run option" where
  "Parse T n tok m ps = (case ps of (p, st) \<Rightarrow> parse_loop T n tok m (restart T p, st))"

text \<open>The loop of \<open>VM::eval\<close> over the tokens of the scanner, each with its value and its line.\<close>

definition set_lineno :: "int \<Rightarrow> 'm ParserState \<Rightarrow> 'm ParserState" where
  "set_lineno l st = st\<lparr>plineno := l\<rparr>"

fun parse_tokens :: "'m tables \<Rightarrow> nat \<Rightarrow> (nat \<times> 'm \<times> int) list \<Rightarrow> 'm yyParser \<times> 'm ParserState \<Rightarrow> ('m yyParser \<times> 'm ParserState) run option" where
  "parse_tokens T n [] ps = Some (Inr ps)"
| "parse_tokens T n ((tok, m, l) # ts) ps = (case ps of (p, st) \<Rightarrow>
     (case Parse T n tok m (p, set_lineno l st) of
        Some (Inr ps1) \<Rightarrow> parse_tokens T n ts ps1
      | r \<Rightarrow> r))"

definition is_failure :: "'m ParserState \<Rightarrow> bool" where
  "is_failure st = (failure st \<or> 0 < perrors st)"

end
