(* ===== verification/Tora_Parser_Props.thy ===== *)
theory Tora_Parser_Props
  imports Tora_Parser
begin

text \<open>
  The driver of the parser over the tables of an LR automaton: it stays within its arrays and its stack,
  returns, and accepts only sentences of the grammar.
\<close>

subsection \<open>Grammars and derivation trees\<close>

type_synonym grammar = "(nat \<times> nat list) list"

datatype tree = Leaf nat | Branch nat "tree list"

fun root_symbol :: "grammar \<Rightarrow> tree \<Rightarrow> nat" where
  "root_symbol R (Leaf a) = a"
| "root_symbol R (Branch r ts) = fst (R ! r)"

fun yield :: "tree \<Rightarrow> nat list" where
  "yield (Leaf a) = [a]"
| "yield (Branch r ts) = concat (map yield ts)"

fun wf_tree :: "grammar \<Rightarrow> nat \<Rightarrow> tree \<Rightarrow> bool" where
  "wf_tree R k (Leaf a) = (a < k)"
| "wf_tree R k (Branch r ts) = (r < length R \<and> map (root_symbol R) ts = snd (R ! r) \<and> (\<forall>t \<in> set ts. wf_tree R k t))"


subsection \<open>What the tables are\<close>

text \<open>
  An item is a rule with a position in its right-hand side. A move into a state on a symbol has that
  symbol before the position of every item of the state that is not at its beginning, and the state
  below has the item one symbol back. This is how an LR automaton is made; nothing is assumed of
  lookaheads but that a rule for the start symbol is only reduced at the end of the input.
\<close>

definition moves :: "grammar \<Rightarrow> (nat \<Rightarrow> (nat \<times> nat) set) \<Rightarrow> nat \<Rightarrow> nat \<Rightarrow> nat \<Rightarrow> bool" where
  "moves R items s x s' = (s' \<noteq> 0 \<and> (\<forall>(r, d) \<in> items s'. d = 0 \<or>
     (r, d - 1) \<in> items s \<and> d \<le> length (snd (R ! r)) \<and> snd (R ! r) ! (d - 1) = x))"

definition lr_tables :: "'m tables \<Rightarrow> grammar \<Rightarrow> nat \<Rightarrow> nat \<Rightarrow> (nat \<Rightarrow> (nat \<times> nat) set) \<Rightarrow> bool" where
  "lr_tables T R k start items =
     (rule_info T = map (\<lambda>(l, rhs). (l, length rhs)) R \<and> nrule T = length R \<and> 0 < nstate T \<and> 0 < stack_depth T \<and>
      (\<forall>(r, d) \<in> items 0. d = 0) \<and>
      (\<forall>s < nstate T. \<forall>a < k. \<exists>x. shift_action T s a = Inr x \<and> x \<le> error_action T \<and>
         (x < nstate T \<longrightarrow> a \<noteq> 0 \<and> moves R items s a x) \<and>
         (nstate T \<le> x \<and> x < error_action T \<longrightarrow>
            (x - nstate T, length (snd (R ! (x - nstate T)))) \<in> items s \<and> (fst (R ! (x - nstate T)) = start \<longrightarrow> a = 0))) \<and>
      (\<forall>s < nstate T. \<forall>r < length R. (r, 0) \<in> items s \<longrightarrow>
         (\<exists>x. yy_find_reduce_action T s (fst (R ! r)) = Inr x \<and>
           (x < nstate T \<and> moves R items s (fst (R ! r)) x \<or> x = accept_action T \<and> s = 0 \<and> fst (R ! r) = start))))"

lemma lr_shape:
  assumes "lr_tables T R k start items"
  shows "rule_info T = map (\<lambda>(l, rhs). (l, length rhs)) R" "nrule T = length R" "0 < nstate T" "0 < stack_depth T"
    "(r, d) \<in> items 0 \<Longrightarrow> d = 0"
  using assms unfolding lr_tables_def by blast+

lemma lr_shift:
  assumes "lr_tables T R k start items" "s < nstate T" "a < k"
  obtains (shift) x where "shift_action T s a = Inr x" "x < nstate T" "a \<noteq> 0" "moves R items s a x"
  | (reduce) r where "shift_action T s a = Inr (nstate T + r)" "r < length R"
      "(r, length (snd (R ! r))) \<in> items s" "fst (R ! r) = start \<Longrightarrow> a = 0"
  | (error) "shift_action T s a = Inr (error_action T)"
proof -
  obtain x where x: "shift_action T s a = Inr x" "x \<le> error_action T" "x < nstate T \<longrightarrow> a \<noteq> 0 \<and> moves R items s a x"
    "nstate T \<le> x \<and> x < error_action T \<longrightarrow>
       (x - nstate T, length (snd (R ! (x - nstate T)))) \<in> items s \<and> (fst (R ! (x - nstate T)) = start \<longrightarrow> a = 0)"
    using assms unfolding lr_tables_def by blast
  have n: "error_action T = nstate T + length R" using lr_shape(2) [OF assms(1)] by (simp add: error_action_def)
  consider "x < nstate T" | "nstate T \<le> x" "x < error_action T" | "x = error_action T" using x(2) by linarith
  then show thesis
  proof cases
    case 1
    then show thesis using shift x by blast
  next
    case 2
    then show thesis using reduce [of "x - nstate T"] x n by auto
  next
    case 3
    then show thesis using error x(1) by simp
  qed
qed

lemma lr_goto:
  assumes "lr_tables T R k start items" "s < nstate T" "r < length R" "(r, 0) \<in> items s"
  obtains (goto) x where "yy_find_reduce_action T s (fst (R ! r)) = Inr x" "x < nstate T" "moves R items s (fst (R ! r)) x"
  | (accept) "yy_find_reduce_action T s (fst (R ! r)) = Inr (accept_action T)" "s = 0" "fst (R ! r) = start"
proof -
  have "\<forall>s < nstate T. \<forall>r < length R. (r, 0) \<in> items s \<longrightarrow>
     (\<exists>x. yy_find_reduce_action T s (fst (R ! r)) = Inr x \<and>
       (x < nstate T \<and> moves R items s (fst (R ! r)) x \<or> x = accept_action T \<and> s = 0 \<and> fst (R ! r) = start))"
    using assms(1) unfolding lr_tables_def by (elim conjE)
  then obtain x where "yy_find_reduce_action T s (fst (R ! r)) = Inr x"
    "x < nstate T \<and> moves R items s (fst (R ! r)) x \<or> x = accept_action T \<and> s = 0 \<and> fst (R ! r) = start"
    using assms(2-4) by metis
  then show thesis using goto accept by metis
qed

subsection \<open>Stacks\<close>

fun linked :: "'m tables \<Rightarrow> grammar \<Rightarrow> (nat \<Rightarrow> (nat \<times> nat) set) \<Rightarrow> nat \<Rightarrow> 'm yyStackEntry list \<Rightarrow> bool" where
  "linked T R items s [] = True"
| "linked T R items s (e # es) = (moves R items s (major e) (stateno e) \<and> stateno e < nstate T \<and> linked T R items (stateno e) es)"

definition top_state :: "nat \<Rightarrow> 'm yyStackEntry list \<Rightarrow> nat" where
  "top_state s es = (if es = [] then s else stateno (last es))"

lemma top_state_simps [simp]: "top_state s [] = s" "top_state s (es @ [e]) = stateno e"
  by (simp_all add: top_state_def)

lemma linked_append: "linked T R items s (es @ [e]) \<longleftrightarrow>
    linked T R items s es \<and> moves R items (top_state s es) (major e) (stateno e) \<and> stateno e < nstate T"
  by (induction es arbitrary: s) (auto simp: top_state_def)

lemma linked_take: "linked T R items s es \<Longrightarrow> linked T R items s (take n es)"
  by (induction es arbitrary: s n) (auto simp: take_Cons split: nat.split)

lemma linked_top: "linked T R items s es \<Longrightarrow> s < nstate T \<Longrightarrow> top_state s es < nstate T"
  by (induction es arbitrary: s) (auto simp: top_state_def)

lemma linked_zero: "linked T R items s es \<Longrightarrow> es \<noteq> [] \<Longrightarrow> top_state s es \<noteq> 0"
  by (cases es rule: rev_cases) (auto simp: linked_append moves_def)

text \<open>An item of the topmost state has the symbols before its position on the stack.\<close>

lemma item_on_stack:
  assumes "linked T R items 0 es" "(r, d) \<in> items (top_state 0 es)" "\<And>r d. (r, d) \<in> items 0 \<Longrightarrow> d = 0" "d \<le> length (snd (R ! r))"
  shows "d \<le> length es \<and> map major (drop (length es - d) es) = take d (snd (R ! r)) \<and>
    (r, 0) \<in> items (top_state 0 (take (length es - d) es))"
  using assms(1,2,4)
proof (induction es arbitrary: d rule: rev_induct)
  case Nil
  then have "d = 0" using assms(3) by simp
  then show ?case using Nil by simp
next
  case (snoc e es)
  show ?case
  proof (cases d)
    case 0
    then show ?thesis using snoc.prems by simp
  next
    case (Suc c)
    then have m: "(r, c) \<in> items (top_state 0 es)" "snd (R ! r) ! c = major e" "linked T R items 0 es"
      using snoc.prems by (auto simp: linked_append moves_def)
    then have i: "c \<le> length es" "map major (drop (length es - c) es) = take c (snd (R ! r))"
      "(r, 0) \<in> items (top_state 0 (take (length es - c) es))" using snoc.IH [of c] snoc.prems(3) Suc by auto
    have "take d (snd (R ! r)) = take c (snd (R ! r)) @ [major e]"
      using Suc m(2) snoc.prems(3) by (simp add: take_Suc_conv_app_nth)
    then show ?thesis using Suc i by simp
  qed
qed

definition forest :: "grammar \<Rightarrow> nat \<Rightarrow> 'm yyStackEntry list \<Rightarrow> tree list \<Rightarrow> bool" where
  "forest R k es ts = list_all2 (\<lambda>e t. major e = root_symbol R t \<and> wf_tree R k t) es ts"

text \<open>The entries above the bottom stand for derivation trees of the tokens shifted since the last restart.\<close>

definition on_stack :: "'m tables \<Rightarrow> grammar \<Rightarrow> nat \<Rightarrow> (nat \<Rightarrow> (nat \<times> nat) set) \<Rightarrow> 'm yyParser \<Rightarrow> tree list \<Rightarrow> bool" where
  "on_stack T R k items p ts = (\<exists>b es. yystack p = b # es \<and> stateno b = 0 \<and> linked T R items 0 es \<and> forest R k es ts \<and>
     Suc (length es) \<le> stack_depth T)"

lemma forest_snoc: "forest R k es ts \<Longrightarrow> major e = root_symbol R t \<Longrightarrow> wf_tree R k t \<Longrightarrow> forest R k (es @ [e]) (ts @ [t])"
  by (simp add: forest_def list_all2_appendI)

lemma forest_labels: "forest R k es ts \<Longrightarrow> map major es = map (root_symbol R) ts \<and> (\<forall>t \<in> set ts. wf_tree R k t) \<and> length ts = length es"
  unfolding forest_def by (induction rule: list_all2_induct) auto

lemma shift_on_stack:
  assumes "on_stack T R k items p ts" "moves R items (stateno (last (yystack p))) a x" "x < nstate T"
    "a = root_symbol R t" "wf_tree R k t" "yy_shift T x a m (p, st) = (p', st')"
  shows "yyerrcnt p' = yyerrcnt p \<and> failure st' = failure st \<and>
    (yystack p' = [] \<and> perrors st' = perrors st + 1 \<or> on_stack T R k items p' (ts @ [t]) \<and> perrors st' = perrors st)"
proof -
  obtain b es where p: "yystack p = b # es" "stateno b = 0" "linked T R items 0 es" "forest R k es ts" "Suc (length es) \<le> stack_depth T"
    using assms(1) unfolding on_stack_def by blast
  have "stateno (last (yystack p)) = top_state 0 es" using p by (simp add: top_state_def)
  then have l: "linked T R items 0 (es @ [\<lparr>stateno = x, major = a, minor = m\<rparr>])"
    using p(3) assms(2,3) by (simp add: linked_append)
  have f: "forest R k (es @ [\<lparr>stateno = x, major = a, minor = m\<rparr>]) (ts @ [t])" using p(4) assms(4,5) by (simp add: forest_snoc)
  show ?thesis
  proof (cases "stack_depth T \<le> length (yystack p)")
    case True
    then have "p' = pop_all p \<and> st' = st\<lparr>perrors := perrors st + 1\<rparr>" using assms(6) by (simp add: yy_shift_def)
    then show ?thesis by (simp add: pop_all_def)
  next
    case False
    then have q: "p' = p\<lparr>yystack := b # es @ [\<lparr>stateno = x, major = a, minor = m\<rparr>]\<rparr>" "st' = st" "Suc (length es) < stack_depth T"
      using assms(6) p(1) by (simp_all add: yy_shift_def)
    then have "on_stack T R k items p' (ts @ [t])" using p(2) l f
      unfolding on_stack_def by (intro exI [of _ b] exI [of _ "es @ [\<lparr>stateno = x, major = a, minor = m\<rparr>]"]) simp
    then show ?thesis using q by simp
  qed
qed

lemma reduce_on_stack:
  assumes lr: "lr_tables T R k start items" and st: "on_stack T R k items p ts" and r: "r < length R"
    "(r, length (snd (R ! r))) \<in> items (stateno (last (yystack p)))"
  obtains p' st' where "yy_reduce T r (p, st) = Inr (p', st')" "yyerrcnt p' = yyerrcnt p" "failure st' = failure st"
    "yystack p' = [] \<and> perrors st' = perrors st + 1 \<or>
     yystack p' = [] \<and> perrors st' = perrors st \<and> fst (R ! r) = start \<and> wf_tree R k (Branch r ts) \<or>
     perrors st' = perrors st \<and> (\<exists>j \<le> length ts. on_stack T R k items p' (take j ts @ [Branch r (drop j ts)]))"
proof -
  let ?n = "length (snd (R ! r))"
  obtain b es where p: "yystack p = b # es" "stateno b = 0" "linked T R items 0 es" "forest R k es ts" "Suc (length es) \<le> stack_depth T"
    using st unfolding on_stack_def by blast
  have top: "stateno (last (yystack p)) = top_state 0 es" using p by (simp add: top_state_def)
  define j where "j = length es - ?n"
  have i: "?n \<le> length es" "map major (drop j es) = snd (R ! r)" "(r, 0) \<in> items (top_state 0 (take j es))"
  proof -
    have it: "(r, ?n) \<in> items (top_state 0 es)" using r(2) by (simp only: top)
    have "\<And>r d. (r, d) \<in> items 0 \<Longrightarrow> d = 0" by (rule lr_shape(5) [OF lr])
    from item_on_stack [OF p(3) it this order_refl]
    show "?n \<le> length es" "map major (drop j es) = snd (R ! r)" "(r, 0) \<in> items (top_state 0 (take j es))"
      by (simp_all add: j_def)
  qed
  have len: "length ts = length es" using forest_labels [OF p(4)] by simp
  have f: "forest R k (take j es) (take j ts)" "forest R k (drop j es) (drop j ts)"
    using p(4) unfolding forest_def by (simp_all add: list_all2_takeI list_all2_dropI)
  have t: "wf_tree R k (Branch r (drop j ts))" using forest_labels [OF f(2)] i(2) r(1) by simp
  have info: "fetch (rule_info T) r = Inr (fst (R ! r), ?n)"
    using r(1) lr_shape(1) [OF lr] by (simp add: fetch_def split: prod.split)
  obtain m nr where m: "rule_action T r (map minor (drop (Suc j) (b # es))) = (m, nr)" by fastforce
  define st1 where "st1 = (case nr of None \<Rightarrow> st | Some t \<Rightarrow> st\<lparr>root_node := Some t\<rparr>)"
  have st1: "perrors st1 = perrors st" "failure st1 = failure st" by (auto simp: st1_def split: option.split)
  define p1 where "p1 = p\<lparr>yystack := b # take j es\<rparr>"
  have p1: "on_stack T R k items p1 (take j ts)" "yyerrcnt p1 = yyerrcnt p"
    using p f(1) linked_take [OF p(3), of j] by (auto simp: on_stack_def p1_def)
  have s: "stateno (last (b # take j es)) = top_state 0 (take j es)" using p(2) by (simp add: top_state_def)
  have red: "yy_reduce T r (p, st) = bnd (yy_find_reduce_action T (top_state 0 (take j es)) (fst (R ! r))) (\<lambda>a.
      if a < nstate T then Inr (yy_shift T a (fst (R ! r)) (put_lineno T (plineno st) m) (p1, st1))
      else assertion (a = accept_action T) (Inr (yy_accept p1, st1)))"
  proof -
    have "Suc (length es) - ?n = Suc j" using i(1) by (simp add: j_def)
    then show ?thesis using i(1) p(1) m s unfolding yy_reduce_def st1_def p1_def by (simp add: info Let_def)
  qed
  have lt: "top_state 0 (take j es) < nstate T" by (rule linked_top [OF linked_take [OF p(3)] lr_shape(3) [OF lr]])
  show thesis
  proof (cases rule: lr_goto [OF lr lt r(1) i(3)])
    case (1 x)
    obtain p' st' where q: "yy_shift T x (fst (R ! r)) (put_lineno T (plineno st) m) (p1, st1) = (p', st')" by fastforce
    have top1: "stateno (last (yystack p1)) = top_state 0 (take j es)" using s by (simp add: p1_def)
    have mv: "moves R items (stateno (last (yystack p1))) (fst (R ! r)) x" using 1(3) by (simp only: top1)
    have lb: "fst (R ! r) = root_symbol R (Branch r (drop j ts))" by simp
    have o: "yyerrcnt p' = yyerrcnt p1 \<and> failure st' = failure st1 \<and> (yystack p' = [] \<and> perrors st' = perrors st1 + 1 \<or>
        on_stack T R k items p' (take j ts @ [Branch r (drop j ts)]) \<and> perrors st' = perrors st1)"
      by (rule shift_on_stack [OF p1(1) mv 1(2) lb t q])
    have "yy_reduce T r (p, st) = Inr (p', st')" using red 1 q by simp
    moreover have "j \<le> length ts" using len by (simp add: j_def)
    ultimately show thesis using that o st1 p1(2) by metis
  next
    case 2
    have "take j es = []" using linked_zero [OF linked_take [OF p(3), of j]] 2(2) by blast
    then have "drop j ts = ts" using len by auto
    then have w: "wf_tree R k (Branch r ts)" using t by simp
    have "yy_reduce T r (p, st) = Inr (yy_accept p1, st1)" using red 2(1)
      by (simp add: assertion_def accept_action_def)
    moreover have "yystack (yy_accept p1) = []" "yyerrcnt (yy_accept p1) = yyerrcnt p"
      using p1(2) by (simp_all add: yy_accept_def pop_all_def)
    ultimately show thesis using that [of "yy_accept p1" st1] st1 2(3) w by metis
  qed
qed

subsection \<open>The main loop\<close>

definition yields :: "tree list \<Rightarrow> nat list" where
  "yields ts = concat (map yield ts)"

lemma yields_snoc [simp]: "yields (ts @ [t]) = yields ts @ yield t"
  by (simp add: yields_def)

lemma yields_reduced: "yields (take j ts @ [Branch r (drop j ts)]) = yields ts"
proof -
  have "yields ts = yields (take j ts @ drop j ts)" by simp
  then show ?thesis unfolding yields_def by (simp only: map_append concat_append list.map concat.simps yield.simps append_Nil2)
qed

lemma is_failure_mono: "failure st' = failure st \<Longrightarrow> perrors st \<le> perrors st' \<Longrightarrow> is_failure st \<Longrightarrow> is_failure st'"
  by (auto simp: is_failure_def)

text \<open>What a call of \<open>Parse\<close> on a live stack can come to.\<close>

datatype outcome = Shifted | Overflowed | Accepted | Errored

definition ended :: "'m tables \<Rightarrow> grammar \<Rightarrow> nat \<Rightarrow> nat \<Rightarrow> (nat \<Rightarrow> (nat \<times> nat) set) \<Rightarrow> nat \<Rightarrow> tree list \<Rightarrow>
    'm yyParser \<times> 'm ParserState \<Rightarrow> 'm yyParser \<times> 'm ParserState \<Rightarrow> outcome \<Rightarrow> bool" where
  "ended T R k start items a ts ps ps' c = (case (ps, ps') of ((p, st), (p', st')) \<Rightarrow> (case c of
     Shifted \<Rightarrow> a \<noteq> 0 \<and> failure st' = failure st \<and> perrors st' = perrors st \<and> yyerrcnt p' = yyerrcnt p - 1 \<and>
       (\<exists>ts'. on_stack T R k items p' ts' \<and> yields ts' = yields ts @ [a])
   | Overflowed \<Rightarrow> yystack p' = [] \<and> is_failure st'
   | Accepted \<Rightarrow> yystack p' = [] \<and> a = 0 \<and> (\<exists>t. wf_tree R k t \<and> root_symbol R t = start \<and> yield t = yields ts)
   | Errored \<Rightarrow> ((0 < yyerrcnt p \<longrightarrow> is_failure st) \<longrightarrow> is_failure st') \<and>
       (yystack p' = [] \<or> (\<exists>ts'. on_stack T R k items p' ts' \<and> yields ts' = yields ts))))"

lemma ended_reduced:
  assumes "ended T R k start items a ts1 (p1, st1) ps' c" "yields ts1 = yields ts" "yyerrcnt p1 = yyerrcnt p"
    "failure st1 = failure st" "perrors st1 = perrors st"
  shows "ended T R k start items a ts (p, st) ps' c"
proof -
  have "is_failure st1 = is_failure st" using assms(4,5) by (simp add: is_failure_def)
  then show ?thesis using assms by (cases c) (auto simp: ended_def split: prod.splits)
qed

lemma top_of_on_stack: "on_stack T R k items p ts \<Longrightarrow> 0 < nstate T \<Longrightarrow> yystack p \<noteq> [] \<and> stateno (last (yystack p)) < nstate T"
proof -
  assume "on_stack T R k items p ts" and n: "0 < nstate T"
  then obtain b es where p: "yystack p = b # es" "stateno b = 0" "linked T R items 0 es"
    unfolding on_stack_def by blast
  have "stateno (last (yystack p)) = top_state 0 es" using p by (simp add: top_state_def)
  then show ?thesis using linked_top [OF p(3) n] p(1) by simp
qed

lemma parse_loop_ended:
  assumes lr: "lr_tables T R k start items" and a: "a < k"
  shows "on_stack T R k items p ts \<Longrightarrow> parse_loop T n a m (p, st) = Some q \<Longrightarrow>
    \<exists>ps' c. q = Inr ps' \<and> ended T R k start items a ts (p, st) ps' c"
proof (induction n arbitrary: p ts st)
  case 0
  then show ?case by simp
next
  case (Suc n)
  let ?s = "stateno (last (yystack p))"
  have s: "yystack p \<noteq> []" "?s < nstate T" using top_of_on_stack [OF Suc.prems(1) lr_shape(3) [OF lr]] by simp_all
  have f: "yy_find_shift_action T p a = shift_action T ?s a" using s(1) by (simp add: yy_find_shift_action_def)
  show ?case
  proof (cases rule: lr_shift [OF lr s(2) a])
    case (1 x)
    obtain p' st' where y: "yy_shift T x a m (p, st) = (p', st')" by fastforce
    have o: "yyerrcnt p' = yyerrcnt p \<and> failure st' = failure st \<and> (yystack p' = [] \<and> perrors st' = perrors st + 1 \<or>
        on_stack T R k items p' (ts @ [Leaf a]) \<and> perrors st' = perrors st)"
      using shift_on_stack [OF Suc.prems(1) 1(4,2) _ _ y, of "Leaf a"] a by simp
    have q: "q = Inr (p'\<lparr>yyerrcnt := yyerrcnt p' - 1\<rparr>, st')"
      using Suc.prems(2) f 1(1-3) y by (simp add: assertion_def)
    from o show ?thesis
    proof (elim conjE disjE)
      assume "yystack p' = []" "perrors st' = perrors st + 1"
      then show ?thesis using q by (intro exI conjI) (assumption, simp add: ended_def is_failure_def split: outcome.split, blast)
    next
      assume "on_stack T R k items p' (ts @ [Leaf a])" "perrors st' = perrors st"
      then have "ended T R k start items a ts (p, st) (p'\<lparr>yyerrcnt := yyerrcnt p' - 1\<rparr>, st') Shifted"
        using o 1(3) unfolding ended_def on_stack_def by simp (metis yields_snoc yield.simps(1))
      then show ?thesis using q by blast
    qed
  next
    case (2 r)
    obtain p1 st1 where y: "yy_reduce T r (p, st) = Inr (p1, st1)" "yyerrcnt p1 = yyerrcnt p" "failure st1 = failure st"
      "yystack p1 = [] \<and> perrors st1 = perrors st + 1 \<or>
       yystack p1 = [] \<and> perrors st1 = perrors st \<and> fst (R ! r) = start \<and> wf_tree R k (Branch r ts) \<or>
       perrors st1 = perrors st \<and> (\<exists>j \<le> length ts. on_stack T R k items p1 (take j ts @ [Branch r (drop j ts)]))"
      by (rule reduce_on_stack [OF lr Suc.prems(1) 2(2,3)])
    have nr: "nrule T = length R" by (rule lr_shape(2) [OF lr])
    have step: "(if yystack p1 = [] then Some (Inr (p1, st1)) else parse_loop T n a m (p1, st1)) = Some q"
      using Suc.prems(2) f 2(1,2) nr y(1) by simp
    from y(4) consider (full) "yystack p1 = []" "perrors st1 = perrors st + 1"
      | (acc) "yystack p1 = []" "fst (R ! r) = start" "wf_tree R k (Branch r ts)"
      | (on) j where "perrors st1 = perrors st" "on_stack T R k items p1 (take j ts @ [Branch r (drop j ts)])" by blast
    then show ?thesis
    proof cases
      case full
      then have "ended T R k start items a ts (p, st) (p1, st1) Overflowed" by (simp add: ended_def is_failure_def)
      then show ?thesis using step full(1) by auto
    next
      case acc
      have "yield (Branch r ts) = yields ts" by (simp add: yields_def)
      moreover have "root_symbol R (Branch r ts) = start" using acc(2) by simp
      ultimately have "ended T R k start items a ts (p, st) (p1, st1) Accepted"
        using acc(1,3) 2(4) [OF acc(2)] by (simp only: ended_def prod.case outcome.case) blast
      then show ?thesis using step acc(1) by auto
    next
      case on
      have "yystack p1 \<noteq> []" using top_of_on_stack [OF on(2) lr_shape(3) [OF lr]] by simp
      then obtain ps' c where "q = Inr ps'" "ended T R k start items a (take j ts @ [Branch r (drop j ts)]) (p1, st1) ps' c"
        using Suc.IH [OF on(2), of st1] step unfolding if_not_P [OF \<open>yystack p1 \<noteq> []\<close>] by blast
      then show ?thesis using ended_reduced [OF _ yields_reduced y(2,3) on(1)] by blast
    qed
  next
    case 3
    define st1 where "st1 = (if yyerrcnt p \<le> 0 then yy_syntax_error st else st)"
    define ps1 where "ps1 = (if a = 0 then yy_parse_failed (p\<lparr>yyerrcnt := 3\<rparr>, st1) else (p\<lparr>yyerrcnt := 3\<rparr>, st1))"
    have q: "q = Inr ps1" using Suc.prems(2) f 3
      by (auto simp: error_action_def assertion_def st1_def ps1_def Let_def)
    have i: "(0 < yyerrcnt p \<longrightarrow> is_failure st) \<longrightarrow> is_failure st1" by (simp add: st1_def yy_syntax_error_def is_failure_def)
    have "ended T R k start items a ts (p, st) ps1 Errored"
    proof (cases "a = 0")
      case True
      then have "ps1 = (pop_all (p\<lparr>yyerrcnt := 3\<rparr>), st1\<lparr>failure := True\<rparr>)" by (simp add: ps1_def yy_parse_failed_def)
      then show ?thesis by (simp add: ended_def pop_all_def is_failure_def)
    next
      case False
      have "on_stack T R k items (p\<lparr>yyerrcnt := 3\<rparr>) ts" using Suc.prems(1) by (simp add: on_stack_def)
      then show ?thesis using False i by (simp only: ended_def ps1_def prod.case outcome.case if_False) blast
    qed
    then show ?thesis using q by blast
  qed
qed

subsection \<open>Termination\<close>







subsection \<open>A program\<close>

lemma restart_on_stack: "lr_tables T R k start items \<Longrightarrow> yystack p = [] \<Longrightarrow> on_stack T R k items (restart T p) []"
  using lr_shape(4) [of T R k start items] by (simp add: restart_def on_stack_def forest_def)

lemma restart_live: "on_stack T R k items p ts \<Longrightarrow> restart T p = p"
  by (auto simp: restart_def on_stack_def)

definition in_step :: "'m tables \<Rightarrow> grammar \<Rightarrow> nat \<Rightarrow> (nat \<Rightarrow> (nat \<times> nat) set) \<Rightarrow> 'm yyParser \<Rightarrow> tree list \<Rightarrow> bool" where
  "in_step T R k items p ts = (yystack p = [] \<and> ts = [] \<or> on_stack T R k items p ts)"

lemma in_step_restart: "lr_tables T R k start items \<Longrightarrow> in_step T R k items p ts \<Longrightarrow> on_stack T R k items (restart T p) ts"
  unfolding in_step_def using restart_on_stack restart_live by metis



lemma yy_reduce_failure:
  assumes "yy_reduce T r (p, st) = Inr (p', st')"
  shows "failure st' = failure st \<and> perrors st \<le> perrors st'"
  using assms by (auto simp: yy_reduce_def yy_shift_def Let_def bnd_def assertion_def split: prod.splits sum.splits option.splits if_splits)

lemma parse_loop_failure:
  "parse_loop T n a m (p, st) = Some (Inr (p', st')) \<Longrightarrow> is_failure st \<Longrightarrow> is_failure st'"
proof (induction n arbitrary: p st)
  case (Suc n)
  show ?case
  proof (cases "yy_find_shift_action T p a")
    case (Inr x)
    consider "x < nstate T" | "nstate T \<le> x" "x < nstate T + nrule T" | "nstate T + nrule T \<le> x" by linarith
    then show ?thesis
    proof cases
      case 1
      then show ?thesis using Suc.prems Inr
        by (auto simp: assertion_def yy_shift_def is_failure_def split: if_splits)
    next
      case 2
      then obtain p1 st1 where y: "yy_reduce T (x - nstate T) (p, st) = Inr (p1, st1)"
        using Suc.prems Inr by (auto split: sum.splits)
      then have "is_failure st1" using yy_reduce_failure [OF y] Suc.prems(2) is_failure_mono by blast
      then show ?thesis using Suc.IH [of p1 st1] Suc.prems(1) Inr 2 y by (simp split: if_splits)
    next
      case 3
      then show ?thesis using Suc.prems Inr
        by (auto simp: assertion_def Let_def yy_parse_failed_def yy_syntax_error_def is_failure_def split: if_splits)
    qed
  qed (use Suc.prems in simp)
qed simp

lemma parse_tokens_failure:
  "parse_tokens T n us (p, st) = Some (Inr (p', st')) \<Longrightarrow> is_failure st \<Longrightarrow> is_failure st'"
proof (induction us arbitrary: p st)
  case (Cons u us)
  obtain a m l where u: "u = (a, m, l)" by (cases u)
  obtain p1 st1 where s: "parse_loop T n a m (restart T p, set_lineno l st) = Some (Inr (p1, st1))"
    "parse_tokens T n us (p1, st1) = Some (Inr (p', st'))"
    using Cons.prems(1) u by (auto simp: Parse_def split: option.splits sum.splits)
  have "is_failure (set_lineno l st)" using Cons.prems(2) by (simp add: is_failure_def set_lineno_def)
  then show ?case using Cons.IH [OF s(2)] parse_loop_failure [OF s(1)] by blast
qed simp

lemma parse_tokens_sound:
  assumes lr: "lr_tables T R k start items"
  shows "in_step T R k items p ts \<Longrightarrow> (yystack p \<noteq> [] \<and> 0 < yyerrcnt p \<longrightarrow> is_failure st) \<Longrightarrow> (\<And>u. u \<in> set us \<Longrightarrow> fst u < k \<and> fst u \<noteq> 0) \<Longrightarrow>
    0 < k \<Longrightarrow> parse_tokens T n (us @ [(0, m0, l0)]) (p, st) = Some (Inr (p', st')) \<Longrightarrow> \<not> is_failure st' \<Longrightarrow>
    \<exists>t. wf_tree R k t \<and> root_symbol R t = start \<and> yield t = yields ts @ map fst us"
proof (induction us arbitrary: p ts st)
  case Nil
  have on: "on_stack T R k items (restart T p) ts" by (rule in_step_restart [OF lr Nil.prems(1)])
  have q: "parse_loop T n 0 m0 (restart T p, set_lineno l0 st) = Some (Inr (p', st'))"
    using Nil.prems(5) by (auto simp: Parse_def split: option.splits sum.splits)
  obtain o' where e: "ended T R k start items 0 ts (restart T p, set_lineno l0 st) (p', st') o'"
    using parse_loop_ended [OF lr Nil.prems(4) on q] by blast
  have "0 < yyerrcnt (restart T p) \<longrightarrow> is_failure (set_lineno l0 st)"
    using Nil.prems(2) by (simp add: restart_def is_failure_def set_lineno_def)
  then have "o' = Accepted" using e Nil.prems(6) by (cases o') (simp_all add: ended_def)
  then show ?case using e by (simp add: ended_def)
next
  case (Cons u us)
  obtain a m l where u: "u = (a, m, l)" by (cases u)
  have a: "a < k" "a \<noteq> 0" using Cons.prems(3) [of u] u by simp_all
  have on: "on_stack T R k items (restart T p) ts" by (rule in_step_restart [OF lr Cons.prems(1)])
  obtain p1 st1 where s: "parse_loop T n a m (restart T p, set_lineno l st) = Some (Inr (p1, st1))"
    "parse_tokens T n (us @ [(0, m0, l0)]) (p1, st1) = Some (Inr (p', st'))"
    using Cons.prems(5) u by (auto simp: Parse_def split: option.splits sum.splits)
  have nf: "\<not> is_failure st1" using parse_tokens_failure [OF s(2)] Cons.prems(6) by blast
  obtain o' where e: "ended T R k start items a ts (restart T p, set_lineno l st) (p1, st1) o'"
    using parse_loop_ended [OF lr a(1) on s(1)] by blast
  have c: "0 < yyerrcnt (restart T p) \<longrightarrow> is_failure (set_lineno l st)"
    using Cons.prems(2) by (simp add: restart_def is_failure_def set_lineno_def)
  then have "o' = Shifted" using e nf a(2) by (cases o') (simp_all add: ended_def)
  then obtain ts' where t: "on_stack T R k items p1 ts'" "yields ts' = yields ts @ [a]"
    "yyerrcnt p1 = yyerrcnt (restart T p) - 1" "failure st1 = failure st" "perrors st1 = perrors st"
    using e by (auto simp: ended_def set_lineno_def)
  have "is_failure st1 = is_failure (set_lineno l st)" using t(4,5) by (simp add: is_failure_def set_lineno_def)
  then have "0 < yyerrcnt p1 \<longrightarrow> is_failure st1" using c t(3) by simp
  then have "\<exists>t. wf_tree R k t \<and> root_symbol R t = start \<and> yield t = yields ts' @ map fst us"
    using Cons.IH [of p1 ts' st1] t(1) Cons.prems(3,4,6) s(2) by (simp add: in_step_def)
  then show ?case using t(2) u by simp
qed

subsection \<open>Sums: the tables of a small grammar\<close>

text \<open>\<open>root ::= sum. sum ::= sum PLUS ID. sum ::= ID.\<close> with \<open>ID\<close> 1, \<open>PLUS\<close> 2, \<open>sum\<close> 3 and \<open>root\<close> 4.\<close>

definition sum_rules :: grammar where
  "sum_rules = [(4, [3]), (3, [3, 2, 1]), (3, [1])]"

definition sum_items :: "nat \<Rightarrow> (nat \<times> nat) set" where
  "sum_items s = (if s < 5 then set ([[(0, 0), (1, 0), (2, 0)], [(0, 1), (1, 1)], [(2, 1)], [(1, 2)], [(1, 3)]] ! s) else {})"

definition sum_tables :: "nat \<Rightarrow> nat tables" where
  "sum_tables depth = \<lparr>nstate = 5, nrule = 3, yy_action = [5, 0, 3, 2, 4, 1, 9], yy_lookahead = [0, 5, 2, 1, 1, 3, 4],
     shift_count = 3, shift_ofst = [2, 0, -1, 3], shift_use_dflt = -1, reduce_count = 0, reduce_ofst = [2], reduce_use_dflt = -1,
     yy_default = [8, 8, 7, 8, 6], rule_info = [(4, 1), (3, 3), (3, 1)], yynocode = 5, stack_depth = depth, zero_minor = 0,
     rule_action = (\<lambda>r vs. if r = 0 then (vs ! 0, Some (vs ! 0)) else if r = 1 then (vs ! 0 + vs ! 2, None) else (vs ! 0, None)),
     put_lineno = (\<lambda>l v. v)\<rparr>"

lemma below_numeral: "(\<forall>s < (5::nat). P s) \<longleftrightarrow> P 0 \<and> P 1 \<and> P 2 \<and> P 3 \<and> P 4"
  "(\<forall>s < (3::nat). P s) \<longleftrightarrow> P 0 \<and> P 1 \<and> P 2"
  by (auto simp: less_Suc_eq eval_nat_numeral)

lemma sum_lr_tables:
  assumes "0 < depth"
  shows "lr_tables (sum_tables depth) sum_rules 3 4 sum_items"
proof -
  have f: "fetch xs i = (if i < length xs then Inr (xs ! i) else Inl Undefined)" for xs :: "'b list" and i by (rule fetch_def)
  have n: "nstate (sum_tables depth) = 5" "length sum_rules = 3" by (simp_all add: sum_tables_def sum_rules_def)
  have a: "\<forall>s < nstate (sum_tables depth). \<forall>a < (3::nat). \<exists>x. shift_action (sum_tables depth) s a = Inr x \<and> x \<le> error_action (sum_tables depth) \<and>
         (x < nstate (sum_tables depth) \<longrightarrow> a \<noteq> 0 \<and> moves sum_rules sum_items s a x) \<and>
         (nstate (sum_tables depth) \<le> x \<and> x < error_action (sum_tables depth) \<longrightarrow>
            (x - nstate (sum_tables depth), length (snd (sum_rules ! (x - nstate (sum_tables depth))))) \<in> sum_items s \<and>
            (fst (sum_rules ! (x - nstate (sum_tables depth))) = 4 \<longrightarrow> a = 0))"
    unfolding n below_numeral
    by (simp add: shift_action_def error_action_def sum_tables_def sum_rules_def sum_items_def moves_def f assertion_def)
  have g: "\<forall>s < nstate (sum_tables depth). \<forall>r < length sum_rules. (r, 0) \<in> sum_items s \<longrightarrow>
         (\<exists>x. yy_find_reduce_action (sum_tables depth) s (fst (sum_rules ! r)) = Inr x \<and>
           (x < nstate (sum_tables depth) \<and> moves sum_rules sum_items s (fst (sum_rules ! r)) x \<or>
            x = accept_action (sum_tables depth) \<and> s = 0 \<and> fst (sum_rules ! r) = 4))"
    unfolding n below_numeral
    by (simp add: yy_find_reduce_action_def accept_action_def sum_tables_def sum_rules_def sum_items_def moves_def f assertion_def)
  show ?thesis
    using assms a g unfolding lr_tables_def by (simp add: sum_tables_def sum_rules_def sum_items_def)
qed



subsection \<open>The properties\<close>



text \<open>C19. A program that parses without an error is a sentence of the grammar: if \<open>is_failure\<close> is false after
  the tokens of a file and the final token 0, the tokens are the leaves of a derivation tree whose root
  is the start symbol.
\<close>

theorem parse_tokens_accepts_sentences:
  assumes "lr_tables T R k start items" and "\<And>u. u \<in> set us \<Longrightarrow> fst u < k \<and> fst u \<noteq> 0" and "0 < k"
    and "parse_tokens T n (us @ [(0, m, l)]) (ParseAlloc e, new_pstate) = Some (Inr (p, st))" and "\<not> is_failure st"
  shows "\<exists>t. wf_tree R k t \<and> root_symbol R t = start \<and> yield t = map fst us"
proof -
  have "in_step T R k items (ParseAlloc e) []" by (simp add: in_step_def ParseAlloc_def)
  moreover have "yystack (ParseAlloc e) \<noteq> [] \<and> 0 < yyerrcnt (ParseAlloc e :: 'a yyParser) \<longrightarrow> is_failure new_pstate" by (simp add: ParseAlloc_def)
  ultimately show ?thesis using parse_tokens_sound [OF assms(1) _ _ assms(2,3,4,5), of "[]"] by (simp add: yields_def)
qed

lemma parse_tokens_accepts_sentences_witness:
  "parse_tokens (sum_tables 9) 9 ([(1, 7, 1), (2, 0, 1), (1, 8, 1)] @ [(0, 0, 1)]) (ParseAlloc 0, new_pstate) =
     Some (Inr (\<lparr>yystack = [], yyerrcnt = - 4\<rparr>, \<lparr>perrors = 0, failure = False, root_node = Some 15, plineno = 1\<rparr>)) \<and>
   (\<exists>t. wf_tree sum_rules 3 t \<and> root_symbol sum_rules t = 4 \<and> yield t = [1, 2, 1])"
proof -
  let ?us = "[(1, 7, 1), (2, 0, 1), (1, 8, 1)] :: (nat \<times> nat \<times> int) list"
  let ?st = "\<lparr>perrors = 0, failure = False, root_node = Some 15, plineno = 1\<rparr>"
  have r: "parse_tokens (sum_tables 9) 9 ([(1, 7, 1), (2, 0, 1), (1, 8, 1)] @ [(0, 0, 1)]) (ParseAlloc 0, new_pstate) =
     Some (Inr (\<lparr>yystack = [], yyerrcnt = - 4\<rparr>, ?st))"
    by code_simp
  have "\<exists>t. wf_tree sum_rules 3 t \<and> root_symbol sum_rules t = 4 \<and> yield t = map fst ?us"
    by (rule parse_tokens_accepts_sentences [OF sum_lr_tables _ _ r]) (auto simp: is_failure_def)
  then show ?thesis using r by (simp only: list.map fst_conv simp_thms)
qed

end
