(* ===== verification/Tora_Memory.thy ===== *)
theory Tora_Memory
  imports Tora_Prelude "HOL-Library.Multiset"
begin

text \<open>
  Reference counting: the class \<open>SharedPtr\<close> (\<open>tora/shared_ptr.h\<close>) and the counts in the objects
  (\<open>tora/prim.h\<close>, \<open>Value\<close> in \<open>tora/value.h\<close>, \<open>ObjectValue::release\<close>). A cell is an object with the
  \<open>SharedPtr\<close>s it holds; a cell that is freed is \<open>None\<close>, and reading it is undefined. This
  is the ground for the heap of the other theories, in which cells are never freed.
\<close>

subsection \<open>Cells\<close>

text \<open>\<open>destroyed\<close> is the flag of an \<open>ObjectValue\<close>, \<open>None\<close> for all other classes.\<close>

record cell =
  refcnt :: int
  members :: "ptr list"
  destroyed :: "bool option"

type_synonym cells = "cell option list"

type_synonym 'a mem_run = "(unit, 'a) result option"

definition andthen :: "'a mem_run \<Rightarrow> ('a \<Rightarrow> 'b mem_run) \<Rightarrow> 'b mem_run" where
  "andthen r f = (case r of None \<Rightarrow> None | Some (Inl e) \<Rightarrow> Some (Inl e) | Some (Inr a) \<Rightarrow> f a)"

lemma andthen_simps [simp]:
  "andthen None f = None" "andthen (Some (Inl e)) f = Some (Inl e)" "andthen (Some (Inr a)) f = f a"
  by (simp_all add: andthen_def)

definition cell_at :: "cells \<Rightarrow> nat \<Rightarrow> cell option" where
  "cell_at s a = (if a < length s then s ! a else None)"

definition retain :: "nat \<Rightarrow> cells \<Rightarrow> cells mem_run" where
  "retain a s = Some (case cell_at s a of None \<Rightarrow> Inl Undefined
     | Some c \<Rightarrow> if 0 \<le> refcnt c then Inr (s[a := Some (c\<lparr>refcnt := refcnt c + 1\<rparr>)]) else Inl Abort)"

text \<open>The destructor of a cell destroys its members, each with the release \<open>rel\<close>.\<close>

fun release_members :: "(nat \<Rightarrow> cells \<Rightarrow> cells mem_run) \<Rightarrow> ptr list \<Rightarrow> cells \<Rightarrow> cells mem_run" where
  "release_members rel [] s = Some (Inr s)"
| "release_members rel (None # ps) s = release_members rel ps s"
| "release_members rel (Some a # ps) s = andthen (rel a s) (release_members rel ps)"

definition delete_cell :: "(nat \<Rightarrow> cells \<Rightarrow> cells mem_run) \<Rightarrow> nat \<Rightarrow> cells \<Rightarrow> cells mem_run" where
  "delete_cell rel a s = (case cell_at s a of None \<Rightarrow> Some (Inl Undefined)
     | Some c \<Rightarrow> andthen (release_members rel (members c) s) (\<lambda>s'. Some (Inr (s'[a := None]))))"

text \<open>
  \<open>call_destroy\<close> is \<open>ObjectValue::call_destroy\<close>, which runs the method \<open>DESTROY\<close> of the class of the object:
  a function of the program on the cells. The fuel bounds the depth of the releases.
\<close>

fun release :: "(nat \<Rightarrow> cells \<Rightarrow> cells mem_run) \<Rightarrow> nat \<Rightarrow> nat \<Rightarrow> cells \<Rightarrow> cells mem_run" where
  "release call_destroy 0 a s = None"
| "release call_destroy (Suc n) a s = (case cell_at s a of None \<Rightarrow> Some (Inl Undefined)
     | Some c \<Rightarrow>
         let c = c\<lparr>refcnt := refcnt c - 1\<rparr>; s = s[a := Some c]
         in if refcnt c \<noteq> 0 then Some (Inr s)
            else (case destroyed c of
                None \<Rightarrow> delete_cell (release call_destroy n) a s
              | Some True \<Rightarrow> Some (Inr s)
              | Some False \<Rightarrow>
                  andthen (call_destroy a (s[a := Some (c\<lparr>destroyed := Some True\<rparr>)])) (\<lambda>s.
                    case cell_at s a of None \<Rightarrow> Some (Inl Undefined)
                    | Some c \<Rightarrow> if refcnt c = 0 then delete_cell (release call_destroy n) a s else Some (Inl Abort))))"

subsection \<open>SharedPtr\<close>

text \<open>
  A \<open>SharedPtr\<close> is a variable, or a member of the object a variable points to. An
  assignment copies its right side to a temporary, swaps, and destroys the temporary.
\<close>

datatype place = Var nat | Field nat nat

datatype location = Handle nat | Member nat nat

record memory =
  cells :: cells
  handles :: "ptr list"

definition locate :: "memory \<Rightarrow> place \<Rightarrow> location mem_run" where
  "locate m pl = (case pl of Var i \<Rightarrow> Some (Inr (Handle i))
     | Field i k \<Rightarrow> Some (if i < length (handles m)
         then (case handles m ! i of None \<Rightarrow> Inl Abort | Some a \<Rightarrow> Inr (Member a k)) else Inl Undefined))"

definition get_ptr :: "memory \<Rightarrow> location \<Rightarrow> ptr mem_run" where
  "get_ptr m l = Some (case l of
       Handle i \<Rightarrow> if i < length (handles m) then Inr (handles m ! i) else Inl Undefined
     | Member a k \<Rightarrow> (case cell_at (cells m) a of None \<Rightarrow> Inl Undefined
         | Some c \<Rightarrow> if k < length (members c) then Inr (members c ! k) else Inl Undefined))"

definition set_ptr :: "location \<Rightarrow> ptr \<Rightarrow> memory \<Rightarrow> memory mem_run" where
  "set_ptr l p m = Some (case l of
       Handle i \<Rightarrow> if i < length (handles m) then Inr (m\<lparr>handles := (handles m)[i := p]\<rparr>) else Inl Undefined
     | Member a k \<Rightarrow> (case cell_at (cells m) a of None \<Rightarrow> Inl Undefined
         | Some c \<Rightarrow> if k < length (members c)
             then Inr (m\<lparr>cells := (cells m)[a := Some (c\<lparr>members := (members c)[k := p]\<rparr>)]\<rparr>) else Inl Undefined))"

text \<open>The constructors add a reference, the destructor releases it.\<close>

definition construct :: "ptr \<Rightarrow> memory \<Rightarrow> memory mem_run" where
  "construct p m = (case p of None \<Rightarrow> Some (Inr m)
     | Some a \<Rightarrow> andthen (retain a (cells m)) (\<lambda>s. Some (Inr (m\<lparr>cells := s\<rparr>))))"

definition destruct :: "(nat \<Rightarrow> cells \<Rightarrow> cells mem_run) \<Rightarrow> ptr \<Rightarrow> memory \<Rightarrow> memory mem_run" where
  "destruct rel p m = (case p of None \<Rightarrow> Some (Inr m)
     | Some a \<Rightarrow> andthen (rel a (cells m)) (\<lambda>s. Some (Inr (m\<lparr>cells := s\<rparr>))))"

text \<open>\<open>this_type(p).swap(*this)\<close>: \<open>operator=\<close> and \<open>reset\<close>, for a pointer or for the value of a \<open>SharedPtr\<close>.\<close>

definition assign_ptr :: "(nat \<Rightarrow> cells \<Rightarrow> cells mem_run) \<Rightarrow> location \<Rightarrow> ptr \<Rightarrow> memory \<Rightarrow> memory mem_run" where
  "assign_ptr rel l p m = andthen (construct p m) (\<lambda>m. andthen (get_ptr m l) (\<lambda>old.
     andthen (set_ptr l p m) (destruct rel old)))"

definition assign :: "(nat \<Rightarrow> cells \<Rightarrow> cells mem_run) \<Rightarrow> place \<Rightarrow> place \<Rightarrow> memory \<Rightarrow> memory mem_run" where
  "assign rel d s m = andthen (locate m d) (\<lambda>ld. andthen (locate m s) (\<lambda>ls. andthen (get_ptr m ls) (\<lambda>p.
     assign_ptr rel ld p m)))"

definition reset :: "(nat \<Rightarrow> cells \<Rightarrow> cells mem_run) \<Rightarrow> place \<Rightarrow> memory \<Rightarrow> memory mem_run" where
  "reset rel d m = andthen (locate m d) (\<lambda>l. assign_ptr rel l None m)"

definition swap :: "place \<Rightarrow> place \<Rightarrow> memory \<Rightarrow> memory mem_run" where
  "swap x y m = andthen (locate m x) (\<lambda>lx. andthen (locate m y) (\<lambda>ly.
     andthen (get_ptr m lx) (\<lambda>p. andthen (get_ptr m ly) (\<lambda>q.
       andthen (set_ptr lx q m) (set_ptr ly p)))))"

text \<open>A new object starts with the count 0 and null members.\<close>

definition new_cell :: "nat \<Rightarrow> cell" where
  "new_cell k = \<lparr>refcnt = 0, members = replicate k None, destroyed = None\<rparr>"

definition assign_new :: "(nat \<Rightarrow> cells \<Rightarrow> cells mem_run) \<Rightarrow> place \<Rightarrow> nat \<Rightarrow> memory \<Rightarrow> memory mem_run" where
  "assign_new rel d k m = andthen (locate m d) (\<lambda>l.
     assign_ptr rel l (Some (length (cells m))) (m\<lparr>cells := cells m @ [Some (new_cell k)]\<rparr>))"

subsection \<open>Programs over SharedPtrs\<close>

datatype command = New place | Assign place place | Reset place | Swap place place

fun perform :: "(nat \<Rightarrow> cells \<Rightarrow> cells mem_run) \<Rightarrow> nat \<Rightarrow> command \<Rightarrow> memory \<Rightarrow> memory mem_run" where
  "perform rel k (New d) m = assign_new rel d k m"
| "perform rel k (Assign d s) m = assign rel d s m"
| "perform rel k (Reset d) m = reset rel d m"
| "perform rel k (Swap x y) m = swap x y m"

fun perform_all :: "(nat \<Rightarrow> cells \<Rightarrow> cells mem_run) \<Rightarrow> nat \<Rightarrow> command list \<Rightarrow> memory \<Rightarrow> memory mem_run" where
  "perform_all rel k [] m = Some (Inr m)"
| "perform_all rel k (c # cs) m = andthen (perform rel k c m) (perform_all rel k cs)"

definition start_memory :: "nat \<Rightarrow> memory" where
  "start_memory v = \<lparr>cells = [], handles = replicate v None\<rparr>"

subsection \<open>The invariant\<close>

text \<open>\<open>exact s R\<close>: every count is the number of references to the cell, in live cells and in \<open>R\<close>.\<close>

definition target :: "ptr \<Rightarrow> nat multiset" where
  "target p = (case p of None \<Rightarrow> {#} | Some a \<Rightarrow> {#a#})"

definition targets :: "ptr list \<Rightarrow> nat multiset" where
  "targets ps = sum_list (map target ps)"

definition refs_of :: "cell option \<Rightarrow> nat multiset" where
  "refs_of x = (case x of None \<Rightarrow> {#} | Some c \<Rightarrow> if 0 < refcnt c then targets (members c) else {#})"

definition refs :: "cells \<Rightarrow> nat multiset" where
  "refs s = sum_list (map refs_of s)"

definition count_at :: "cells \<Rightarrow> nat \<Rightarrow> int" where
  "count_at s a = (case cell_at s a of None \<Rightarrow> 0 | Some c \<Rightarrow> refcnt c)"

definition exact :: "cells \<Rightarrow> nat multiset \<Rightarrow> bool" where
  "exact s R = (\<forall>a. count_at s a = int (count (R + refs s) a))"

lemma target_simps [simp]: "target None = {#}" "target (Some a) = {#a#}"
  by (simp_all add: target_def)

lemma targets_simps [simp]: "targets [] = {#}" "targets (p # ps) = target p + targets ps"
  by (simp_all add: targets_def)

lemma sum_list_update_add: "k < length xs \<Longrightarrow> sum_list (xs[k := x]) + xs ! k = sum_list xs + (x :: 'a :: comm_monoid_add)"
proof (induction xs arbitrary: k)
  case (Cons y ys)
  then show ?case by (cases k) (simp_all add: ac_simps)
qed simp

lemma targets_update: "k < length ps \<Longrightarrow> targets (ps[k := p]) + target (ps ! k) = targets ps + target p"
  using sum_list_update_add [of k "map target ps" "target p"] by (simp add: targets_def map_update)

lemma refs_update: "a < length s \<Longrightarrow> refs (s[a := x]) + refs_of (s ! a) = refs s + refs_of x"
  using sum_list_update_add [of a "map refs_of s" "refs_of x"] by (simp add: refs_def map_update)

lemma cell_at_update: "cell_at (s[a := x]) b = (if a = b \<and> a < length s then x else cell_at s b)"
  by (simp add: cell_at_def)

lemma cell_at_SomeD: "cell_at s a = Some c \<Longrightarrow> a < length s \<and> s ! a = Some c"
  by (simp add: cell_at_def split: if_splits)

lemma count_at_update: "a < length s \<Longrightarrow> count_at (s[a := Some c]) b = (if b = a then refcnt c else count_at s b)"
  by (auto simp: count_at_def cell_at_update)

lemma exactD: "exact s R \<Longrightarrow> count_at s a = int (count R a) + int (count (refs s) a)"
  by (simp add: exact_def)

lemma refs_same: "cell_at s a = Some c \<Longrightarrow> refs_of (Some d) = refs_of (Some c) \<Longrightarrow> refs (s[a := Some d]) = refs s"
  using refs_update [of a s "Some d"] cell_at_SomeD [of s a c] by simp

lemma exact_live: "exact s R \<Longrightarrow> a \<in># R \<or> a \<in># refs s \<Longrightarrow> \<exists>c. cell_at s a = Some c \<and> 0 < refcnt c"
proof -
  assume e: "exact s R" and "a \<in># R \<or> a \<in># refs s"
  then have "0 < count R a \<or> 0 < count (refs s) a" by (simp only: count_greater_zero_iff)
  then have "0 < count_at s a" using exactD [OF e, of a] by linarith
  then show ?thesis by (auto simp: count_at_def split: option.splits)
qed

lemma exact_retain:
  assumes "exact s R" "cell_at s a = Some c" "0 < refcnt c"
  shows "retain a s = Some (Inr (s[a := Some (c\<lparr>refcnt := refcnt c + 1\<rparr>)])) \<and>
    exact (s[a := Some (c\<lparr>refcnt := refcnt c + 1\<rparr>)]) (R + {#a#})"
proof -
  have "refs (s[a := Some (c\<lparr>refcnt := refcnt c + 1\<rparr>)]) = refs s"
    by (rule refs_same [OF assms(2)]) (use assms(3) in \<open>simp add: refs_of_def\<close>)
  moreover have "count_at s a = refcnt c" using assms(2) by (simp add: count_at_def)
  ultimately show ?thesis using assms cell_at_SomeD [OF assms(2)] exactD [OF assms(1)]
    by (auto simp: retain_def exact_def count_at_update)
qed

text \<open>What a release keeps: the dying cells stay as they are, and no new ones are left.\<close>

definition no_destroy :: "cells \<Rightarrow> bool" where
  "no_destroy s = (\<forall>c. Some c \<in> set s \<longrightarrow> destroyed c = None)"

definition dying :: "cells \<Rightarrow> nat set" where
  "dying s = {b. \<exists>c. cell_at s b = Some c \<and> refcnt c = 0}"

definition counted :: "cells \<Rightarrow> nat set" where
  "counted s = {b. count_at s b \<noteq> 0}"

text \<open>The cells that are left have as many members as before.\<close>

definition same_shape :: "cells \<Rightarrow> cells \<Rightarrow> bool" where
  "same_shape s s' = (\<forall>b c'. cell_at s' b = Some c' \<longrightarrow>
     (\<exists>c. cell_at s b = Some c \<and> length (members c') = length (members c)))"

lemma same_shape_refl: "same_shape s s"
  by (simp add: same_shape_def)

lemma same_shape_trans: "same_shape s t \<Longrightarrow> same_shape t u \<Longrightarrow> same_shape s u"
  unfolding same_shape_def by (metis (no_types, lifting))

lemma same_shape_update: "cell_at s a = Some c \<Longrightarrow> length (members d) = length (members c) \<Longrightarrow> same_shape s (s[a := Some d])"
  by (auto simp: same_shape_def cell_at_update)

definition released :: "cells \<Rightarrow> cells \<Rightarrow> bool" where
  "released s s' = (length s' = length s \<and> no_destroy s' \<and> counted s' \<subseteq> counted s \<and> dying s' \<subseteq> dying s \<and> same_shape s s' \<and>
     (\<forall>b. count_at s b = 0 \<longrightarrow> cell_at s' b = cell_at s b))"

lemma released_refl: "no_destroy s \<Longrightarrow> released s s"
  by (simp add: released_def same_shape_refl)

lemma released_trans: "released s t \<Longrightarrow> released t u \<Longrightarrow> released s u"
  using same_shape_trans [of s t u] by (auto simp: released_def count_at_def subset_iff)

lemma no_destroy_update: "no_destroy s \<Longrightarrow> (\<And>c. x = Some c \<Longrightarrow> destroyed c = None) \<Longrightarrow> no_destroy (s[a := x])"
  unfolding no_destroy_def using set_update_subset_insert [of s a x] by blast

lemma finite_live: "finite (counted s)"
  by (rule finite_subset [of _ "{..<length s}"]) (auto simp: counted_def count_at_def cell_at_def split: if_splits)

lemma release_members_exact:
  assumes "\<And>a s R. no_destroy s \<Longrightarrow> exact s (R + {#a#}) \<Longrightarrow> card (counted s) \<le> n \<Longrightarrow>
      \<exists>s'. rel a s = Some (Inr s') \<and> exact s' R \<and> released s s'"
  shows "no_destroy s \<Longrightarrow> exact s (R + targets ps) \<Longrightarrow> card (counted s) \<le> n \<Longrightarrow>
      \<exists>s'. release_members rel ps s = Some (Inr s') \<and> exact s' R \<and> released s s'"
proof (induction ps arbitrary: s)
  case Nil
  then show ?case by (simp add: released_refl)
next
  case (Cons p ps)
  show ?case
  proof (cases p)
    case None
    then show ?thesis using Cons by simp
  next
    case (Some a)
    have "exact s ((R + targets ps) + {#a#})" using Cons.prems(2) Some by (simp add: ac_simps)
    then obtain s' where s': "rel a s = Some (Inr s')" "exact s' (R + targets ps)" "released s s'"
      using assms [OF Cons.prems(1)] Cons.prems(3) by blast
    then have "no_destroy s'" "counted s' \<subseteq> counted s" by (simp_all add: released_def)
    then have "card (counted s') \<le> n" using Cons.prems(3) card_mono [OF finite_live] le_trans by blast
    then obtain s'' where "release_members rel ps s' = Some (Inr s'')" "exact s'' R" "released s' s''"
      using Cons.IH [OF \<open>no_destroy s'\<close> s'(2)] by blast
    then show ?thesis using Some s'(1,3) released_trans by auto
  qed
qed

lemma release_exact:
  "no_destroy s \<Longrightarrow> exact s (R + {#a#}) \<Longrightarrow> card (counted s) \<le> n \<Longrightarrow>
    \<exists>s'. release D (Suc n) a s = Some (Inr s') \<and> exact s' R \<and> released s s'"
proof (induction n arbitrary: a s R)
  case (0 a s R)
  have "a \<in> counted s" using exactD [OF 0(2), of a] by (simp add: counted_def)
  then show ?case using 0(3) finite_live [of s] by auto
next
  case (Suc n a s R)
  obtain c where c: "cell_at s a = Some c" "0 < refcnt c" using exact_live [OF Suc.prems(2), of a] by auto
  have a: "a < length s" "s ! a = Some c" using cell_at_SomeD [OF c(1)] by simp_all
  have ca: "count_at s a = refcnt c" using c(1) by (simp add: count_at_def)
  have plain_c: "destroyed c = None" using Suc.prems(1) nth_mem [OF a(1)] a(2) unfolding no_destroy_def by metis
  define d where "d = c\<lparr>refcnt := refcnt c - 1\<rparr>"
  define s1 where "s1 = s[a := Some d]"
  have p1: "no_destroy s1" using no_destroy_update [OF Suc.prems(1), of "Some d" a] plain_c by (simp add: s1_def d_def)
  have d: "cell_at s1 a = Some d" using a(1) by (simp add: s1_def cell_at_update)
  have cnt1: "count_at s1 b = (if b = a then refcnt c - 1 else count_at s b)" for b
    using count_at_update [OF a(1), of d b] by (simp add: s1_def d_def)
  show ?case
  proof (cases "refcnt c = 1")
    case False
    have "refs s1 = refs s" unfolding s1_def
      by (rule refs_same [OF c(1)]) (use c(2) False in \<open>simp add: refs_of_def d_def\<close>)
    then have "exact s1 R" using exactD [OF Suc.prems(2)] ca by (auto simp: exact_def cnt1)
    moreover have "released s s1"
    proof -
      have "counted s1 \<subseteq> counted s" using ca c(2) by (auto simp: counted_def cnt1)
      moreover have "dying s1 \<subseteq> dying s" using False by (auto simp: dying_def s1_def cell_at_update d_def split: if_splits)
      moreover have "cell_at s1 b = cell_at s b" if "count_at s b = 0" for b
        using that ca c(2) by (auto simp: s1_def cell_at_update)
      moreover have "same_shape s s1" unfolding s1_def by (rule same_shape_update [OF c(1)]) (simp add: d_def)
      ultimately show ?thesis using p1 by (simp add: released_def s1_def)
    qed
    moreover have "release D (Suc (Suc n)) a s = Some (Inr s1)"
      using c False by (simp add: s1_def d_def Let_def)
    ultimately show ?thesis by blast
  next
    case True
    have cs: "count R a = 0" "count (refs s) a = 0" using exactD [OF Suc.prems(2), of a] ca True by simp_all
    have "refs s1 + targets (members c) = refs s"
      using refs_update [OF a(1), of "Some d"] a(2) c(2) True by (simp add: s1_def refs_of_def d_def)
    then have r1: "R + targets (members c) + refs s1 = R + refs s" by (metis add.assoc add.commute)
    have e1: "exact s1 (R + targets (members c))"
      unfolding exact_def r1 using exactD [OF Suc.prems(2)] ca True cs by (auto simp: cnt1)
    have l1: "counted s1 = counted s - {a}" by (auto simp: counted_def cnt1 True)
    have "a \<in> counted s" using ca True by (simp add: counted_def)
    then have card: "card (counted s1) \<le> n" using Suc.prems(3) finite_live by (simp add: l1)
    obtain s2 where s2: "release_members (release D (Suc n)) (members c) s1 = Some (Inr s2)" "exact s2 R" "released s1 s2"
      using release_members_exact [where rel = "release D (Suc n)", OF Suc.IH p1 e1 card] by blast
    have same: "cell_at s2 a = Some d" using s2(3) d by (simp add: released_def cnt1 True)
    have a2: "a < length s2" "s2 ! a = Some d" using cell_at_SomeD [OF same] by simp_all
    have "refs (s2[a := None]) = refs s2" using refs_update [OF a2(1), of None] a2(2) True by (simp add: refs_of_def d_def)
    moreover have cn: "count_at (s2[a := None]) b = count_at s2 b" for b
      using same a2(1) True by (auto simp: count_at_def cell_at_update d_def)
    ultimately have "exact (s2[a := None]) R" using s2(2) by (simp add: exact_def)
    moreover have "released s (s2[a := None])"
    proof -
      have "counted (s2[a := None]) \<subseteq> counted s" using s2(3) l1 by (auto simp: released_def counted_def cn)
      moreover have "dying (s2[a := None]) \<subseteq> dying s"
      proof
        fix b
        assume b: "b \<in> dying (s2[a := None])"
        then have "b \<noteq> a" "b \<in> dying s2" using a2(1) by (auto simp: dying_def cell_at_update split: if_splits)
        then have "b \<in> dying s1" using s2(3) by (auto simp: released_def)
        then show "b \<in> dying s" using \<open>b \<noteq> a\<close> by (auto simp: dying_def s1_def cell_at_update)
      qed
      moreover have "no_destroy (s2[a := None])" using s2(3) by (intro no_destroy_update) (auto simp: released_def)
      moreover have "cell_at (s2[a := None]) b = cell_at s b" if "count_at s b = 0" for b
      proof -
        have "b \<noteq> a" "count_at s1 b = 0" using that ca True by (auto simp: cnt1)
        then have "cell_at s2 b = cell_at s1 b" using s2(3) by (simp add: released_def)
        then show ?thesis using \<open>b \<noteq> a\<close> by (simp add: s1_def cell_at_update)
      qed
      moreover have "same_shape s (s2[a := None])"
      proof -
        have "same_shape s s1" using c(1) a(1) by (auto simp: same_shape_def s1_def d_def cell_at_update)
        moreover have "same_shape s1 s2" using s2(3) by (simp add: released_def)
        moreover have "same_shape s2 (s2[a := None])" by (auto simp: same_shape_def cell_at_update split: if_splits)
        ultimately show ?thesis using same_shape_trans by blast
      qed
      ultimately show ?thesis using s2(3) by (simp add: released_def s1_def)
    qed
    moreover have "release D (Suc (Suc n)) a s = Some (Inr (s2[a := None]))"
    proof -
      have "delete_cell (release D (Suc n)) a s1 = Some (Inr (s2[a := None]))"
        using d s2(1) by (simp add: delete_cell_def d_def)
      then show ?thesis using c True plain_c by (simp add: s1_def d_def Let_def del: release.simps(2)) (simp add: Let_def)
    qed
    ultimately show ?thesis by blast
  qed
qed

subsection \<open>Operations keep the counts\<close>

text \<open>\<open>R\<close> are references outside of the memory, \<open>N\<close> references that are counted and no longer there.\<close>

definition exact_memory :: "memory \<Rightarrow> nat multiset \<Rightarrow> nat multiset \<Rightarrow> bool" where
  "exact_memory m R N = ((\<forall>a. count_at (cells m) a + int (count N a) = int (count (targets (handles m) + refs (cells m) + R) a)) \<and>
     no_destroy (cells m))"

lemma exact_memory_exact: "exact_memory m R {#} = (exact (cells m) (targets (handles m) + R) \<and> no_destroy (cells m))"
  by (simp add: exact_memory_def exact_def ac_simps)

lemma exact_memory_cancel: "exact_memory m (R + X) X \<Longrightarrow> exact_memory m R {#}"
  by (simp add: exact_memory_def)

lemma frame_sum: "A + X = B + Y \<Longrightarrow> A + F + X = B + F + (Y :: nat multiset)" "A + X = B + Y \<Longrightarrow> F + A + X = F + B + Y"
proof -
  assume e: "A + X = B + Y"
  have "A + F + X = (A + X) + F" "B + F + Y = (B + Y) + F" "F + A + X = (A + X) + F" "F + B + Y = (B + Y) + F"
    by (simp_all add: ac_simps)
  then show "A + F + X = B + F + Y" "F + A + X = F + B + Y" using e by simp_all
qed

lemma cancel_sum: "A + C = B + D \<Longrightarrow> D + X = C + Y \<Longrightarrow> A + X = B + (Y :: nat multiset)"
proof -
  assume "A + C = B + D" "D + X = C + Y"
  then have "(A + C) + (D + X) = (B + D) + (C + Y)" by simp
  then have "(A + X) + (C + D) = (B + Y) + (C + D)" by (simp only: ac_simps)
  then show ?thesis by simp
qed

lemma exact_memory_step:
  assumes "exact_memory m R N" "no_destroy (cells m')" "\<And>a. count_at (cells m') a = count_at (cells m) a"
    "targets (handles m') + refs (cells m') + X = targets (handles m) + refs (cells m) + Y"
  shows "exact_memory m' (R + X) (N + Y)"
proof -
  have "count_at (cells m') a + int (count (N + Y) a) = int (count (targets (handles m') + refs (cells m') + (R + X)) a)" for a
  proof -
    have "count (targets (handles m') + refs (cells m') + X) a = count (targets (handles m) + refs (cells m) + Y) a"
      by (simp only: assms(4))
    moreover have "count_at (cells m) a + int (count N a) = int (count (targets (handles m) + refs (cells m) + R) a)"
      using assms(1) by (simp only: exact_memory_def)
    ultimately show ?thesis using assms(3) [of a] by simp
  qed
  then show ?thesis using assms(2) by (simp only: exact_memory_def) simp
qed

definition in_place :: "memory \<Rightarrow> location \<Rightarrow> bool" where
  "in_place m l = (case l of Handle i \<Rightarrow> i < length (handles m)
     | Member a k \<Rightarrow> (\<exists>c. cell_at (cells m) a = Some c \<and> 0 < refcnt c \<and> k < length (members c)))"

definition kept :: "memory \<Rightarrow> memory \<Rightarrow> bool" where
  "kept m m' = (length (handles m') = length (handles m) \<and> length (cells m') = length (cells m) \<and>
     dying (cells m') \<subseteq> dying (cells m) \<and> same_shape (cells m) (cells m'))"

lemma kept_refl: "kept m m"
  by (simp add: kept_def same_shape_refl)

lemma kept_trans: "kept m m' \<Longrightarrow> kept m' m'' \<Longrightarrow> kept m m''"
  unfolding kept_def using same_shape_trans by force

lemma in_place_get: "in_place m l \<Longrightarrow> \<exists>p. get_ptr m l = Some (Inr p)"
  by (cases l) (auto simp: in_place_def get_ptr_def)

lemma exact_set_ptr:
  assumes "exact_memory m R N" "in_place m l" "get_ptr m l = Some (Inr old)"
  shows "\<exists>m'. set_ptr l p m = Some (Inr m') \<and> exact_memory m' (R + target old) (N + target p) \<and> kept m m' \<and>
    (\<forall>l'. in_place m l' \<longrightarrow> in_place m' l' \<and> get_ptr m' l' = (if l' = l then Some (Inr p) else get_ptr m l'))"
proof (cases l)
  case (Handle i)
  then have i: "i < length (handles m)" "old = handles m ! i" using assms(2,3) by (auto simp: in_place_def get_ptr_def)
  have t: "targets ((handles m)[i := p]) + target old = targets (handles m) + target p"
    using targets_update [OF i(1), of p] i(2) by simp
  have "targets ((handles m)[i := p]) + refs (cells m) + target old = targets (handles m) + refs (cells m) + target p"
    by (rule frame_sum(1) [OF t])
  then have "exact_memory (m\<lparr>handles := (handles m)[i := p]\<rparr>) (R + target old) (N + target p)"
    using exact_memory_step [OF assms(1), of "m\<lparr>handles := (handles m)[i := p]\<rparr>"] assms(1) by (simp add: exact_memory_def)
  then show ?thesis using Handle i(1)
    by (auto simp: set_ptr_def kept_def same_shape_refl in_place_def get_ptr_def split: location.splits)
next
  case (Member a k)
  then obtain c where c: "cell_at (cells m) a = Some c" "0 < refcnt c" "k < length (members c)" "old = members c ! k"
    using assms(2,3) by (auto simp: in_place_def get_ptr_def)
  define d where "d = c\<lparr>members := (members c)[k := p]\<rparr>"
  have a: "a < length (cells m)" "cells m ! a = Some c" using cell_at_SomeD [OF c(1)] by simp_all
  have "refs ((cells m)[a := Some d]) + targets (members c) = refs (cells m) + targets (members d)"
    using refs_update [OF a(1), of "Some d"] a(2) c(2) by (simp add: refs_of_def d_def)
  moreover have "targets (members d) + target old = targets (members c) + target p"
    using targets_update [OF c(3), of p] c(4) by (simp add: d_def)
  ultimately have r: "refs ((cells m)[a := Some d]) + target old = refs (cells m) + target p" by (rule cancel_sum)
  have "targets (handles m) + refs ((cells m)[a := Some d]) + target old = targets (handles m) + refs (cells m) + target p"
    by (rule frame_sum(2) [OF r])
  moreover have "count_at ((cells m)[a := Some d]) b = count_at (cells m) b" for b
    using a(1) c(1) by (simp add: count_at_update d_def) (simp add: count_at_def)
  moreover have "no_destroy ((cells m)[a := Some d])"
    using assms(1) a nth_mem [OF a(1)] by (intro no_destroy_update) (auto simp: exact_memory_def no_destroy_def d_def)
  ultimately have "exact_memory (m\<lparr>cells := (cells m)[a := Some d]\<rparr>) (R + target old) (N + target p)"
    using exact_memory_step [OF assms(1), of "m\<lparr>cells := (cells m)[a := Some d]\<rparr>"] by simp
  moreover have "kept m (m\<lparr>cells := (cells m)[a := Some d]\<rparr>)"
    using c(1,2) same_shape_update [OF c(1), of d] by (auto simp: kept_def dying_def cell_at_update d_def)
  moreover have "in_place (m\<lparr>cells := (cells m)[a := Some d]\<rparr>) l' \<and>
      get_ptr (m\<lparr>cells := (cells m)[a := Some d]\<rparr>) l' = (if l' = l then Some (Inr p) else get_ptr m l')" if "in_place m l'" for l'
    using that c a Member by (auto simp: in_place_def get_ptr_def cell_at_update d_def split: location.splits)
  ultimately show ?thesis using Member c(1,3) by (simp add: set_ptr_def d_def)
qed

text \<open>The pointer that is copied points to a cell that has a reference, or to a new cell.\<close>

definition holdable :: "memory \<Rightarrow> ptr \<Rightarrow> bool" where
  "holdable m p = (p = None \<or> (\<exists>a c. p = Some a \<and> cell_at (cells m) a = Some c \<and> 0 < refcnt c))"

lemma exact_construct:
  assumes "exact_memory m R {#}" "holdable m p"
  shows "\<exists>m'. construct p m = Some (Inr m') \<and> exact_memory m' (R + target p) {#} \<and> kept m m' \<and> (\<forall>l. in_place m l \<longrightarrow> in_place m' l)"
proof (cases p)
  case None
  then show ?thesis using assms(1) by (simp add: construct_def kept_refl)
next
  case (Some a)
  then obtain c where c: "cell_at (cells m) a = Some c" "0 < refcnt c" using assms(2) by (auto simp: holdable_def)
  let ?s = "(cells m)[a := Some (c\<lparr>refcnt := refcnt c + 1\<rparr>)]"
  have a: "a < length (cells m)" "cells m ! a = Some c" using cell_at_SomeD [OF c(1)] by simp_all
  have e: "exact (cells m) (targets (handles m) + R)" using assms(1) by (simp add: exact_memory_exact)
  have r: "retain a (cells m) = Some (Inr ?s)" "exact ?s (targets (handles m) + (R + {#a#}))"
    using exact_retain [OF e c] by (simp_all add: ac_simps)
  moreover have "no_destroy ?s" using assms(1) a nth_mem [OF a(1)] by (intro no_destroy_update) (auto simp: exact_memory_def no_destroy_def)
  moreover have "kept m (m\<lparr>cells := ?s\<rparr>)"
    using c a same_shape_update [OF c(1), of "c\<lparr>refcnt := refcnt c + 1\<rparr>"] by (auto simp: kept_def dying_def cell_at_update)
  moreover have "in_place (m\<lparr>cells := ?s\<rparr>) l" if "in_place m l" for l
    using that c a by (auto simp: in_place_def cell_at_update split: location.splits)
  ultimately show ?thesis using Some by (simp add: construct_def exact_memory_exact)
qed

lemma exact_destruct:
  assumes "exact_memory m (R + target p) {#}" "length (cells m) < n"
  shows "\<exists>m'. destruct (release D n) p m = Some (Inr m') \<and> exact_memory m' R {#} \<and> kept m m'"
proof (cases p)
  case None
  then show ?thesis using assms(1) by (simp add: destruct_def kept_refl)
next
  case (Some a)
  obtain k where k: "n = Suc k" using assms(2) by (cases n) auto
  have "counted (cells m) \<subseteq> {..<length (cells m)}" by (auto simp: counted_def count_at_def cell_at_def split: if_splits)
  then have "card (counted (cells m)) \<le> k" using card_mono [of "{..<length (cells m)}" "counted (cells m)"] assms(2) k by simp
  moreover have "exact (cells m) ((targets (handles m) + R) + {#a#})" "no_destroy (cells m)"
    using assms(1) Some by (simp_all add: exact_memory_exact)
  ultimately obtain s where "release D n a (cells m) = Some (Inr s)" "exact s (targets (handles m) + R)" "released (cells m) s"
    using release_exact [of "cells m" "targets (handles m) + R" a k D] k by blast
  then show ?thesis using Some by (simp add: destruct_def exact_memory_exact released_def kept_def)
qed

lemma exact_replace:
  assumes "exact_memory m (R + target p) {#}" "in_place m l" "length (cells m) < n"
  shows "\<exists>m'. andthen (get_ptr m l) (\<lambda>old. andthen (set_ptr l p m) (destruct (release D n) old)) = Some (Inr m') \<and>
    exact_memory m' R {#} \<and> kept m m'"
proof -
  obtain old where old: "get_ptr m l = Some (Inr old)" using in_place_get [OF assms(2)] by blast
  obtain m2 where m2: "set_ptr l p m = Some (Inr m2)" "exact_memory m2 (R + target p + target old) ({#} + target p)" "kept m m2"
    using exact_set_ptr [OF assms(1,2) old] by blast
  have "exact_memory m2 (R + target old + target p) (target p)" using m2(2) by (simp add: ac_simps)
  then have e: "exact_memory m2 (R + target old) {#}" by (rule exact_memory_cancel)
  have "length (cells m2) < n" using assms(3) m2(3) by (simp add: kept_def)
  then obtain m' where "destruct (release D n) old m2 = Some (Inr m')" "exact_memory m' R {#}" "kept m2 m'"
    using exact_destruct [OF e] by blast
  then show ?thesis using old m2(1) kept_trans [OF m2(3)] by auto
qed

lemma exact_assign_ptr:
  assumes "exact_memory m R {#}" "in_place m l" "holdable m p" "length (cells m) < n"
  shows "\<exists>m'. assign_ptr (release D n) l p m = Some (Inr m') \<and> exact_memory m' R {#} \<and> kept m m'"
proof -
  obtain m1 where m1: "construct p m = Some (Inr m1)" "exact_memory m1 (R + target p) {#}" "kept m m1" "in_place m1 l"
    using exact_construct [OF assms(1,3)] assms(2) by blast
  have "length (cells m1) < n" using assms(4) m1(3) by (simp add: kept_def)
  from exact_replace [OF m1(2,4) this, of D] show ?thesis using m1(1) kept_trans [OF m1(3)] by (auto simp: assign_ptr_def)
qed

lemma exact_assign_new:
  assumes "exact_memory m R {#}" "in_place m l" "Suc (length (cells m)) < n"
  shows "\<exists>m'. assign_ptr (release D n) l (Some (length (cells m))) (m\<lparr>cells := cells m @ [Some (new_cell k)]\<rparr>) = Some (Inr m') \<and>
    exact_memory m' R {#} \<and> kept (m\<lparr>cells := cells m @ [Some (new_cell k)]\<rparr>) m' \<and> dying (cells m') \<subseteq> dying (cells m)"
proof -
  let ?a = "length (cells m)"
  define d where "d = (new_cell k)\<lparr>refcnt := 1\<rparr>"
  define m1 where "m1 = m\<lparr>cells := cells m @ [Some d]\<rparr>"
  have tg: "targets (replicate k None) = {#}" by (induction k) simp_all
  have at: "cell_at (cells m @ [x]) b = (if b = ?a then x else cell_at (cells m) b)" for x b
    by (simp add: cell_at_def nth_append)
  have none: "cell_at (cells m) ?a = None" by (simp add: cell_at_def)
  have con: "construct (Some ?a) (m\<lparr>cells := cells m @ [Some (new_cell k)]\<rparr>) = Some (Inr m1)"
    by (simp add: construct_def retain_def at new_cell_def m1_def d_def)
  have "count_at (cells m @ [Some d]) b = (if b = ?a then 1 else count_at (cells m) b)" for b
    by (simp add: count_at_def at d_def)
  moreover have "count_at (cells m) ?a = 0" using none by (simp add: count_at_def)
  moreover have "refs (cells m @ [Some d]) = refs (cells m)" by (simp add: refs_def refs_of_def d_def new_cell_def tg)
  moreover have "no_destroy (cells m @ [Some d])" using assms(1) by (auto simp: no_destroy_def exact_memory_def d_def new_cell_def)
  ultimately have e: "exact_memory m1 (R + target (Some ?a)) {#}"
    using assms(1) unfolding exact_memory_def m1_def by (auto split: if_splits)
  have l: "in_place m1 l" using assms(2) none by (auto simp: in_place_def m1_def at split: location.splits)
  have n: "length (cells m1) < n" using assms(3) by (simp add: m1_def)
  obtain m' where m': "andthen (get_ptr m1 l) (\<lambda>old. andthen (set_ptr l (Some ?a) m1) (destruct (release D n) old)) = Some (Inr m')"
    "exact_memory m' R {#}" "kept m1 m'"
    using exact_replace [OF e l n] by blast
  have "dying (cells m1) = dying (cells m)" using none by (auto simp: dying_def m1_def at d_def)
  then have "dying (cells m') \<subseteq> dying (cells m)" using m'(3) by (simp add: kept_def)
  moreover have "kept (m\<lparr>cells := cells m @ [Some (new_cell k)]\<rparr>) m1"
    using none by (auto simp: kept_def m1_def same_shape_def at dying_def d_def)
  ultimately show ?thesis using con m' kept_trans by (auto simp: assign_ptr_def)
qed

subsection \<open>Programs\<close>

text \<open>
  Between two commands no cell is dying. The programs have \<open>v\<close> variables and objects of \<open>k\<close> members; a
  place that goes through a null variable fails the assertion of \<open>operator->\<close>.
\<close>

definition settled :: "nat \<Rightarrow> nat \<Rightarrow> memory \<Rightarrow> bool" where
  "settled v k m = (exact_memory m {#} {#} \<and> dying (cells m) = {} \<and> length (handles m) = v \<and>
     (\<forall>a c. cell_at (cells m) a = Some c \<longrightarrow> length (members c) = k))"

fun place_ok :: "nat \<Rightarrow> nat \<Rightarrow> place \<Rightarrow> bool" where
  "place_ok v k (Var i) = (i < v)"
| "place_ok v k (Field i j) = (i < v \<and> j < k)"

fun command_ok :: "nat \<Rightarrow> nat \<Rightarrow> command \<Rightarrow> bool" where
  "command_ok v k (New d) = place_ok v k d"
| "command_ok v k (Assign d s) = (place_ok v k d \<and> place_ok v k s)"
| "command_ok v k (Reset d) = place_ok v k d"
| "command_ok v k (Swap x y) = (place_ok v k x \<and> place_ok v k y)"

lemma in_targets: "b \<in># targets ps \<longleftrightarrow> Some b \<in> set ps"
proof (induction ps)
  case (Cons p ps)
  then show ?case by (cases p) auto
qed simp

lemma in_refs: "b \<in># refs s \<longleftrightarrow> (\<exists>a c. cell_at s a = Some c \<and> 0 < refcnt c \<and> Some b \<in> set (members c))"
proof -
  have "b \<in># refs s \<longleftrightarrow> (\<exists>x \<in> set s. b \<in># refs_of x)" unfolding refs_def by (induction s) auto
  also have "\<dots> \<longleftrightarrow> (\<exists>c. Some c \<in> set s \<and> 0 < refcnt c \<and> Some b \<in> set (members c))"
    by (force simp: refs_of_def in_targets split: option.splits if_splits)
  also have "\<dots> \<longleftrightarrow> (\<exists>a c. cell_at s a = Some c \<and> 0 < refcnt c \<and> Some b \<in> set (members c))"
    by (auto simp: in_set_conv_nth cell_at_def)
  finally show ?thesis .
qed

lemma settled_exact: "settled v k m \<Longrightarrow> exact (cells m) (targets (handles m))"
  by (simp add: settled_def exact_memory_exact)

lemma settled_locate:
  assumes "settled v k m" "place_ok v k pl"
  shows "locate m pl = Some (Inl Abort) \<or> (\<exists>l. locate m pl = Some (Inr l) \<and> in_place m l)"
proof (cases pl)
  case (Var i)
  then show ?thesis using assms by (simp add: locate_def in_place_def settled_def)
next
  case (Field i j)
  then have i: "i < length (handles m)" "j < k" using assms by (simp_all add: settled_def)
  show ?thesis
  proof (cases "handles m ! i")
    case None
    then show ?thesis using Field i by (simp add: locate_def)
  next
    case (Some a)
    then have "a \<in># targets (handles m)" using i(1) nth_mem [OF i(1)] by (simp add: in_targets)
    then obtain c where c: "cell_at (cells m) a = Some c" "0 < refcnt c" using exact_live [OF settled_exact [OF assms(1)]] by blast
    then have "in_place m (Member a j)" using assms(1) i(2) by (auto simp: in_place_def settled_def)
    then show ?thesis using Field i Some by (simp add: locate_def)
  qed
qed

lemma settled_holdable:
  assumes "settled v k m" "get_ptr m l = Some (Inr p)" "in_place m l"
  shows "holdable m p"
proof (cases p)
  case (Some b)
  have "b \<in># targets (handles m) \<or> b \<in># refs (cells m)"
  proof (cases l)
    case (Handle i)
    then have "Some b \<in> set (handles m)" using assms(2) Some nth_mem by (fastforce simp: get_ptr_def split: if_splits)
    then show ?thesis by (simp add: in_targets)
  next
    case (Member a j)
    then obtain c where c: "cell_at (cells m) a = Some c" "0 < refcnt c" "j < length (members c)"
      using assms(3) by (auto simp: in_place_def)
    then have "members c ! j = Some b" using assms(2) Some Member by (simp add: get_ptr_def)
    then have "Some b \<in> set (members c)" using c(3) nth_mem by metis
    then show ?thesis using c by (auto simp: in_refs)
  qed
  then show ?thesis using exact_live [OF settled_exact [OF assms(1)]] Some by (auto simp: holdable_def)
qed (simp add: holdable_def)

lemma settled_kept:
  assumes "settled v k m" "exact_memory m' {#} {#}" "kept m m'"
  shows "settled v k m' \<and> length (cells m') = length (cells m)"
  using assms unfolding settled_def kept_def same_shape_def by (metis subset_empty)

definition fine :: "nat \<Rightarrow> nat \<Rightarrow> nat \<Rightarrow> memory mem_run \<Rightarrow> bool" where
  "fine v k n r = (r = Some (Inl Abort) \<or> (\<exists>m. r = Some (Inr m) \<and> settled v k m \<and> length (cells m) \<le> n))"

lemma settled_swap:
  assumes m: "settled v k m" and l: "in_place m lx" "in_place m ly" and pq: "get_ptr m lx = Some (Inr p)" "get_ptr m ly = Some (Inr q)"
  shows "fine v k (length (cells m)) (andthen (set_ptr lx q m) (set_ptr ly p))"
proof -
  have e: "exact_memory m {#} {#}" using m by (simp add: settled_def)
  obtain m1 where m1: "set_ptr lx q m = Some (Inr m1)" "exact_memory m1 (target p) (target q)" "kept m m1"
    "in_place m1 ly" "get_ptr m1 ly = Some (Inr q)"
    using exact_set_ptr [OF e l(1) pq(1), of q] l(2) pq(2) by auto
  obtain m2 where m2: "set_ptr ly p m1 = Some (Inr m2)" "exact_memory m2 (target p + target q) (target q + target p)" "kept m1 m2"
    using exact_set_ptr [OF m1(2,4,5), of p] by blast
  have "exact_memory m2 ({#} + (target p + target q)) (target p + target q)" using m2(2) by (simp add: ac_simps)
  then have "exact_memory m2 {#} {#}" by (rule exact_memory_cancel)
  then have "settled v k m2 \<and> length (cells m2) = length (cells m)" using settled_kept [OF m] kept_trans [OF m1(3) m2(3)] by blast
  then show ?thesis using m1(1) m2(1) by (simp add: fine_def)
qed

lemma settled_perform:
  assumes m: "settled v k m" and c: "command_ok v k c" and n: "Suc (length (cells m)) < n"
  shows "fine v k (Suc (length (cells m))) (perform (release D n) k c m)"
proof -
  have e: "exact_memory m {#} {#}" and d0: "dying (cells m) = {}" using m by (simp_all add: settled_def)
  have ab: "fine v k i (Some (Inl Abort))" for i by (simp add: fine_def)
  have mono: "fine v k (length (cells m)) r \<Longrightarrow> fine v k (Suc (length (cells m))) r" for r
    unfolding fine_def by (metis le_Suc_eq)
  have asg: "fine v k (length (cells m)) (assign_ptr (release D n) l p m)" if "in_place m l" "holdable m p" for l p
  proof -
    note lp = that
    obtain m' where "assign_ptr (release D n) l p m = Some (Inr m')" "exact_memory m' {#} {#}" "kept m m'"
      using exact_assign_ptr [OF e lp Suc_lessD [OF n]] by blast
    then show ?thesis using settled_kept [OF m] by (auto simp: fine_def)
  qed
  show ?thesis
  proof (cases c)
    case (New d)
    consider "locate m d = Some (Inl Abort)" | l where "locate m d = Some (Inr l)" "in_place m l"
      using settled_locate [OF m, of d] c New by auto
    then show ?thesis
    proof cases
      case 1
      then show ?thesis using New ab by (simp add: assign_new_def)
    next
      case 2
      let ?m0 = "m\<lparr>cells := cells m @ [Some (new_cell k)]\<rparr>"
      obtain m' where m': "assign_ptr (release D n) l (Some (length (cells m))) ?m0 = Some (Inr m')"
        "exact_memory m' {#} {#}" "kept ?m0 m'" "dying (cells m') \<subseteq> dying (cells m)"
        using exact_assign_new [OF e 2(2) n, where k = k] by blast
      have "length (members x) = k" if "cell_at (cells ?m0) b = Some x" for b x
        using that m by (auto simp: settled_def cell_at_def nth_append new_cell_def split: if_splits)
      then have "settled v k m'" using m' d0 m unfolding settled_def kept_def same_shape_def by fastforce
      moreover have "length (cells m') = Suc (length (cells m))" using m'(3) by (simp add: kept_def)
      ultimately show ?thesis using New 2(1) m'(1) by (simp add: assign_new_def fine_def)
    qed
  next
    case (Assign d s)
    consider "locate m d = Some (Inl Abort)" | l where "locate m d = Some (Inr l)" "in_place m l" "locate m s = Some (Inl Abort)"
      | l l' where "locate m d = Some (Inr l)" "in_place m l" "locate m s = Some (Inr l')" "in_place m l'"
      using settled_locate [OF m, of d] settled_locate [OF m, of s] c Assign by auto
    then show ?thesis
    proof cases
      case (3 l l')
      obtain p where p: "get_ptr m l' = Some (Inr p)" using in_place_get [OF 3(4)] by blast
      have "fine v k (length (cells m)) (assign_ptr (release D n) l p m)" using asg 3(2) settled_holdable [OF m p 3(4)] by blast
      then show ?thesis using Assign 3 p mono by (simp add: assign_def)
    qed (use Assign ab in \<open>simp_all add: assign_def\<close>)
  next
    case (Reset d)
    consider "locate m d = Some (Inl Abort)" | l where "locate m d = Some (Inr l)" "in_place m l"
      using settled_locate [OF m, of d] c Reset by auto
    then show ?thesis
    proof cases
      case 2
      have "fine v k (length (cells m)) (assign_ptr (release D n) l None m)" using asg 2(2) by (simp add: holdable_def)
      then show ?thesis using Reset 2(1) mono by (simp add: reset_def)
    qed (use Reset ab in \<open>simp add: reset_def\<close>)
  next
    case (Swap x y)
    consider "locate m x = Some (Inl Abort)" | l where "locate m x = Some (Inr l)" "in_place m l" "locate m y = Some (Inl Abort)"
      | l l' where "locate m x = Some (Inr l)" "in_place m l" "locate m y = Some (Inr l')" "in_place m l'"
      using settled_locate [OF m, of x] settled_locate [OF m, of y] c Swap by auto
    then show ?thesis
    proof cases
      case (3 l l')
      obtain p q where pq: "get_ptr m l = Some (Inr p)" "get_ptr m l' = Some (Inr q)"
        using in_place_get [OF 3(2)] in_place_get [OF 3(4)] by blast
      have "fine v k (length (cells m)) (andthen (set_ptr l q m) (set_ptr l' p))" by (rule settled_swap [OF m 3(2,4) pq])
      then show ?thesis using Swap 3 pq mono by (simp add: swap_def)
    qed (use Swap ab in \<open>simp_all add: swap_def\<close>)
  qed
qed

lemma settled_perform_all:
  "settled v k m \<Longrightarrow> (\<And>c. c \<in> set cs \<Longrightarrow> command_ok v k c) \<Longrightarrow> length (cells m) + length cs < n \<Longrightarrow>
    fine v k (length (cells m) + length cs) (perform_all (release D n) k cs m)"
proof (induction cs arbitrary: m)
  case Nil
  then show ?case by (simp add: fine_def)
next
  case (Cons c cs)
  have "fine v k (Suc (length (cells m))) (perform (release D n) k c m)"
    using settled_perform [OF Cons.prems(1)] Cons.prems(2,3) by simp
  then consider "perform (release D n) k c m = Some (Inl Abort)"
    | m' where "perform (release D n) k c m = Some (Inr m')" "settled v k m'" "length (cells m') \<le> Suc (length (cells m))"
    by (auto simp: fine_def)
  then show ?case
  proof cases
    case 1
    then show ?thesis by (simp add: fine_def)
  next
    case (2 m')
    then have "fine v k (length (cells m') + length cs) (perform_all (release D n) k cs m')"
      using Cons.IH [of m'] Cons.prems(2,3) by simp
    then show ?thesis using 2(1,3) by (auto simp: fine_def)
  qed
qed

lemma start_settled: "settled v k (start_memory v)"
proof -
  have "targets (replicate v None) = {#}" by (induction v) simp_all
  then show ?thesis
    by (simp add: settled_def start_memory_def exact_memory_exact exact_def no_destroy_def count_at_def cell_at_def refs_def dying_def)
qed

lemma start_fine:
  assumes "\<And>c. c \<in> set cs \<Longrightarrow> command_ok v k c" "length cs < n"
  shows "fine v k (length cs) (perform_all (release D n) k cs (start_memory v))"
proof -
  have "length (cells (start_memory v)) = 0" by (simp add: start_memory_def)
  then show ?thesis using settled_perform_all [where cs = cs and n = n and D = D, OF start_settled assms(1)] assms(2) by simp
qed

lemma settled_positive:
  assumes "settled v k m" "cell_at (cells m) a = Some c"
  shows "0 < refcnt c"
proof -
  have "count_at (cells m) a = int (count (targets (handles m) + refs (cells m)) a)"
    using settled_exact [OF assms(1)] unfolding exact_def by blast
  then have "0 \<le> refcnt c" using assms(2) by (simp add: count_at_def)
  moreover have "refcnt c \<noteq> 0" using assms unfolding settled_def dying_def by blast
  ultimately show ?thesis by simp
qed

subsection \<open>Properties\<close>

text \<open>C16. Reference counting is safe and exact. A program of assignments, resets, swaps and new objects over
  \<open>SharedPtr\<close>s, in variables and in objects, reads no freed object and frees none twice, it can only
  stop at a null pointer; and after it the count of every object is the number of pointers to
  it, so an object that something points to has not been freed.\<close>

theorem shared_ptr_exact:
  assumes "\<And>c. c \<in> set cs \<Longrightarrow> command_ok v k c" and "length cs < n"
  shows "\<exists>r. perform_all (release D n) k cs (start_memory v) = Some r \<and> (r = Inl Abort \<or> (\<exists>m. r = Inr m \<and>
    (\<forall>a. (case cell_at (cells m) a of None \<Rightarrow> 0 | Some c \<Rightarrow> refcnt c) = int (count (targets (handles m) + refs (cells m)) a)) \<and>
    (\<forall>a c. cell_at (cells m) a = Some c \<longrightarrow> 0 < refcnt c)))"
proof -
  have f: "fine v k (length cs) (perform_all (release D n) k cs (start_memory v))" by (rule start_fine [OF assms])
  show ?thesis
  proof (cases "perform_all (release D n) k cs (start_memory v) = Some (Inl Abort)")
    case False
    then obtain m where m: "perform_all (release D n) k cs (start_memory v) = Some (Inr m)" "settled v k m"
      using f unfolding fine_def by blast
    then show ?thesis using settled_exact [OF m(2)] settled_positive [OF m(2)] unfolding exact_def count_at_def by blast
  qed simp
qed

theorem shared_ptr_exact_witness:
  "\<exists>m. perform_all (release (\<lambda>a s. Some (Inr s)) 9) 1 [New (Var 0), New (Field 0 0), Assign (Var 0) (Field 0 0)] (start_memory 1) = Some (Inr m) \<and>
     cells m = [None, Some \<lparr>refcnt = 1, members = [None], destroyed = None\<rparr>] \<and>
     (\<forall>a c. cell_at (cells m) a = Some c \<longrightarrow> 0 < refcnt c)"
proof -
  let ?r = "perform_all (release (\<lambda>a s. Some (Inr s)) 9) 1 [New (Var 0), New (Field 0 0), Assign (Var 0) (Field 0 0)] (start_memory 1)"
  let ?m = "\<lparr>cells = [None, Some \<lparr>refcnt = 1, members = [None], destroyed = None\<rparr>], handles = [Some 1]\<rparr>"
  have r: "?r = Some (Inr ?m)" by code_simp
  have "\<exists>r. ?r = Some r \<and> (r = Inl Abort \<or> (\<exists>m. r = Inr m \<and>
    (\<forall>a. (case cell_at (cells m) a of None \<Rightarrow> 0 | Some c \<Rightarrow> refcnt c) = int (count (targets (handles m) + refs (cells m)) a)) \<and>
    (\<forall>a c. cell_at (cells m) a = Some c \<longrightarrow> 0 < refcnt c)))"
    by (rule shared_ptr_exact [where v = 1]) auto
  then have "\<forall>a c. cell_at (cells ?m) a = Some c \<longrightarrow> 0 < refcnt c" unfolding r by auto
  then show ?thesis using r by (intro exI [of _ ?m]) simp
qed

text \<open>C17. Nothing leaks but cycles: when a program has reset its variables and no object reaches itself through
  its members, every object has been freed.\<close>

theorem shared_ptr_no_leak:
  assumes "\<And>c. c \<in> set cs \<Longrightarrow> command_ok v k c" and "length cs < n"
    and "perform_all (release D n) k cs (start_memory v) = Some (Inr m)" and "set (handles m) \<subseteq> {None}"
    and "acyclic {(a, b). \<exists>c. cell_at (cells m) a = Some c \<and> Some b \<in> set (members c)}" (is "acyclic ?E")
  shows "set (cells m) \<subseteq> {None}"
proof -
  have s: "settled v k m" using start_fine [OF assms(1,2), where D = D] assms(3) by (simp add: fine_def)
  have ex: "exact (cells m) (targets (handles m))" by (rule settled_exact [OF s])
  note pos = settled_positive [OF s]
  have hs: "targets (handles m) = {#}"
  proof (rule ccontr)
    assume "targets (handles m) \<noteq> {#}"
    then obtain b where "b \<in># targets (handles m)" by blast
    then show False using assms(4) by (auto simp: in_targets)
  qed
  have pre: "\<exists>b. (b, a) \<in> ?E \<and> cell_at (cells m) b \<noteq> None" if "cell_at (cells m) a \<noteq> None" for a
  proof -
    from that obtain c where c: "cell_at (cells m) a = Some c" by blast
    have "count_at (cells m) a = int (count (refs (cells m)) a)" using exactD [OF ex, of a] by (simp add: hs)
    then have "0 < count (refs (cells m)) a" using pos [OF c] c by (simp add: count_at_def)
    then have "a \<in># refs (cells m)" by (simp only: count_greater_zero_iff)
    then obtain b d where "cell_at (cells m) b = Some d" "Some a \<in> set (members d)" unfolding in_refs by blast
    then show ?thesis by (intro exI [of _ b]) simp
  qed
  have lt: "a < length (cells m) \<and> b < length (cells m)" if c: "cell_at (cells m) a = Some c" "Some b \<in> set (members c)" for a b c
  proof -
    have "b \<in># refs (cells m)" using c pos [OF c(1)] unfolding in_refs by blast
    then obtain d where "cell_at (cells m) b = Some d" using exact_live [OF ex] by blast
    then show ?thesis using cell_at_SomeD [OF c(1)] cell_at_SomeD [of "cells m" b d] by blast
  qed
  have "?E \<subseteq> {..<length (cells m)} \<times> {..<length (cells m)}"
  proof (rule subrelI)
    fix a b
    assume "(a, b) \<in> ?E"
    then obtain c where "cell_at (cells m) a = Some c" "Some b \<in> set (members c)" by (simp only: mem_Collect_eq case_prod_conv) (elim exE conjE)
    from lt [OF this] show "(a, b) \<in> {..<length (cells m)} \<times> {..<length (cells m)}" by simp
  qed
  then have "finite ?E" by (rule finite_subset) simp
  then have "wf ?E" by (rule finite_acyclic_wf [OF _ assms(5)])
  then have none: "cell_at (cells m) a = None" for a
  proof (induction a rule: wf_induct_rule)
    case (less a)
    show ?case
    proof (rule ccontr)
      assume "cell_at (cells m) a \<noteq> None"
      from pre [OF this] obtain b where b: "(b, a) \<in> ?E" "cell_at (cells m) b \<noteq> None" by blast
      from b(2) less.IH [OF b(1)] show False by (rule notE)
    qed
  qed
  show ?thesis
  proof
    fix x
    assume "x \<in> set (cells m)"
    then obtain i where "i < length (cells m)" "cells m ! i = x" by (auto simp: in_set_conv_nth)
    then show "x \<in> {None}" using none [of i] by (simp add: cell_at_def)
  qed
qed

theorem shared_ptr_no_leak_witness:
  "perform_all (release (\<lambda>a s. Some (Inr s)) 9) 1 [New (Var 0), New (Field 0 0), Reset (Var 0)] (start_memory 1) =
     Some (Inr \<lparr>cells = [None, None], handles = [None]\<rparr>) \<and> set (cells \<lparr>cells = [None, None], handles = [None]\<rparr>) \<subseteq> {None}"
proof -
  let ?m = "\<lparr>cells = [None, None], handles = [None]\<rparr>"
  have r: "perform_all (release (\<lambda>a s. Some (Inr s)) 9) 1 [New (Var 0), New (Field 0 0), Reset (Var 0)] (start_memory 1) = Some (Inr ?m)"
    by code_simp
  have none: "cell_at [None, None] a = None" for a by (cases a) (auto simp: cell_at_def nth_Cons split: nat.split)
  have "set (cells ?m) \<subseteq> {None}"
    by (rule shared_ptr_no_leak [where v = 1, OF _ _ r]) (auto simp: none acyclic_def)
  then show ?thesis using r by blast
qed

text \<open>An object that points to itself is never freed.\<close>

lemma cycle_leaks:
  "perform_all (release (\<lambda>a s. Some (Inr s)) 9) 1 [New (Var 0), Assign (Field 0 0) (Var 0), Reset (Var 0)] (start_memory 1) =
     Some (Inr \<lparr>cells = [Some \<lparr>refcnt = 1, members = [Some 0], destroyed = None\<rparr>], handles = [None]\<rparr>)"
  by code_simp

text \<open>The method \<open>DESTROY\<close> runs once, and a method that stores its object ends the process.\<close>

lemma destroy_runs_once:
  assumes "cell_at s a = Some c" "refcnt c = 1" "destroyed c = Some True"
  shows "release D (Suc n) a s = Some (Inr (s[a := Some (c\<lparr>refcnt := 0\<rparr>)]))"
  using assms by (simp add: Let_def)

lemma stored_object_aborts:
  assumes "cell_at s a = Some c" "refcnt c = 1" "destroyed c = Some False"
    and "call_destroy a (s[a := Some (c\<lparr>refcnt := 0, destroyed := Some True\<rparr>)]) = Some (Inr s')" "cell_at s' a = Some c'" "refcnt c' \<noteq> 0"
  shows "release call_destroy (Suc n) a s = Some (Inl Abort)"
  using assms by (simp add: Let_def)

end
