(* ===== verification/Tora_Pool.thy ===== *)
theory Tora_Pool
  imports Tora_Prelude
begin

text \<open>
  The pool of memory blocks (\<open>tora/memorypool.h\<close>): a linked list of free blocks that is threaded through
  the blocks themselves. A block is a number; \<open>links\<close> holds the first word of every block there is, which is
  the field \<open>next_\<close> while the block is free and belongs to its owner otherwise.
\<close>

record pool =
  pool_next :: ptr
  links :: "ptr list"

text \<open>
  \<open>new char[size]\<close> is the next number; its contents are not set. \<open>runner\<close> is the last block of the new list.
\<close>

fun expand_from :: "nat \<Rightarrow> nat \<Rightarrow> ptr list \<Rightarrow> ptr list" where
  "expand_from 0 runner ls = ls[runner := None]"
| "expand_from (Suc n) runner ls = expand_from n (length ls) ((ls @ [None])[runner := Some (length ls)])"

definition expandTheFreeList :: "nat \<Rightarrow> pool \<Rightarrow> pool" where
  "expandTheFreeList n p = (let runner = length (links p)
     in \<lparr>pool_next = Some runner, links = expand_from n runner (links p @ [None])\<rparr>)"

definition new_pool :: "nat \<Rightarrow> pool" where
  "new_pool sz = expandTheFreeList sz \<lparr>pool_next = None, links = []\<rparr>"

definition pool_alloc :: "nat \<Rightarrow> pool \<Rightarrow> (unit, nat \<times> pool) result" where
  "pool_alloc sz p = (let p = (if pool_next p = None then expandTheFreeList sz p else p)
     in case pool_next p of None \<Rightarrow> Inl Undefined
       | Some head \<Rightarrow> if head < length (links p) then Inr (head, p\<lparr>pool_next := links p ! head\<rparr>) else Inl Undefined)"

definition pool_free :: "nat \<Rightarrow> pool \<Rightarrow> (unit, pool) result" where
  "pool_free doomed p = (if doomed < length (links p)
     then Inr (p\<lparr>links := (links p)[doomed := pool_next p], pool_next := Some doomed\<rparr>) else Inl Undefined)"

subsection \<open>The owners of blocks\<close>

text \<open>
  A program allocates, frees what it owns, and writes to what it owns; \<open>used\<close> are the blocks it owns.
\<close>

datatype pool_op = Alloc | Free nat | Write nat ptr

fun pool_step :: "nat \<Rightarrow> pool_op \<Rightarrow> pool \<times> nat list \<Rightarrow> (unit, pool \<times> nat list) result" where
  "pool_step sz Alloc (p, used) = bnd (pool_alloc sz p) (\<lambda>(a, p'). Inr (p', a # used))"
| "pool_step sz (Free a) (p, used) = (if a \<in> set used
     then bnd (pool_free a p) (\<lambda>p'. Inr (p', remove1 a used)) else Inr (p, used))"
| "pool_step sz (Write a w) (p, used) = Inr (if a \<in> set used then p\<lparr>links := (links p)[a := w]\<rparr> else p, used)"

fun pool_run :: "nat \<Rightarrow> pool_op list \<Rightarrow> pool \<times> nat list \<Rightarrow> (unit, pool \<times> nat list) result" where
  "pool_run sz [] s = Inr s"
| "pool_run sz (c # cs) s = bnd (pool_step sz c s) (pool_run sz cs)"

subsection \<open>The free list\<close>

fun chain :: "ptr list \<Rightarrow> ptr \<Rightarrow> nat list \<Rightarrow> bool" where
  "chain ls p [] = (p = None)"
| "chain ls p (a # as) = (p = Some a \<and> a < length ls \<and> chain ls (ls ! a) as)"

lemma chain_update: "a \<notin> set as \<Longrightarrow> chain (ls[a := w]) p as = chain ls p as"
  by (induction as arbitrary: p) auto

lemma chain_append: "chain ls p as \<Longrightarrow> chain (ls @ ms) p as"
  by (induction as arbitrary: p) (auto simp: nth_append)

lemma length_expand_from: "length (expand_from n r ls) = length ls + n"
  by (induction n r ls rule: expand_from.induct) simp_all

lemma expand_from_nth: "i < length ls \<Longrightarrow> i \<noteq> r \<Longrightarrow> expand_from n r ls ! i = ls ! i"
  by (induction n r ls rule: expand_from.induct) (simp_all add: nth_append)

lemma expand_from_chain:
  "r < length ls \<Longrightarrow> chain (expand_from n r ls) (Some r) (r # [length ls ..< length ls + n])"
proof (induction n arbitrary: r ls)
  case (Suc n)
  let ?ls = "(ls @ [None])[r := Some (length ls)]"
  have c: "chain (expand_from n (length ls) ?ls) (Some (length ls)) (length ls # [length ?ls ..< length ?ls + n])"
    by (rule Suc.IH) simp
  have "expand_from n (length ls) ?ls ! r = Some (length ls)"
    using Suc.prems expand_from_nth [of r ?ls "length ls" n] by simp
  moreover have "r < length (expand_from n (length ls) ?ls)" using Suc.prems by (simp add: length_expand_from)
  moreover have "[length ls ..< length ls + Suc n] = length ls # [length ?ls ..< length ?ls + n]"
    by (simp add: upt_conv_Cons)
  ultimately show ?case using c by simp
qed simp

definition pool_ok :: "pool \<Rightarrow> nat list \<Rightarrow> nat list \<Rightarrow> bool" where
  "pool_ok p fs used = (chain (links p) (pool_next p) fs \<and> distinct (fs @ used) \<and> set used \<subseteq> {..<length (links p)})"

lemma chain_bound: "chain ls p as \<Longrightarrow> set as \<subseteq> {..<length ls}"
  by (induction as arbitrary: p) auto

lemma expand_ok:
  assumes "distinct used" "set used \<subseteq> {..<length (links p)}"
  shows "pool_ok (expandTheFreeList n p) [length (links p) ..< length (links p) + Suc n] used"
proof -
  let ?L = "length (links p)"
  have "chain (expand_from n ?L (links p @ [None])) (Some ?L) (?L # [length (links p @ [None]) ..< length (links p @ [None]) + n])"
    by (rule expand_from_chain) simp
  moreover have "[?L ..< ?L + Suc n] = ?L # [length (links p @ [None]) ..< length (links p @ [None]) + n]"
    by (simp add: upt_conv_Cons)
  ultimately show ?thesis using assms
    by (auto simp: pool_ok_def expandTheFreeList_def Let_def length_expand_from)
qed

lemma alloc_ok:
  assumes "pool_ok p fs used"
  shows "\<exists>a p' fs'. pool_alloc sz p = Inr (a, p') \<and> a \<notin> set used \<and> pool_ok p' fs' (a # used)"
proof -
  define p1 where "p1 = (if pool_next p = None then expandTheFreeList sz p else p)"
  have "\<exists>f fs'. pool_ok p1 (f # fs') used"
  proof (cases "pool_next p")
    case None
    have "pool_ok p1 [length (links p) ..< length (links p) + Suc sz] used"
      using expand_ok [of used p sz] assms None by (simp add: p1_def pool_ok_def)
    moreover have "[length (links p) ..< length (links p) + Suc sz] = length (links p) # [Suc (length (links p)) ..< length (links p) + Suc sz]"
      by (rule upt_conv_Cons) simp
    ultimately show ?thesis by metis
  next
    case (Some a)
    then obtain fs' where "fs = a # fs'" using assms by (cases fs) (auto simp: pool_ok_def)
    then show ?thesis using assms Some by (auto simp: p1_def)
  qed
  then obtain f fs' where f: "pool_ok p1 (f # fs') used" by blast
  then have "pool_alloc sz p = Inr (f, p1\<lparr>pool_next := links p1 ! f\<rparr>)"
    by (simp add: pool_alloc_def p1_def [symmetric] pool_ok_def)
  moreover have "pool_ok (p1\<lparr>pool_next := links p1 ! f\<rparr>) fs' (f # used)" using f by (auto simp: pool_ok_def)
  moreover have "f \<notin> set used" using f by (auto simp: pool_ok_def)
  ultimately show ?thesis by blast
qed

lemma step_ok:
  assumes "pool_ok p fs used"
  shows "\<exists>p' used' fs'. pool_step sz c (p, used) = Inr (p', used') \<and> pool_ok p' fs' used'"
proof (cases c)
  case Alloc
  then show ?thesis using alloc_ok [OF assms, of sz] by auto
next
  case (Free a)
  show ?thesis
  proof (cases "a \<in> set used")
    case True
    then have a: "a < length (links p)" "a \<notin> set fs" using assms by (auto simp: pool_ok_def)
    let ?p = "p\<lparr>links := (links p)[a := pool_next p], pool_next := Some a\<rparr>"
    have "pool_ok ?p (a # fs) (remove1 a used)"
      using assms a True by (auto simp: pool_ok_def chain_update dest: notin_set_remove1)
    then show ?thesis using Free True a by (auto simp: pool_free_def)
  next
    case False
    then show ?thesis using Free assms by auto
  qed
next
  case (Write a w)
  have "pool_ok (p\<lparr>links := (links p)[a := w]\<rparr>) fs used" if "a \<in> set used"
  proof -
    have "a \<notin> set fs" using that assms by (auto simp: pool_ok_def)
    then show ?thesis using assms by (simp add: pool_ok_def chain_update)
  qed
  then show ?thesis using Write assms by auto
qed

lemma run_ok: "pool_ok p fs used \<Longrightarrow>
    \<exists>p' used' fs'. pool_run sz cs (p, used) = Inr (p', used') \<and> pool_ok p' fs' used'"
proof (induction cs arbitrary: p fs used)
  case (Cons c cs)
  obtain p1 used1 fs1 where "pool_step sz c (p, used) = Inr (p1, used1)" "pool_ok p1 fs1 used1"
    using step_ok [OF Cons.prems] by blast
  then show ?case using Cons.IH by simp
qed auto

subsection \<open>Property\<close>

text \<open>The pool never hands out a block twice: however a program allocates, frees and overwrites its
  blocks, the blocks it owns are different, the free list is not harmed, and the next allocation
  gives a block that is not owned.\<close>

theorem pool_blocks_distinct:
  "\<exists>p used a p'. pool_run sz cs (new_pool sz, []) = Inr (p, used) \<and> distinct used \<and>
    pool_alloc sz p = Inr (a, p') \<and> a \<notin> set used"
proof -
  have "pool_ok (new_pool sz) [0 ..< Suc sz] []"
    using expand_ok [of "[]" "\<lparr>pool_next = None, links = []\<rparr>" sz] by (simp add: new_pool_def)
  then obtain p used fs where p: "pool_run sz cs (new_pool sz, []) = Inr (p, used)" "pool_ok p fs used"
    using run_ok by blast
  moreover obtain a p' where "pool_alloc sz p = Inr (a, p')" "a \<notin> set used" using alloc_ok [OF p(2)] by blast
  moreover have "distinct used" using p(2) by (simp add: pool_ok_def)
  ultimately show ?thesis by blast
qed

end
