(* ===== verification/Tora_Types.thy ===== *)
theory Tora_Types
  imports Tora_Expression
begin

text \<open>
  Types of expressions: the operators of \<open>tora/operator.cc\<close> give results whose type depends only on the
  types of their operands, so an expression over typed variables has a type that its value
  has when the compiled code is run.
\<close>

subsection \<open>Types\<close>











subsection \<open>Operators\<close>









subsection \<open>Expressions\<close>














end
